theory Spec2Isabelle
  imports Main
begin

section \<open>Strings as the crawler uses them\<close>

text \<open>
  JavaScript strings are modelled as \<open>string\<close> (a list of characters).
  \<open>String.prototype.trim\<close> removes white space and line terminators from both ends;
  on the 8-bit characters of the model these are TAB, LF, VT, FF, CR, SPACE and NBSP.
\<close>

definition isWhiteSpace :: "char \<Rightarrow> bool" where
  "isWhiteSpace c \<longleftrightarrow>
     c \<in> set [CHR 0x09, CHR 0x0A, CHR 0x0B, CHR 0x0C, CHR 0x0D, CHR 0x20, CHR 0xA0]"

definition trim :: "string \<Rightarrow> string" where
  "trim s = rev (dropWhile isWhiteSpace (rev (dropWhile isWhiteSpace s)))"

text \<open>The regular-expression class \<open>\d\<close> (without the unicode flag): the ten ASCII digits.\<close>

definition isDigit :: "char \<Rightarrow> bool" where
  "isDigit c \<longleftrightarrow> c \<in> set ''0123456789''"

text \<open>
  \<open>address.match(/#(\d+)-/)\<close> followed by \<open>floorMatch[1]\<close>: the first capture group of
  the leftmost match, or \<open>None\<close> when \<open>match\<close> returns \<open>null\<close>. The matcher tries every
  start position from the left; at a \<open>#\<close> the greedy \<open>\d+\<close> takes the whole run of digits,
  and giving digits back can never help, because the character after a shorter run is a
  digit and not the hyphen.
\<close>

fun floorMatch :: "string \<Rightarrow> string option" where
  "floorMatch [] = None"
| "floorMatch (c # s) =
     (if c = CHR ''#'' \<and> takeWhile isDigit s \<noteq> []
         \<and> dropWhile isDigit s \<noteq> [] \<and> hd (dropWhile isDigit s) = CHR ''-''
      then Some (takeWhile isDigit s)
      else floorMatch s)"

text \<open>Decimal rendering of a number inside a template literal (\<open>`${n}`\<close>).\<close>

fun show_nat :: "nat \<Rightarrow> string" where
  "show_nat n =
     (if n < 10 then [char_of (48 + n)]
      else show_nat (n div 10) @ [char_of (48 + n mod 10)])"

declare show_nat.simps [simp del]

section \<open>The row extractor\<close>

text \<open>
  The extractor runs inside the page and sees the document only through DOM queries.
  A row element is modelled by what those queries return on it:
  \<^item> a cell found by \<open>row.querySelector('[da-id="row-date"]')\<close> is \<open>Some cell\<close>, a missing
    one \<open>None\<close>;
  \<^item> inside a cell, \<open>querySelector(".field-value")\<close> and the like are \<open>Some text\<close> with the
    element's \<open>textContent\<close>, or \<open>None\<close> when there is no such element.
\<close>

record value_cell =
  field_value :: "string option"

record two_line_cell =
  main_text :: "string option"
  sub_text :: "string option"

record expanded_item =
  expanded_item_value :: "string option"

record sibling_row =
  table_row_expanded :: bool
  expanded_lease :: "expanded_item option"
  expanded_address :: "expanded_item option"

record row =
  row_date :: "value_cell option"
  row_bedroom :: "two_line_cell option"
  row_price :: "two_line_cell option"
  row_floorLevel :: "value_cell option"
  row_completed :: "value_cell option"
  nextElementSibling :: "sibling_row option"

text \<open>
  A transaction object. A property that was never assigned and a property assigned
  \<open>undefined\<close> are both \<open>None\<close>: the object leaves the page through serialisation, which
  drops \<open>undefined\<close> properties.
\<close>

record transaction =
  date :: "string option"
  bedrooms :: "string option"
  size_field :: "string option"
  price :: "string option"
  pricePerSqft :: "string option"
  floorLevel :: "string option"
  buildStatus :: "string option"
  lease :: "string option"
  address :: "string option"
  floor_field :: "string option"

definition empty_transaction :: transaction where
  "empty_transaction =
     \<lparr>date = None, bedrooms = None, size_field = None, price = None, pricePerSqft = None,
      floorLevel = None, buildStatus = None, lease = None, address = None,
      floor_field = None\<rparr>"

text \<open>\<open>el.querySelector(sel)?.textContent?.trim()\<close> on the result of the inner query.\<close>

definition trimmedText :: "string option \<Rightarrow> string option" where
  "trimmedText e = map_option trim e"

definition extractDate :: "row \<Rightarrow> transaction \<Rightarrow> transaction" where
  "extractDate r t =
     (case row_date r of
        None \<Rightarrow> t
      | Some dateCell \<Rightarrow> t\<lparr>date := trimmedText (field_value dateCell)\<rparr>)"

definition extractBedroom :: "row \<Rightarrow> transaction \<Rightarrow> transaction" where
  "extractBedroom r t =
     (case row_bedroom r of
        None \<Rightarrow> t
      | Some bedroomCell \<Rightarrow>
          t\<lparr>bedrooms := trimmedText (main_text bedroomCell),
            size_field := trimmedText (sub_text bedroomCell)\<rparr>)"

definition extractPrice :: "row \<Rightarrow> transaction \<Rightarrow> transaction" where
  "extractPrice r t =
     (case row_price r of
        None \<Rightarrow> t
      | Some priceCell \<Rightarrow>
          t\<lparr>price := trimmedText (main_text priceCell),
            pricePerSqft := trimmedText (sub_text priceCell)\<rparr>)"

definition extractFloorLevel :: "row \<Rightarrow> transaction \<Rightarrow> transaction" where
  "extractFloorLevel r t =
     (case row_floorLevel r of
        None \<Rightarrow> t
      | Some floorCell \<Rightarrow> t\<lparr>floorLevel := trimmedText (field_value floorCell)\<rparr>)"

definition extractBuildStatus :: "row \<Rightarrow> transaction \<Rightarrow> transaction" where
  "extractBuildStatus r t =
     (case row_completed r of
        None \<Rightarrow> t
      | Some completedCell \<Rightarrow> t\<lparr>buildStatus := trimmedText (field_value completedCell)\<rparr>)"

definition extractLease :: "sibling_row \<Rightarrow> transaction \<Rightarrow> transaction" where
  "extractLease expandedRow t =
     (case expanded_lease expandedRow of
        None \<Rightarrow> t
      | Some leaseItem \<Rightarrow> t\<lparr>lease := trimmedText (expanded_item_value leaseItem)\<rparr>)"

text \<open>
  \<open>if (address)\<close> is false for \<open>undefined\<close> and for the empty string;
  \<open>if (floorMatch)\<close> is false exactly when \<open>match\<close> returned \<open>null\<close>.
\<close>

definition extractAddress :: "sibling_row \<Rightarrow> transaction \<Rightarrow> transaction" where
  "extractAddress expandedRow t =
     (case expanded_address expandedRow of
        None \<Rightarrow> t
      | Some addressItem \<Rightarrow>
          (let addr = trimmedText (expanded_item_value addressItem);
               t' = t\<lparr>address := addr\<rparr>
           in case addr of
                None \<Rightarrow> t'
              | Some a \<Rightarrow>
                  if a \<noteq> [] then
                    (case floorMatch a of
                       None \<Rightarrow> t'
                     | Some g \<Rightarrow> t'\<lparr>floor_field := Some g\<rparr>)
                  else t'))"

definition extractExpanded :: "row \<Rightarrow> transaction \<Rightarrow> transaction" where
  "extractExpanded r t =
     (case nextElementSibling r of
        None \<Rightarrow> t
      | Some expandedRow \<Rightarrow>
          if table_row_expanded expandedRow
          then extractAddress expandedRow (extractLease expandedRow t)
          else t)"

text \<open>
  The body of \<open>rows.forEach\<close>, the same statements in both programs (the batch server
  and the command-line tool): start from \<open>{}\<close> and run the seven blocks in order.
\<close>

definition extractRow :: "row \<Rightarrow> transaction" where
  "extractRow r =
     extractExpanded r
       (extractBuildStatus r
         (extractFloorLevel r
           (extractPrice r
             (extractBedroom r
               (extractDate r empty_transaction)))))"

text \<open>\<open>rows.forEach(... transactions.push(transaction))\<close>: one transaction per row, in order.\<close>

definition extractPage :: "row list \<Rightarrow> transaction list" where
  "extractPage rows = map extractRow rows"

section \<open>Progress events and the session registry\<close>

datatype status = Starting | Loading | Scraping | Completed | Error

text \<open>The payload handed to \<open>emitProgress\<close>; \<open>ev_error\<close> is the optional \<open>error\<close> key.\<close>

record progress_event =
  urlIndex :: nat
  totalUrls :: nat
  status :: status
  ev_url :: string
  message :: string
  ev_error :: "string option"

definition progress ::
  "nat \<Rightarrow> nat \<Rightarrow> status \<Rightarrow> string \<Rightarrow> string \<Rightarrow> string option \<Rightarrow> progress_event" where
  "progress i n st u m e =
     \<lparr>urlIndex = i, totalUrls = n, status = st, ev_url = u, message = m, ev_error = e\<rparr>"

text \<open>
  \<open>activeCrawls\<close> is a process-wide \<open>Map\<close> from session identifiers to
  \<open>{ res, startTime }\<close>. The response streams live outside the map: \<open>res\<close> is a handle into
  the store \<open>streams\<close>, which holds what has been written to each stream (the payloads,
  without the \<open>data: ...\<close> framing).
\<close>

record session =
  res :: "nat option"
  startTime :: nat

record server =
  activeCrawls :: "string \<rightharpoonup> session"
  streams :: "nat \<Rightarrow> progress_event list"

text \<open>
  \<open>emitProgress(sessionId, data)\<close>: look the session up; write only
  \<open>if (session && session.res)\<close>.
\<close>

definition emitProgress :: "server \<Rightarrow> string \<Rightarrow> progress_event \<Rightarrow> server" where
  "emitProgress sv sessionId d =
     (case activeCrawls sv sessionId of
        None \<Rightarrow> sv
      | Some session \<Rightarrow>
          (case res session of
             None \<Rightarrow> sv
           | Some r \<Rightarrow> sv\<lparr>streams := (streams sv)(r := streams sv r @ [d])\<rparr>))"

text \<open>\<open>activeCrawls.set(sessionId, { res, startTime })\<close> and \<open>activeCrawls.delete(sessionId)\<close>.\<close>

definition activeCrawls_set :: "server \<Rightarrow> string \<Rightarrow> session \<Rightarrow> server" where
  "activeCrawls_set sv sessionId s = sv\<lparr>activeCrawls := (activeCrawls sv)(sessionId \<mapsto> s)\<rparr>"

definition activeCrawls_delete :: "server \<Rightarrow> string \<Rightarrow> server" where
  "activeCrawls_delete sv sessionId = sv\<lparr>activeCrawls := (activeCrawls sv)(sessionId := None)\<rparr>"

text \<open>A sequence of emit calls for one session, in order.\<close>

definition emitAll :: "server \<Rightarrow> string \<Rightarrow> progress_event list \<Rightarrow> server" where
  "emitAll sv sessionId ds = foldl (\<lambda>s d. emitProgress s sessionId d) sv ds"

section \<open>The browser as the crawler sees it\<close>

text \<open>
  The browser is outside the program. Each awaited call either returns or throws an
  \<open>Error\<close>; a thrown error is modelled by its \<open>message\<close>. For a call whose value is not
  used, \<open>None\<close> means it returned and \<open>Some m\<close> that it threw \<open>m\<close>; for a call whose value is
  used, \<open>Inr v\<close> is the value and \<open>Inl m\<close> the throw.
\<close>

text \<open>
  The next-page button as the page script inspects it: \<open>closest_li\<close> is the class list of
  \<open>nextButton.closest("li")\<close>, or \<open>None\<close> when there is no enclosing \<open>li\<close>.
\<close>

record next_button =
  closest_li :: "string list option"

record next_button_status =
  btn_exists :: bool
  btn_enabled :: bool

text \<open>
  The page script of "Check for next page". \<open>isDisabled\<close> is
  \<open>parentLi && parentLi.classList.contains("disabled")\<close>, which is falsy without an
  enclosing \<open>li\<close>.
\<close>

definition nextButtonStatus :: "next_button option \<Rightarrow> next_button_status" where
  "nextButtonStatus nextButton =
     (case nextButton of
        None \<Rightarrow> \<lparr>btn_exists = False, btn_enabled = False\<rparr>
      | Some b \<Rightarrow>
          (let isDisabled =
                 (case closest_li b of None \<Rightarrow> False | Some classList \<Rightarrow> ''disabled'' \<in> set classList)
           in \<lparr>btn_exists = True, btn_enabled = \<not> isDisabled\<rparr>))"

text \<open>
  What one state of the table answers during one turn of the loop:
  the wait for \<open>.table-row-collapsed\<close>, the expansion script, the rows found by the
  extraction script, the next button found by the status script, the click on it, and
  the wait for network idle after the click.
\<close>

record page_view =
  waitForRows :: "string option"
  expandRows :: "string option"
  tableRows :: "string + row list"
  nextButton :: "string + next_button option"
  clickNext :: "string option"
  waitForNetworkIdle :: "string option"

text \<open>
  A tab (\<open>page\<close>). \<open>view k\<close> is the state of the table after \<open>k - 1\<close> successful clicks on
  the next button, that is while the page counter is \<open>k\<close>. \<open>goto\<close> depends on the address
  and the timeout it is given; \<open>toISOString\<close> is the clock reading taken for \<open>scrapedAt\<close>.
\<close>

record tab =
  setUserAgent :: "string option"
  evaluateOnNewDocument :: "string option"
  goto :: "string \<Rightarrow> int \<Rightarrow> string option"
  scrollToBottom :: "string option"
  waitForTableRoot :: "string option"
  removeFilters :: "string option"
  view :: "nat \<Rightarrow> page_view"
  toISOString :: string
  closePage :: "string option"

section \<open>The result of one crawl\<close>

text \<open>
  The two shapes \<open>crawlPropertyGuru\<close> returns:
  \<open>{ url, scrapedAt, totalTransactions, totalPages, transactions }\<close> and
  \<open>{ url, error, transactions: [] }\<close>.
\<close>

datatype crawl_result =
  Scraped (url: string) (scrapedAt: string) (totalTransactions: nat) (totalPages: nat)
    (transactions: "transaction list")
| NotScraped (url: string) (error: string) (transactions: "transaction list")

section \<open>The pagination loop\<close>

text \<open>
  The \<open>while (hasNextPage)\<close> loop of \<open>crawlPropertyGuru\<close>, with its three variables as
  arguments. It returns the accumulated transactions and the page counter, or the message
  of an error thrown by a page script (which the enclosing \<open>catch\<close> receives), together
  with the progress events emitted so far. The result of the wait for network idle is
  not read: its rejection is swallowed by \<open>.catch(() => {})\<close>. The site may offer an
  enabled next button for ever, so the loop need not return: not returning is \<open>None\<close>.
\<close>

definition scrapedEvent :: "nat \<Rightarrow> nat \<Rightarrow> string \<Rightarrow> nat \<Rightarrow> nat \<Rightarrow> progress_event" where
  "scrapedEvent idx tot u currentPage n =
     progress idx tot Scraping u
       (''Scraped page '' @ show_nat currentPage @ '' ('' @ show_nat n @ '' records)'') None"

partial_function (option) paginate ::
  "tab \<Rightarrow> nat \<Rightarrow> nat \<Rightarrow> string \<Rightarrow> bool \<Rightarrow> transaction list \<Rightarrow> nat \<Rightarrow> progress_event list
     \<Rightarrow> ((string + transaction list \<times> nat) \<times> progress_event list) option" where
  "paginate page idx tot u hasNextPage allTransactions currentPage evs =
     (if \<not> hasNextPage then Some (Inr (allTransactions, currentPage), evs)
      else
        (case waitForRows (view page currentPage) of
           Some err \<Rightarrow> Some (Inr (allTransactions, currentPage), evs)
         | None \<Rightarrow>
        (case expandRows (view page currentPage) of
           Some err \<Rightarrow> Some (Inl err, evs)
         | None \<Rightarrow>
        (case tableRows (view page currentPage) of
           Inl err \<Rightarrow> Some (Inl err, evs)
         | Inr rows \<Rightarrow>
        (let pageData = extractPage rows;
             allTransactions' = allTransactions @ pageData;
             evs' = evs @ [scrapedEvent idx tot u currentPage (length pageData)]
         in
        (case nextButton (view page currentPage) of
           Inl err \<Rightarrow> Some (Inl err, evs')
         | Inr nb \<Rightarrow>
             if \<not> btn_exists (nextButtonStatus nb) \<or> \<not> btn_enabled (nextButtonStatus nb)
             then paginate page idx tot u False allTransactions' currentPage evs'
             else
               (case clickNext (view page currentPage) of
                  Some err \<Rightarrow> paginate page idx tot u False allTransactions' currentPage evs'
                | None \<Rightarrow>
                    paginate page idx tot u True allTransactions' (currentPage + 1) evs')))))))"

section \<open>One crawl\<close>

text \<open>
  The \<open>FastCrawler\<close> object. A browser instance is a handle (a number) given out by
  \<open>puppeteer.launch\<close>.
\<close>

record crawler =
  concurrency :: int
  headless :: bool
  timeout :: int
  browsers :: "nat list"

text \<open>
  The body of the \<open>try\<close> block of \<open>crawlPropertyGuru\<close>. \<open>Inl m\<close> is an error thrown inside
  the block, which the \<open>catch\<close> receives. Every emit call of one crawl is made with the
  same session identifier, so the crawl returns the payloads, in the order of the calls.
\<close>

definition tryCrawl ::
  "crawler \<Rightarrow> tab \<Rightarrow> string \<Rightarrow> nat \<Rightarrow> nat
     \<Rightarrow> ((string + crawl_result) \<times> progress_event list) option" where
  "tryCrawl c page u idx tot =
     (case setUserAgent page of
        Some err \<Rightarrow>
          Some (Inl err, [progress idx tot Starting u ''Navigating to page...'' None])
      | None \<Rightarrow>
     (case evaluateOnNewDocument page of
        Some err \<Rightarrow>
          Some (Inl err, [progress idx tot Starting u ''Navigating to page...'' None])
      | None \<Rightarrow>
     (case goto page u (timeout c) of
        Some err \<Rightarrow>
          Some (Inl err, [progress idx tot Starting u ''Navigating to page...'' None])
      | None \<Rightarrow>
     (case scrollToBottom page of
        Some err \<Rightarrow>
          Some (Inl err,
            [progress idx tot Starting u ''Navigating to page...'' None,
             progress idx tot Loading u ''Waiting for content...'' None])
      | None \<Rightarrow>
     (case waitForTableRoot page of
        Some err \<Rightarrow>
          Some (Inr (NotScraped u ''No price history table found'' []),
            [progress idx tot Starting u ''Navigating to page...'' None,
             progress idx tot Loading u ''Waiting for content...'' None,
             progress idx tot Error u ''Price history table not found''
               (Some ''No price history data available'')])
      | None \<Rightarrow>
     (case removeFilters page of
        Some err \<Rightarrow>
          Some (Inl err,
            [progress idx tot Starting u ''Navigating to page...'' None,
             progress idx tot Loading u ''Waiting for content...'' None])
      | None \<Rightarrow>
     (case paginate page idx tot u True [] 1
             [progress idx tot Starting u ''Navigating to page...'' None,
              progress idx tot Loading u ''Waiting for content...'' None,
              progress idx tot Scraping u ''Extracting data...'' None] of
        None \<Rightarrow> None
      | Some (Inl err, evs) \<Rightarrow> Some (Inl err, evs)
      | Some (Inr (allTransactions, currentPage), evs) \<Rightarrow>
          Some (Inr (Scraped u (toISOString page) (length allTransactions) currentPage
                       allTransactions),
            evs @ [progress idx tot Completed u
                     (''Completed: '' @ show_nat (length allTransactions) @ '' transactions'')
                     None]))))))))"

text \<open>The \<open>catch (error)\<close> block: emit an error event and return the error shape.\<close>

definition catchCrawl ::
  "string \<Rightarrow> nat \<Rightarrow> nat \<Rightarrow> (string + crawl_result) \<times> progress_event list
     \<Rightarrow> crawl_result \<times> progress_event list" where
  "catchCrawl u idx tot r =
     (case r of
        (Inr v, evs) \<Rightarrow> (v, evs)
      | (Inl err, evs) \<Rightarrow>
          (NotScraped u err [], evs @ [progress idx tot Error u err (Some err)]))"

text \<open>
  The \<open>finally\<close> block: \<open>await page.close()\<close>. If closing throws, the promise of the crawl
  rejects with that error instead of fulfilling with the value returned before.
\<close>

definition finallyClose ::
  "tab \<Rightarrow> crawl_result \<times> progress_event list
     \<Rightarrow> (string + crawl_result) \<times> progress_event list" where
  "finallyClose page r =
     (case closePage page of
        Some err \<Rightarrow> (Inl err, snd r)
      | None \<Rightarrow> (Inr (fst r), snd r))"

text \<open>
  \<open>this.browsers[urlIndex % this.browsers.length]\<close>. With no browser the remainder is
  \<open>NaN\<close> and the read gives \<open>undefined\<close>; a browser handle itself is never falsy.
\<close>

definition assignedBrowser :: "crawler \<Rightarrow> nat \<Rightarrow> nat option" where
  "assignedBrowser c idx =
     (if browsers c = [] then None
      else Some (browsers c ! (idx mod length (browsers c))))"

text \<open>
  The browser outside the program: \<open>production\<close> is the test
  \<open>chromium && process.env.NODE_ENV === 'production'\<close>, \<open>launch i opts\<close> the \<open>i\<close>-th call of
  \<open>puppeteer.launch\<close>, \<open>newPage b i\<close> the tab that browser \<open>b\<close> opens for the URL at index
  \<open>i\<close>, and \<open>closeBrowser b\<close> the outcome of \<open>b.close()\<close>: \<open>None\<close> when it resolves,
  \<open>Some (t, m)\<close> when it rejects at time \<open>t\<close> with message \<open>m\<close>.
\<close>

datatype launch_options = LambdaOptions | LocalOptions bool

record world =
  production :: bool
  launch :: "nat \<Rightarrow> launch_options \<Rightarrow> string + nat"
  newPage :: "nat \<Rightarrow> nat \<Rightarrow> string + tab"
  closeBrowser :: "nat \<Rightarrow> (nat \<times> string) option"

text \<open>
  \<open>crawlPropertyGuru(url, sessionId, urlIndex, totalUrls)\<close> as the promise it returns:
  \<open>Inl m\<close> is a rejection with message \<open>m\<close>, \<open>Inr v\<close> a fulfilment with value \<open>v\<close>, and \<open>None\<close>
  a promise that never settles. The browser check and \<open>newPage\<close> come before the \<open>try\<close>.
\<close>

definition crawlPropertyGuru ::
  "world \<Rightarrow> crawler \<Rightarrow> string \<Rightarrow> nat \<Rightarrow> nat
     \<Rightarrow> ((string + crawl_result) \<times> progress_event list) option" where
  "crawlPropertyGuru w c u idx tot =
     (case assignedBrowser c idx of
        None \<Rightarrow> Some (Inl ''Browser not available'', [])
      | Some browser \<Rightarrow>
          (case newPage w browser idx of
             Inl err \<Rightarrow> Some (Inl err, [])
           | Inr page \<Rightarrow>
               map_option (\<lambda>r. finallyClose page (catchCrawl u idx tot r))
                 (tryCrawl c page u idx tot)))"

section \<open>The batch\<close>

text \<open>
  The options bag of a request and the constructor of \<open>FastCrawler\<close>:
  \<open>options.concurrency || 3\<close>, \<open>options.headless !== false\<close>, \<open>options.timeout || 30000\<close>.
  For a number, \<open>||\<close> takes the default when the key is missing and when the value is 0.
\<close>

record crawl_options =
  opt_concurrency :: "int option"
  opt_headless :: "bool option"
  opt_timeout :: "int option"

definition orDefault :: "int option \<Rightarrow> int \<Rightarrow> int" where
  "orDefault v d = (case v of None \<Rightarrow> d | Some n \<Rightarrow> if n = 0 then d else n)"

definition FastCrawler :: "crawl_options \<Rightarrow> crawler" where
  "FastCrawler options =
     \<lparr>concurrency = orDefault (opt_concurrency options) 3,
      headless = (opt_headless options \<noteq> Some False),
      timeout = orDefault (opt_timeout options) 30000,
      browsers = []\<rparr>"

text \<open>
  \<open>initBrowsers\<close>: \<open>for (let i = 0; i < this.concurrency; i++)\<close>, launching and pushing
  one browser per turn, with the options of the Lambda branch in production and those
  of the local branch (which carry \<open>this.headless\<close>) otherwise. A launch that throws
  leaves the loop with the browsers pushed so far still in \<open>this.browsers\<close>; the first
  component is the error thrown, if any.
\<close>

definition launchOptionsFor :: "world \<Rightarrow> crawler \<Rightarrow> launch_options" where
  "launchOptionsFor w c = (if production w then LambdaOptions else LocalOptions (headless c))"

function initBrowsersFrom :: "world \<Rightarrow> nat \<Rightarrow> crawler \<Rightarrow> string option \<times> crawler" where
  "initBrowsersFrom w i c =
     (if int i < concurrency c then
        (case launch w i (launchOptionsFor w c) of
           Inl err \<Rightarrow> (Some err, c)
         | Inr browser \<Rightarrow> initBrowsersFrom w (Suc i) (c\<lparr>browsers := browsers c @ [browser]\<rparr>))
      else (None, c))"
  by pat_completeness auto
termination
  by (relation "measure (\<lambda>(w, i, c). nat (concurrency c - int i))") auto

declare initBrowsersFrom.simps [simp del]

definition initBrowsers :: "world \<Rightarrow> crawler \<Rightarrow> string option \<times> crawler" where
  "initBrowsers w c = initBrowsersFrom w 0 c"

text \<open>
  One element of the batch result, built from a settled promise:
  \<open>{ url: urls[index], success, data, error }\<close>.
\<close>

record batch_entry =
  entry_url :: string
  success :: bool
  data :: "crawl_result option"
  entry_error :: "string option"

definition toEntry :: "string \<Rightarrow> string + crawl_result \<Rightarrow> batch_entry" where
  "toEntry u result =
     (case result of
        Inr v \<Rightarrow> \<lparr>entry_url = u, success = True, data = Some v, entry_error = None\<rparr>
      | Inl reason \<Rightarrow> \<lparr>entry_url = u, success = False, data = None, entry_error = Some reason\<rparr>)"

text \<open>
  \<open>Promise.all(this.browsers.map((browser) => browser.close()))\<close>: \<open>close\<close> is called on
  every browser; the combined promise rejects if one of them does, with the error of
  the close that rejects first in time (of two that reject at the same time, the one
  earlier in the array, whose reaction is queued first).
\<close>

definition firstRejection :: "nat \<times> string \<Rightarrow> (nat \<times> string) list \<Rightarrow> nat \<times> string" where
  "firstRejection r rs = foldl (\<lambda>a b. if fst b < fst a then b else a) r rs"

definition closeAll :: "world \<Rightarrow> nat list \<Rightarrow> string option" where
  "closeAll w bs =
     (case List.map_filter (closeBrowser w) bs of
        [] \<Rightarrow> None
      | r # rs \<Rightarrow> Some (snd (firstRejection r rs)))"

text \<open>
  What a run of \<open>crawlMultipleUrls\<close> leaves behind: \<open>returned\<close> is the promise of the call
  (\<open>Inl\<close> a rejection, \<open>Inr\<close> the batch result), \<open>provisioned\<close> the browsers in
  \<open>this.browsers\<close>, \<open>closed\<close> the browsers on which \<open>close\<close> was called, and \<open>emitted\<close> the
  progress payloads of each URL's crawl. The crawls run concurrently; how their events
  interleave on the stream is not fixed by the program and not modelled.
\<close>

record batch_run =
  returned :: "string + batch_entry list"
  provisioned :: "nat list"
  closed :: "nat list"
  emitted :: "progress_event list list"

text \<open>
  \<open>crawlMultipleUrls(urls, sessionId)\<close>. \<open>initBrowsers\<close> is awaited before the \<open>try\<close>;
  inside it, one crawl per URL is started with the trimmed URL and its index, all are
  awaited with \<open>Promise.allSettled\<close>, and the \<open>finally\<close> closes the browsers. If one crawl
  never settles, neither does the batch (\<open>None\<close>).
\<close>

definition crawlMultipleUrls :: "world \<Rightarrow> crawler \<Rightarrow> string list \<Rightarrow> batch_run option" where
  "crawlMultipleUrls w c urls =
     (case initBrowsers w c of
        (Some err, c') \<Rightarrow>
          Some \<lparr>returned = Inl err, provisioned = browsers c', closed = [], emitted = []\<rparr>
      | (None, c') \<Rightarrow>
          (case those (map (\<lambda>(index, u). crawlPropertyGuru w c' (trim u) index (length urls))
                         (enumerate 0 urls)) of
             None \<Rightarrow> None
           | Some results \<Rightarrow>
               Some \<lparr>returned =
                       (case closeAll w (browsers c') of
                          Some err \<Rightarrow> Inl err
                        | None \<Rightarrow> Inr (map (\<lambda>(u, r). toEntry u (fst r)) (zip urls results))),
                     provisioned = browsers c',
                     closed = browsers c',
                     emitted = map snd results\<rparr>))"

section \<open>The command-line tool\<close>

text \<open>
  \<open>crawlPriceHistory\<close> drives one tab of its own browser. Its loop has no wait for rows
  (the wait happens once, before the loop) and emits no progress events; the rest of a
  turn is the same as in the batch server.
\<close>

partial_function (option) paginateCli ::
  "tab \<Rightarrow> bool \<Rightarrow> transaction list \<Rightarrow> nat \<Rightarrow> (string + transaction list \<times> nat) option" where
  "paginateCli page hasNextPage allTransactions currentPage =
     (if \<not> hasNextPage then Some (Inr (allTransactions, currentPage))
      else
        (case expandRows (view page currentPage) of
           Some err \<Rightarrow> Some (Inl err)
         | None \<Rightarrow>
        (case tableRows (view page currentPage) of
           Inl err \<Rightarrow> Some (Inl err)
         | Inr rows \<Rightarrow>
        (let allTransactions' = allTransactions @ extractPage rows
         in
        (case nextButton (view page currentPage) of
           Inl err \<Rightarrow> Some (Inl err)
         | Inr nb \<Rightarrow>
             if \<not> btn_exists (nextButtonStatus nb) \<or> \<not> btn_enabled (nextButtonStatus nb)
             then paginateCli page False allTransactions' currentPage
             else
               (case clickNext (view page currentPage) of
                  Some err \<Rightarrow> paginateCli page False allTransactions' currentPage
                | None \<Rightarrow> paginateCli page True allTransactions' (currentPage + 1)))))))"

text \<open>
  The world of the tool: the one \<open>puppeteer.launch\<close> (given the headless flag), the tab
  the browser opens, \<open>browser.close()\<close>, and \<open>fs.writeFile\<close>.
\<close>

record cli_world =
  cli_launch :: "bool \<Rightarrow> string + nat"
  cli_newPage :: "nat \<Rightarrow> string + tab"
  cli_closeBrowser :: "nat \<Rightarrow> string option"
  writeFile :: "string \<Rightarrow> crawl_result \<Rightarrow> string option"

text \<open>
  The \<open>try\<close> block after the launch. \<open>Inl m\<close>: an error was thrown (the \<open>catch\<close> rethrows
  it); \<open>Inr None\<close>: the function returned without writing a file; \<open>Inr (Some (f, r))\<close>:
  the result \<open>r\<close> was written to file \<open>f\<close>.
\<close>

definition priceHistoryBody ::
  "cli_world \<Rightarrow> nat \<Rightarrow> string \<Rightarrow> string \<Rightarrow> (string + (string \<times> crawl_result) option) option" where
  "priceHistoryBody w browser u outputFile =
     (case cli_newPage w browser of
        Inl err \<Rightarrow> Some (Inl err)
      | Inr page \<Rightarrow>
     (case setUserAgent page of
        Some err \<Rightarrow> Some (Inl err)
      | None \<Rightarrow>
     (case evaluateOnNewDocument page of
        Some err \<Rightarrow> Some (Inl err)
      | None \<Rightarrow>
     (case goto page u 60000 of
        Some err \<Rightarrow> Some (Inl err)
      | None \<Rightarrow>
     (case scrollToBottom page of
        Some err \<Rightarrow> Some (Inl err)
      | None \<Rightarrow>
     (case waitForTableRoot page of
        Some err \<Rightarrow> Some (Inr None)
      | None \<Rightarrow>
     (case removeFilters page of
        Some err \<Rightarrow> Some (Inl err)
      | None \<Rightarrow>
     (case waitForRows (view page 1) of
        Some err \<Rightarrow> Some (Inr None)
      | None \<Rightarrow>
     (case paginateCli page True [] 1 of
        None \<Rightarrow> None
      | Some (Inl err) \<Rightarrow> Some (Inl err)
      | Some (Inr (allTransactions, currentPage)) \<Rightarrow>
          (case writeFile w outputFile
                  (Scraped u (toISOString page) (length allTransactions) currentPage
                     allTransactions) of
             Some err \<Rightarrow> Some (Inl err)
           | None \<Rightarrow>
               Some (Inr (Some (outputFile,
                 Scraped u (toISOString page) (length allTransactions) currentPage
                   allTransactions)))))))))))))"

text \<open>
  A run of \<open>crawlPriceHistory\<close>: \<open>cli_thrown\<close> is the error the call rejects with, if any,
  \<open>written\<close> the file written, and \<open>cli_closed\<close> the browsers closed by the \<open>finally\<close>
  (\<open>if (browser) await browser.close()\<close>; the launch is inside the \<open>try\<close>).
\<close>

record cli_run =
  cli_thrown :: "string option"
  written :: "(string \<times> crawl_result) option"
  cli_closed :: "nat list"

text \<open>
  \<open>puppeteer.launch({ headless: headless, args: [...] })\<close> as the tool calls it. The
  call is kept in a log: the first component is the value passed for \<open>headless\<close>, the
  second what the world answers to a launch with that value.
\<close>

definition puppeteerLaunch :: "(bool \<Rightarrow> string + nat) \<Rightarrow> bool \<Rightarrow> bool list \<times> (string + nat)" where
  "puppeteerLaunch launchFn headlessOpt = ([headlessOpt], launchFn headlessOpt)"

text \<open>
  \<open>crawlPriceHistory(url, outputFile, headless)\<close> with the log of its launch calls. The
  launch is the first call inside the \<open>try\<close>; when it throws, \<open>browser\<close> is still
  \<open>undefined\<close> and the \<open>finally\<close> closes nothing.
\<close>

definition crawlPriceHistoryLogged ::
  "cli_world \<Rightarrow> string \<Rightarrow> string \<Rightarrow> bool \<Rightarrow> bool list \<times> cli_run option" where
  "crawlPriceHistoryLogged w u outputFile headlessFlag =
     (case puppeteerLaunch (cli_launch w) headlessFlag of
        (calls, Inl err) \<Rightarrow>
          (calls, Some \<lparr>cli_thrown = Some err, written = None, cli_closed = []\<rparr>)
      | (calls, Inr browser) \<Rightarrow>
          (calls,
           case priceHistoryBody w browser u outputFile of
             None \<Rightarrow> None
           | Some r \<Rightarrow>
               Some \<lparr>cli_thrown =
                       (case cli_closeBrowser w browser of
                          Some err \<Rightarrow> Some err
                        | None \<Rightarrow> (case r of Inl err \<Rightarrow> Some err | Inr _ \<Rightarrow> None)),
                     written = (case r of Inl err \<Rightarrow> None | Inr f \<Rightarrow> f),
                     cli_closed = [browser]\<rparr>))"

text \<open>The run of \<open>crawlPriceHistory\<close> alone.\<close>

definition crawlPriceHistory :: "cli_world \<Rightarrow> string \<Rightarrow> string \<Rightarrow> bool \<Rightarrow> cli_run option" where
  "crawlPriceHistory w u outputFile headlessFlag =
     snd (crawlPriceHistoryLogged w u outputFile headlessFlag)"

section \<open>The class crawl of the command-line tool\<close>

text \<open>
  \<open>crawlByClass\<close> collects every element with a given class. An element of the document
  is modelled by the properties the page script reads: \<open>innerText\<close> (\<open>None\<close> when the
  element has none, as outside HTML), \<open>textContent\<close>, \<open>innerHTML\<close>, \<open>tagName\<close> and the
  attributes as name and value, in document order.
\<close>

record dom_element =
  innerText :: "string option"
  textContent :: string
  innerHTML :: string
  tagName :: string
  attributes :: "(string \<times> string) list"

text \<open>What the page script pushes for one element.\<close>

record scraped_element =
  el_index :: nat
  el_text :: string
  el_html :: string
  el_tagName :: string
  el_attributes :: "(string \<times> string) list"

text \<open>
  \<open>tagName.toLowerCase()\<close>. Tag names are ASCII; the letters \<open>A\<close> to \<open>Z\<close> are mapped and
  every other character is kept.
\<close>

definition toLowerChar :: "char \<Rightarrow> char" where
  "toLowerChar c =
     (case map_of (zip ''ABCDEFGHIJKLMNOPQRSTUVWXYZ'' ''abcdefghijklmnopqrstuvwxyz'') c of
        None \<Rightarrow> c
      | Some l \<Rightarrow> l)"

definition toLowerCase :: "string \<Rightarrow> string" where
  "toLowerCase s = map toLowerChar s"

text \<open>
  \<open>attrs[attr.name] = attr.value\<close> on an object kept as a list of keys and values in
  insertion order: an existing key keeps its place and takes the new value, a new key
  goes to the end.
\<close>

fun setProperty :: "(string \<times> string) list \<Rightarrow> string \<Rightarrow> string \<Rightarrow> (string \<times> string) list" where
  "setProperty [] k v = [(k, v)]"
| "setProperty (p # ps) k v = (if fst p = k then (k, v) # ps else p # setProperty ps k v)"

text \<open>
  The object pushed for the element at \<open>index\<close>:
  \<open>text: element.innerText || element.textContent || ""\<close> (an empty string is falsy),
  \<open>html: element.innerHTML\<close>, the lower-case tag name, and the attributes reduced into an
  object.
\<close>

definition scrapeElement :: "nat \<Rightarrow> dom_element \<Rightarrow> scraped_element" where
  "scrapeElement index element =
     \<lparr>el_index = index,
      el_text =
        (case innerText element of
           Some t \<Rightarrow> if t \<noteq> [] then t else textContent element
         | None \<Rightarrow> textContent element),
      el_html = innerHTML element,
      el_tagName = toLowerCase (tagName element),
      el_attributes = foldl (\<lambda>attrs attr. setProperty attrs (fst attr) (snd attr)) [] (attributes element)\<rparr>"

definition scrapeElements :: "dom_element list \<Rightarrow> scraped_element list" where
  "scrapeElements elements = map (\<lambda>(index, element). scrapeElement index element) (enumerate 0 elements)"

text \<open>
  The tab as \<open>crawlByClass\<close> uses it: the set-up calls, the navigation, the scroll, the
  elements found by the extraction script, the script that samples the classes of the
  page when no element was found, and the clock reading for \<open>timestamp\<close>. The wait for
  \<open>.className\<close> has a \<open>try\<close> of its own whose \<open>catch\<close> only logs, so its outcome changes
  nothing and it has no field.
\<close>

record class_tab =
  ct_setUserAgent :: "string option"
  ct_evaluateOnNewDocument :: "string option"
  ct_goto :: "string \<Rightarrow> int \<Rightarrow> string option"
  ct_scrollToBottom :: "string option"
  ct_elements :: "string \<Rightarrow> string + dom_element list"
  ct_sampleClasses :: "string option"
  ct_toISOString :: string

text \<open>The result object \<open>{ url, className, timestamp, count, elements }\<close>.\<close>

record class_result =
  cr_url :: string
  cr_className :: string
  cr_timestamp :: string
  cr_count :: nat
  cr_elements :: "scraped_element list"

record class_world =
  cls_launch :: "bool \<Rightarrow> string + nat"
  cls_newPage :: "nat \<Rightarrow> string + class_tab"
  cls_closeBrowser :: "nat \<Rightarrow> string option"
  cls_writeFile :: "string \<Rightarrow> class_result \<Rightarrow> string option"

text \<open>
  The \<open>try\<close> block of \<open>crawlByClass\<close> after the launch. \<open>Inl m\<close>: an error was thrown;
  \<open>Inr None\<close>: no element was found and the function returned without writing;
  \<open>Inr (Some (f, r))\<close>: the result \<open>r\<close> was written to file \<open>f\<close>.
\<close>

definition crawlByClassBody ::
  "class_world \<Rightarrow> nat \<Rightarrow> string \<Rightarrow> string \<Rightarrow> string
     \<Rightarrow> string + (string \<times> class_result) option" where
  "crawlByClassBody w browser u className outputFile =
     (case cls_newPage w browser of
        Inl err \<Rightarrow> Inl err
      | Inr page \<Rightarrow>
     (case ct_setUserAgent page of
        Some err \<Rightarrow> Inl err
      | None \<Rightarrow>
     (case ct_evaluateOnNewDocument page of
        Some err \<Rightarrow> Inl err
      | None \<Rightarrow>
     (case ct_goto page u 30000 of
        Some err \<Rightarrow> Inl err
      | None \<Rightarrow>
     (case ct_scrollToBottom page of
        Some err \<Rightarrow> Inl err
      | None \<Rightarrow>
     (case ct_elements page className of
        Inl err \<Rightarrow> Inl err
      | Inr elements \<Rightarrow>
          (let data = scrapeElements elements in
           if length data = 0 then
             (case ct_sampleClasses page of
                Some err \<Rightarrow> Inl err
              | None \<Rightarrow> Inr None)
           else
             (case cls_writeFile w outputFile
                     \<lparr>cr_url = u, cr_className = className,
                      cr_timestamp = ct_toISOString page, cr_count = length data,
                      cr_elements = data\<rparr> of
                Some err \<Rightarrow> Inl err
              | None \<Rightarrow>
                  Inr (Some (outputFile,
                    \<lparr>cr_url = u, cr_className = className,
                     cr_timestamp = ct_toISOString page, cr_count = length data,
                     cr_elements = data\<rparr>))))))))))"

text \<open>
  A run of \<open>crawlByClass\<close>, with the same three observations as a run of
  \<open>crawlPriceHistory\<close>.
\<close>

record class_run =
  cls_thrown :: "string option"
  cls_written :: "(string \<times> class_result) option"
  cls_closed :: "nat list"

text \<open>
  \<open>crawlByClass(url, className, outputFile, headless)\<close> with the log of its launch
  calls; the \<open>try\<close>, \<open>catch\<close> and \<open>finally\<close> are those of \<open>crawlPriceHistory\<close>. It has no loop
  and always returns.
\<close>

definition crawlByClassLogged ::
  "class_world \<Rightarrow> string \<Rightarrow> string \<Rightarrow> string \<Rightarrow> bool \<Rightarrow> bool list \<times> class_run" where
  "crawlByClassLogged w u className outputFile headlessFlag =
     (case puppeteerLaunch (cls_launch w) headlessFlag of
        (calls, Inl err) \<Rightarrow>
          (calls, \<lparr>cls_thrown = Some err, cls_written = None, cls_closed = []\<rparr>)
      | (calls, Inr browser) \<Rightarrow>
          (calls,
           \<lparr>cls_thrown =
              (case cls_closeBrowser w browser of
                 Some err \<Rightarrow> Some err
               | None \<Rightarrow>
                   (case crawlByClassBody w browser u className outputFile of
                      Inl err \<Rightarrow> Some err
                    | Inr _ \<Rightarrow> None)),
            cls_written =
              (case crawlByClassBody w browser u className outputFile of
                 Inl err \<Rightarrow> None
               | Inr f \<Rightarrow> f),
            cls_closed = [browser]\<rparr>))"

definition crawlByClass :: "class_world \<Rightarrow> string \<Rightarrow> string \<Rightarrow> string \<Rightarrow> bool \<Rightarrow> class_run" where
  "crawlByClass w u className outputFile headlessFlag =
     snd (crawlByClassLogged w u className outputFile headlessFlag)"

section \<open>The two commands\<close>

text \<open>
  The two commands declare \<open>.option("--headless <mode>", ..., "false")\<close>: the option value
  is the string given on the command line, or the default \<open>"false"\<close> when the option is
  not given. Both actions compute
  \<open>options.headless === "false" ? false : true\<close> and pass it on as the headless flag.
\<close>

definition optionValue :: "string option \<Rightarrow> string \<Rightarrow> string" where
  "optionValue given dflt = (case given of None \<Rightarrow> dflt | Some v \<Rightarrow> v)"

definition priceHistoryHeadlessMode :: "string option \<Rightarrow> bool" where
  "priceHistoryHeadlessMode given =
     (if optionValue given ''false'' = ''false'' then False else True)"

definition crawlHeadlessMode :: "string option \<Rightarrow> bool" where
  "crawlHeadlessMode given =
     (if optionValue given ''false'' = ''false'' then False else True)"

text \<open>
  What running a command leaves behind: the log of the launch calls, the run of the
  crawl (\<open>None\<close> when it never returns), and the exit code the action sets:
  its \<open>catch\<close> calls \<open>process.exit(1)\<close> when the crawl throws, and otherwise the action
  returns without setting one.
\<close>

record 'r command_run =
  launchCalls :: "bool list"
  crawlRun :: "'r option"
  exitCode :: "nat option"

text \<open>
  The action of the \<open>price-history\<close> command: call \<open>crawlPriceHistory\<close> with the URL, the
  output file (default \<open>price-history.json\<close>) and the headless flag.
\<close>

definition priceHistoryCommand ::
  "cli_world \<Rightarrow> string \<Rightarrow> string option \<Rightarrow> string option \<Rightarrow> cli_run command_run" where
  "priceHistoryCommand w u outputGiven headlessGiven =
     (case crawlPriceHistoryLogged w u (optionValue outputGiven ''price-history.json'')
             (priceHistoryHeadlessMode headlessGiven) of
        (calls, run) \<Rightarrow>
          \<lparr>launchCalls = calls, crawlRun = run,
           exitCode =
             (case run of
                None \<Rightarrow> None
              | Some r \<Rightarrow> (case cli_thrown r of None \<Rightarrow> None | Some err \<Rightarrow> Some 1))\<rparr>)"

text \<open>
  The action of the \<open>crawl\<close> command: call \<open>crawlByClass\<close> with the URL, the class name,
  the output file (default \<open>output.json\<close>) and the headless flag.
\<close>

definition crawlCommand ::
  "class_world \<Rightarrow> string \<Rightarrow> string \<Rightarrow> string option \<Rightarrow> string option \<Rightarrow> class_run command_run" where
  "crawlCommand w u className outputGiven headlessGiven =
     (case crawlByClassLogged w u className (optionValue outputGiven ''output.json'')
             (crawlHeadlessMode headlessGiven) of
        (calls, run) \<Rightarrow>
          \<lparr>launchCalls = calls, crawlRun = Some run,
           exitCode = (case cls_thrown run of None \<Rightarrow> None | Some err \<Rightarrow> Some 1)\<rparr>)"

section \<open>Describing a site\<close>

text \<open>
  The predicates below describe what a table state answers; they are used to state the
  properties of the loop, not by the program.
\<close>

text \<open>The three page scripts of a turn (expand, extract, next-button status) return.\<close>

definition scriptsReturn :: "page_view \<Rightarrow> bool" where
  "scriptsReturn v \<longleftrightarrow> expandRows v = None \<and> \<not> isl (tableRows v) \<and> \<not> isl (nextButton v)"

text \<open>The rows the extraction script finds (none if the script throws).\<close>

definition rowsOf :: "page_view \<Rightarrow> row list" where
  "rowsOf v = (case tableRows v of Inl err \<Rightarrow> [] | Inr rows \<Rightarrow> rows)"

text \<open>The next control is absent, or its enclosing \<open>li\<close> carries the class \<open>disabled\<close>.\<close>

definition nextAbsentOrDisabled :: "page_view \<Rightarrow> bool" where
  "nextAbsentOrDisabled v \<longleftrightarrow>
     (case nextButton v of
        Inl err \<Rightarrow> False
      | Inr None \<Rightarrow> True
      | Inr (Some b) \<Rightarrow>
          (case closest_li b of None \<Rightarrow> False | Some classList \<Rightarrow> ''disabled'' \<in> set classList))"

text \<open>
  A turn that moves on to the next page: the scripts return, the next control is there
  and not disabled, and the click on it succeeds. A turn that ends the pagination: the
  scripts return and the next control is absent or disabled.
\<close>

definition turnAdvances :: "page_view \<Rightarrow> bool" where
  "turnAdvances v \<longleftrightarrow> scriptsReturn v \<and> \<not> nextAbsentOrDisabled v \<and> clickNext v = None"

definition turnEnds :: "page_view \<Rightarrow> bool" where
  "turnEnds v \<longleftrightarrow> scriptsReturn v \<and> nextAbsentOrDisabled v"

text \<open>
  The records of the \<open>n\<close> table states from page \<open>k\<close> on, page after page, and the
  progress events that report them.
\<close>

definition pagesData :: "tab \<Rightarrow> nat \<Rightarrow> nat \<Rightarrow> transaction list" where
  "pagesData page k n = concat (map (\<lambda>j. extractPage (rowsOf (view page j))) [k..<k + n])"

definition pagesEvents :: "tab \<Rightarrow> nat \<Rightarrow> nat \<Rightarrow> string \<Rightarrow> nat \<Rightarrow> nat \<Rightarrow> progress_event list" where
  "pagesEvents page idx tot u k n =
     map (\<lambda>j. scrapedEvent idx tot u j (length (extractPage (rowsOf (view page j))))) [k..<k + n]"

text \<open>
  The tab gets as far as the table: the set-up calls, the navigation and the scroll
  return (\<open>pageLoads\<close>), then the table root appears and the filter script returns
  (\<open>tableFound\<close>).
\<close>

definition pageLoads :: "tab \<Rightarrow> string \<Rightarrow> int \<Rightarrow> bool" where
  "pageLoads page u tmo \<longleftrightarrow>
     setUserAgent page = None \<and> evaluateOnNewDocument page = None \<and> goto page u tmo = None
       \<and> scrollToBottom page = None"

definition tableFound :: "tab \<Rightarrow> bool" where
  "tableFound page \<longleftrightarrow> waitForTableRoot page = None \<and> removeFilters page = None"

text \<open>The three events every crawl emits before the loop, and the closing one.\<close>

definition openingEvents :: "nat \<Rightarrow> nat \<Rightarrow> string \<Rightarrow> progress_event list" where
  "openingEvents idx tot u =
     [progress idx tot Starting u ''Navigating to page...'' None,
      progress idx tot Loading u ''Waiting for content...'' None,
      progress idx tot Scraping u ''Extracting data...'' None]"

definition completedEvent :: "nat \<Rightarrow> nat \<Rightarrow> string \<Rightarrow> nat \<Rightarrow> progress_event" where
  "completedEvent idx tot u n =
     progress idx tot Completed u (''Completed: '' @ show_nat n @ '' transactions'') None"

text \<open>Every launch that \<open>initBrowsers\<close> makes for this crawler succeeds.\<close>

definition launchesSucceed :: "world \<Rightarrow> crawler \<Rightarrow> bool" where
  "launchesSucceed w c \<longleftrightarrow>
     (\<forall>i. int i < concurrency c \<longrightarrow> \<not> isl (launch w i (launchOptionsFor w c)))"

text \<open>The handle given out by the \<open>i\<close>-th launch.\<close>

definition launched :: "world \<Rightarrow> crawler \<Rightarrow> nat \<Rightarrow> nat" where
  "launched w c i = projr (launch w i (launchOptionsFor w c))"


section \<open>Concrete scenarios\<close>

text \<open>A row whose expanded panel carries an address with a unit marker.\<close>

definition exampleAddressRow :: row where
  "exampleAddressRow =
     \<lparr>row_date = None, row_bedroom = None, row_price = None, row_floorLevel = None,
      row_completed = None,
      nextElementSibling =
        Some \<lparr>table_row_expanded = True, expanded_lease = None,
              expanded_address = Some \<lparr>expanded_item_value = Some '' #07-12, Example Rd ''\<rparr>\<rparr>\<rparr>"

text \<open>A row without any of the cells, and a registry with one session attached to stream 0.\<close>

definition emptyRow :: row where
  "emptyRow =
     \<lparr>row_date = None, row_bedroom = None, row_price = None, row_floorLevel = None,
      row_completed = None, nextElementSibling = None\<rparr>"

definition emptyServer :: server where
  "emptyServer = \<lparr>activeCrawls = Map.empty, streams = (\<lambda>r. [])\<rparr>"

definition exampleSession :: session where
  "exampleSession = \<lparr>res = Some 0, startTime = 1700000000000\<rparr>"

definition exampleEvent :: progress_event where
  "exampleEvent = progress 0 1 Starting ''https://example.com/listing'' ''Navigating to page...'' None"

text \<open>
  Table states: \<open>openView n\<close> shows \<open>n\<close> rows and an enabled next button whose click
  succeeds, \<open>lastView n\<close> shows \<open>n\<close> rows and a next button inside a disabled \<open>li\<close>.
\<close>

definition plainRow :: row where
  "plainRow =
     \<lparr>row_date = Some \<lparr>field_value = Some ''Sept 2025''\<rparr>,
      row_bedroom = None,
      row_price = Some \<lparr>main_text = Some ''S$ 4.05M'', sub_text = Some ''S$ 2368 psf''\<rparr>,
      row_floorLevel = None, row_completed = None, nextElementSibling = None\<rparr>"

definition openView :: "nat \<Rightarrow> page_view" where
  "openView n =
     \<lparr>waitForRows = None, expandRows = None, tableRows = Inr (replicate n plainRow),
      nextButton = Inr (Some \<lparr>closest_li = Some [''page-item'']\<rparr>),
      clickNext = None, waitForNetworkIdle = None\<rparr>"

definition lastView :: "nat \<Rightarrow> page_view" where
  "lastView n =
     \<lparr>waitForRows = None, expandRows = None, tableRows = Inr (replicate n plainRow),
      nextButton = Inr (Some \<lparr>closest_li = Some [''page-item'', ''disabled'']\<rparr>),
      clickNext = None, waitForNetworkIdle = None\<rparr>"

text \<open>A tab on which every call returns, showing the given table states.\<close>

definition tabShowing :: "(nat \<Rightarrow> page_view) \<Rightarrow> tab" where
  "tabShowing views =
     \<lparr>setUserAgent = None, evaluateOnNewDocument = None, goto = (\<lambda>u tmo. None),
      scrollToBottom = None, waitForTableRoot = None, removeFilters = None,
      view = views, toISOString = ''2026-01-01T00:00:00.000Z'', closePage = None\<rparr>"

text \<open>
  Three pages of 10, 10 and 4 rows with the next button disabled on the third; a table
  whose next button never gets disabled; a table whose next button cannot be clicked; a
  table whose network does not go idle after the first click and whose rows do not come
  back; a page without the table; a page that cannot be reached.
\<close>

definition threePageTab :: tab where
  "threePageTab = tabShowing (\<lambda>k. if k < 3 then openView 10 else lastView 4)"

definition endlessTab :: tab where
  "endlessTab = tabShowing (\<lambda>k. openView 10)"

definition clickFailsTab :: tab where
  "clickFailsTab = tabShowing (\<lambda>k. (openView 10)\<lparr>clickNext := Some ''Node is detached from document''\<rparr>)"

definition rowsVanishTab :: tab where
  "rowsVanishTab =
     tabShowing (\<lambda>k. if k < 2 then (openView 10)\<lparr>waitForNetworkIdle := Some ''Timeout exceeded''\<rparr>
                     else (openView 10)\<lparr>waitForRows := Some ''Waiting failed: 5000ms exceeded''\<rparr>)"

definition noTableTab :: tab where
  "noTableTab = (tabShowing (\<lambda>k. lastView 0))\<lparr>waitForTableRoot := Some ''Waiting failed: 10000ms exceeded''\<rparr>"

definition unreachableTab :: tab where
  "unreachableTab = (tabShowing (\<lambda>k. lastView 0))\<lparr>goto := (\<lambda>u tmo. Some ''net::ERR_NAME_NOT_RESOLVED'')\<rparr>"

text \<open>
  A world in which every launch succeeds (the \<open>i\<close>-th launch gives browser \<open>i\<close>), every
  browser closes, and the tab opened for the URL at index \<open>i\<close> is \<open>tabs i\<close>; and a
  command-line world with one browser, the given tab and a disk that takes every file.
\<close>

definition worldWith :: "(nat \<Rightarrow> tab) \<Rightarrow> world" where
  "worldWith tabs =
     \<lparr>production = False, launch = (\<lambda>i opts. Inr i), newPage = (\<lambda>b i. Inr (tabs i)),
      closeBrowser = (\<lambda>b. None)\<rparr>"

definition cliWorldWith :: "tab \<Rightarrow> cli_world" where
  "cliWorldWith page =
     \<lparr>cli_launch = (\<lambda>hl. Inr 0), cli_newPage = (\<lambda>b. Inr page), cli_closeBrowser = (\<lambda>b. None),
      writeFile = (\<lambda>f r. None)\<rparr>"

text \<open>A crawler with one browser, as \<open>initBrowsers\<close> leaves it for concurrency 1.\<close>

definition oneBrowserCrawler :: crawler where
  "oneBrowserCrawler = \<lparr>concurrency = 1, headless = True, timeout = 30000, browsers = [0]\<rparr>"

text \<open>The worlds of the scenarios: one URL, crawled in the tab named.\<close>

definition noTableWorld :: world where
  "noTableWorld = worldWith (\<lambda>i. noTableTab)"

definition noTableCliWorld :: cli_world where
  "noTableCliWorld = cliWorldWith noTableTab"

text \<open>
  A batch of three URLs (the second written with blanks around it), over a site of one
  page with one row; the second URL cannot be reached.
\<close>

definition onePageTab :: tab where
  "onePageTab = tabShowing (\<lambda>k. lastView 1)"

definition threeUrls :: "string list" where
  "threeUrls = [''https://example.com/a'', '' https://example.com/b '', ''https://example.com/c'']"

definition secondUnreachableWorld :: world where
  "secondUnreachableWorld = worldWith (\<lambda>i. if i = 1 then unreachableTab else onePageTab)"

definition onePageWorld :: world where
  "onePageWorld = worldWith (\<lambda>i. onePageTab)"

text \<open>The same site on a machine where the third launch of a browser fails.\<close>

definition thirdLaunchFailsWorld :: world where
  "thirdLaunchFailsWorld =
     onePageWorld\<lparr>launch :=
       (\<lambda>i opts. if i = 2 then Inl ''Failed to launch the browser process!'' else Inr i)\<rparr>"

text \<open>Option bags: none of the keys, and a concurrency of 2, of 0 and of -1.\<close>

definition noOptions :: crawl_options where
  "noOptions = \<lparr>opt_concurrency = None, opt_headless = None, opt_timeout = None\<rparr>"

definition twoBrowsers :: crawl_options where
  "twoBrowsers = \<lparr>opt_concurrency = Some 2, opt_headless = None, opt_timeout = None\<rparr>"

definition zeroBrowsers :: crawl_options where
  "zeroBrowsers = \<lparr>opt_concurrency = Some 0, opt_headless = None, opt_timeout = None\<rparr>"

definition minusOneBrowsers :: crawl_options where
  "minusOneBrowsers = \<lparr>opt_concurrency = Some (- 1), opt_headless = None, opt_timeout = None\<rparr>"

text \<open>The batch of three URLs over a site whose second URL paginates for ever.\<close>

definition secondEndlessWorld :: world where
  "secondEndlessWorld = worldWith (\<lambda>i. if i = 1 then endlessTab else onePageTab)"

text \<open>
  A machine without a display: a browser with a window cannot be started there, a
  headless one can. The price-history tool then meets a page without the table; the
  class crawl meets a page with one heading of class \<open>title\<close>.
\<close>

definition noDisplayCliWorld :: cli_world where
  "noDisplayCliWorld =
     \<lparr>cli_launch = (\<lambda>hl. if hl then Inr 0 else Inl ''Missing X server''),
      cli_newPage = (\<lambda>b. Inr noTableTab), cli_closeBrowser = (\<lambda>b. None),
      writeFile = (\<lambda>f r. None)\<rparr>"

definition headingElement :: dom_element where
  "headingElement =
     \<lparr>innerText = Some ''Price history'', textContent = ''Price history'',
      innerHTML = ''Price history'', tagName = ''H2'',
      attributes = [(''class'', ''title'')]\<rparr>"

definition headingTab :: class_tab where
  "headingTab =
     \<lparr>ct_setUserAgent = None, ct_evaluateOnNewDocument = None, ct_goto = (\<lambda>u t. None),
      ct_scrollToBottom = None,
      ct_elements = (\<lambda>cls. if cls = ''title'' then Inr [headingElement] else Inr []),
      ct_sampleClasses = None, ct_toISOString = ''2024-01-01T00:00:00.000Z''\<rparr>"

definition noDisplayClassWorld :: class_world where
  "noDisplayClassWorld =
     \<lparr>cls_launch = (\<lambda>hl. if hl then Inr 0 else Inl ''Missing X server''),
      cls_newPage = (\<lambda>b. Inr headingTab), cls_closeBrowser = (\<lambda>b. None),
      cls_writeFile = (\<lambda>f r. None)\<rparr>"

section \<open>The floor pattern\<close>

lemma floorMatch_ex1: "floorMatch ''#07-12, Example Rd'' = Some ''07''"
  by (simp add: isDigit_def)

lemma floorMatch_ex4: "floorMatch ''Blk 5 #7-12'' = Some ''7''"
  by (simp add: isDigit_def)

lemma floorMatch_ex2: "floorMatch ''Example Rd only'' = None"
  by (simp add: isDigit_def)

lemma floorMatch_ex3: "floorMatch ''#03-xx'' = Some ''03''"
  by (simp add: isDigit_def)

lemma not_digit_hash: "\<not> isDigit CHR ''#''" "\<not> isDigit CHR ''-''"
  by (simp_all add: isDigit_def)

lemma takeWhile_digits:
  "\<forall>c\<in>set d. isDigit c \<Longrightarrow> takeWhile isDigit (d @ CHR ''-'' # post) = d"
  by (induction d) (auto simp: not_digit_hash)

lemma dropWhile_digits:
  "\<forall>c\<in>set d. isDigit c \<Longrightarrow> dropWhile isDigit (d @ CHR ''-'' # post) = CHR ''-'' # post"
  by (induction d) (auto simp: not_digit_hash)

lemma floorMatch_here:
  "d \<noteq> [] \<Longrightarrow> \<forall>c\<in>set d. isDigit c \<Longrightarrow> floorMatch (CHR ''#'' # d @ CHR ''-'' # post) = Some d"
  using takeWhile_digits[of d post] dropWhile_digits[of d post] by simp

lemma floorMatch_append_not_None:
  "d \<noteq> [] \<Longrightarrow> \<forall>c\<in>set d. isDigit c \<Longrightarrow> floorMatch (pre @ CHR ''#'' # d @ CHR ''-'' # post) \<noteq> None"
proof (induction pre)
  case Nil
  then show ?case using floorMatch_here by simp
next
  case (Cons a pre)
  then show ?case by (simp del: floorMatch.simps add: floorMatch.simps(2)[of a])
qed

lemma floorMatch_Some_decomp:
  "floorMatch a = Some d \<Longrightarrow>
     \<exists>pre post. a = pre @ CHR ''#'' # d @ CHR ''-'' # post \<and> d \<noteq> [] \<and> (\<forall>c\<in>set d. isDigit c)
        \<and> floorMatch pre = None"
proof (induction a)
  case Nil
  then show ?case by simp
next
  case (Cons c s)
  show ?case
  proof (cases "c = CHR ''#'' \<and> takeWhile isDigit s \<noteq> []
         \<and> dropWhile isDigit s \<noteq> [] \<and> hd (dropWhile isDigit s) = CHR ''-''")
    case True
    then have d: "d = takeWhile isDigit s" using Cons.prems by simp
    from True obtain post where post: "dropWhile isDigit s = CHR ''-'' # post"
      by (cases "dropWhile isDigit s") auto
    have "s = d @ CHR ''-'' # post"
      using takeWhile_dropWhile_id[of isDigit s] d post by simp
    moreover have "\<forall>c\<in>set d. isDigit c" using d by (auto dest: set_takeWhileD)
    moreover have "d \<noteq> []" using True d by simp
    ultimately show ?thesis using True
      by (intro exI[of _ "[]"] exI[of _ post]) simp
  next
    case False
    note outer = False
    then have "floorMatch s = Some d" using Cons.prems by auto
    from Cons.IH[OF this] obtain pre post where
      s: "s = pre @ CHR ''#'' # d @ CHR ''-'' # post" and d: "d \<noteq> []" "\<forall>c\<in>set d. isDigit c"
      and pre: "floorMatch pre = None" by blast
    have "floorMatch (c # pre) = None"
    proof (cases "c = CHR ''#'' \<and> takeWhile isDigit pre \<noteq> []
         \<and> dropWhile isDigit pre \<noteq> [] \<and> hd (dropWhile isDigit pre) = CHR ''-''")
      case True
      then have ne: "dropWhile isDigit pre \<noteq> []" by simp
      then have "\<not> isDigit (hd (dropWhile isDigit pre))" by (rule hd_dropWhile)
      moreover have "hd (dropWhile isDigit pre) \<in> set pre"
        using ne by (meson hd_in_set set_dropWhileD)
      ultimately obtain x where x: "x \<in> set pre" "\<not> isDigit x" by blast
      have "takeWhile isDigit s = takeWhile isDigit pre"
        unfolding s using x by (rule takeWhile_append1)
      moreover have "dropWhile isDigit s = dropWhile isDigit pre @ CHR ''#'' # d @ CHR ''-'' # post"
        unfolding s using x by (rule dropWhile_append1)
      ultimately have "c = CHR ''#'' \<and> takeWhile isDigit s \<noteq> []
         \<and> dropWhile isDigit s \<noteq> [] \<and> hd (dropWhile isDigit s) = CHR ''-''"
        using True ne by simp
      with outer show ?thesis by blast
    next
      case False
      then show ?thesis using pre by auto
    qed
    then show ?thesis using s d
      by (intro exI[of _ "c # pre"] exI[of _ post]) simp
  qed
qed

lemma extractDate_frame:
  "bedrooms (extractDate r t) = bedrooms t" "size_field (extractDate r t) = size_field t"
  "price (extractDate r t) = price t" "pricePerSqft (extractDate r t) = pricePerSqft t"
  "floorLevel (extractDate r t) = floorLevel t" "buildStatus (extractDate r t) = buildStatus t"
  "lease (extractDate r t) = lease t" "address (extractDate r t) = address t"
  "floor_field (extractDate r t) = floor_field t"
  by (simp_all add: extractDate_def split: option.splits)

lemma extractBedroom_frame:
  "date (extractBedroom r t) = date t"
  "price (extractBedroom r t) = price t" "pricePerSqft (extractBedroom r t) = pricePerSqft t"
  "floorLevel (extractBedroom r t) = floorLevel t"
  "buildStatus (extractBedroom r t) = buildStatus t"
  "lease (extractBedroom r t) = lease t" "address (extractBedroom r t) = address t"
  "floor_field (extractBedroom r t) = floor_field t"
  by (simp_all add: extractBedroom_def split: option.splits)

lemma extractPrice_frame:
  "date (extractPrice r t) = date t"
  "bedrooms (extractPrice r t) = bedrooms t" "size_field (extractPrice r t) = size_field t"
  "floorLevel (extractPrice r t) = floorLevel t"
  "buildStatus (extractPrice r t) = buildStatus t"
  "lease (extractPrice r t) = lease t" "address (extractPrice r t) = address t"
  "floor_field (extractPrice r t) = floor_field t"
  by (simp_all add: extractPrice_def split: option.splits)

lemma extractFloorLevel_frame:
  "date (extractFloorLevel r t) = date t"
  "bedrooms (extractFloorLevel r t) = bedrooms t"
  "size_field (extractFloorLevel r t) = size_field t"
  "price (extractFloorLevel r t) = price t"
  "pricePerSqft (extractFloorLevel r t) = pricePerSqft t"
  "buildStatus (extractFloorLevel r t) = buildStatus t"
  "lease (extractFloorLevel r t) = lease t" "address (extractFloorLevel r t) = address t"
  "floor_field (extractFloorLevel r t) = floor_field t"
  by (simp_all add: extractFloorLevel_def split: option.splits)

lemma extractBuildStatus_frame:
  "date (extractBuildStatus r t) = date t"
  "bedrooms (extractBuildStatus r t) = bedrooms t"
  "size_field (extractBuildStatus r t) = size_field t"
  "price (extractBuildStatus r t) = price t"
  "pricePerSqft (extractBuildStatus r t) = pricePerSqft t"
  "floorLevel (extractBuildStatus r t) = floorLevel t"
  "lease (extractBuildStatus r t) = lease t" "address (extractBuildStatus r t) = address t"
  "floor_field (extractBuildStatus r t) = floor_field t"
  by (simp_all add: extractBuildStatus_def split: option.splits)

lemma extractLease_frame:
  "date (extractLease e t) = date t"
  "bedrooms (extractLease e t) = bedrooms t" "size_field (extractLease e t) = size_field t"
  "price (extractLease e t) = price t" "pricePerSqft (extractLease e t) = pricePerSqft t"
  "floorLevel (extractLease e t) = floorLevel t" "buildStatus (extractLease e t) = buildStatus t"
  "address (extractLease e t) = address t" "floor_field (extractLease e t) = floor_field t"
  by (simp_all add: extractLease_def split: option.splits)

lemma extractAddress_frame:
  "date (extractAddress e t) = date t"
  "bedrooms (extractAddress e t) = bedrooms t" "size_field (extractAddress e t) = size_field t"
  "price (extractAddress e t) = price t" "pricePerSqft (extractAddress e t) = pricePerSqft t"
  "floorLevel (extractAddress e t) = floorLevel t"
  "buildStatus (extractAddress e t) = buildStatus t"
  "lease (extractAddress e t) = lease t"
  by (simp_all add: extractAddress_def Let_def split: option.splits)

lemma extractExpanded_frame:
  "date (extractExpanded r t) = date t"
  "bedrooms (extractExpanded r t) = bedrooms t" "size_field (extractExpanded r t) = size_field t"
  "price (extractExpanded r t) = price t" "pricePerSqft (extractExpanded r t) = pricePerSqft t"
  "floorLevel (extractExpanded r t) = floorLevel t"
  "buildStatus (extractExpanded r t) = buildStatus t"
  by (simp_all add: extractExpanded_def extractAddress_frame extractLease_frame
        split: option.splits)

lemmas extract_frame =
  extractDate_frame extractBedroom_frame extractPrice_frame extractFloorLevel_frame
  extractBuildStatus_frame extractLease_frame extractAddress_frame extractExpanded_frame

text \<open>The basic cells before the expanded block leave address and floor unset.\<close>

lemma basic_cells_no_address:
  "address (extractBuildStatus r (extractFloorLevel r (extractPrice r
      (extractBedroom r (extractDate r empty_transaction))))) = None"
  "floor_field (extractBuildStatus r (extractFloorLevel r (extractPrice r
      (extractBedroom r (extractDate r empty_transaction))))) = None"
  "lease (extractBuildStatus r (extractFloorLevel r (extractPrice r
      (extractBedroom r (extractDate r empty_transaction))))) = None"
  by (simp_all add: extract_frame empty_transaction_def)

lemma extractAddress_floor:
  "floor_field t = None \<Longrightarrow> address t = None \<Longrightarrow>
   floor_field (extractAddress e t) =
     (case address (extractAddress e t) of None \<Rightarrow> None | Some a \<Rightarrow> floorMatch a)"
  by (simp add: extractAddress_def Let_def split: option.splits)

lemma extractExpanded_floor:
  "floor_field t = None \<Longrightarrow> address t = None \<Longrightarrow>
   floor_field (extractExpanded r t) =
     (case address (extractExpanded r t) of None \<Rightarrow> None | Some a \<Rightarrow> floorMatch a)"
  by (simp add: extractExpanded_def extractAddress_floor extractLease_frame
        split: option.splits)

lemma floor_field_extractRow:
  "floor_field (extractRow r) =
     (case address (extractRow r) of None \<Rightarrow> None | Some a \<Rightarrow> floorMatch a)"
  unfolding extractRow_def by (rule extractExpanded_floor) (rule basic_cells_no_address)+

text \<open>
  Claim C7. The floor of a transaction is the first capture group of \<open>/#(\d+)-/\<close> on
  its address, and absent when there is no address: so a floor is present only if an
  address is. A match is a \<open>#\<close>, a non-empty run of digits and a hyphen; the floor is that
  run of digits exactly as written, of the leftmost match (no match lies in the text
  before it). There is no match exactly when the address has no such part. The address
  \<open>#07-12, Example Rd\<close> gives \<open>07\<close>, the fragment \<open>#03-xx\<close> gives \<open>03\<close> with its leading
  zero, \<open>Example Rd only\<close> gives no floor, and one digit is enough for a match
  (\<open>Blk 5 #7-12\<close> gives \<open>7\<close>).
\<close>

theorem floor_from_address:
  "floor_field (extractRow r) =
     (case address (extractRow r) of None \<Rightarrow> None | Some a \<Rightarrow> floorMatch a)
   \<and> (floorMatch a = Some d \<longrightarrow>
        (\<exists>pre post. a = pre @ ''#'' @ d @ ''-'' @ post \<and> d \<noteq> [] \<and> (\<forall>c\<in>set d. isDigit c)
           \<and> floorMatch pre = None))
   \<and> (floorMatch a = None \<longleftrightarrow>
        \<not> (\<exists>pre g post. a = pre @ ''#'' @ g @ ''-'' @ post \<and> g \<noteq> [] \<and> (\<forall>c\<in>set g. isDigit c)))
   \<and> floorMatch ''#07-12, Example Rd'' = Some ''07''
   \<and> floorMatch ''#03-xx'' = Some ''03''
   \<and> floorMatch ''Example Rd only'' = None
   \<and> floorMatch ''Blk 5 #7-12'' = Some ''7''"
proof -
  have dec: "floorMatch a = Some d \<longrightarrow>
        (\<exists>pre post. a = pre @ ''#'' @ d @ ''-'' @ post \<and> d \<noteq> [] \<and> (\<forall>c\<in>set d. isDigit c)
           \<and> floorMatch pre = None)"
    using floorMatch_Some_decomp[of a d] by simp
  have none: "floorMatch a = None \<longleftrightarrow>
        \<not> (\<exists>pre g post. a = pre @ ''#'' @ g @ ''-'' @ post \<and> g \<noteq> [] \<and> (\<forall>c\<in>set g. isDigit c))"
  proof
    assume n: "floorMatch a = None"
    show "\<not> (\<exists>pre g post. a = pre @ ''#'' @ g @ ''-'' @ post \<and> g \<noteq> [] \<and> (\<forall>c\<in>set g. isDigit c))"
    proof
      assume "\<exists>pre g post. a = pre @ ''#'' @ g @ ''-'' @ post \<and> g \<noteq> [] \<and> (\<forall>c\<in>set g. isDigit c)"
      then obtain pre g post where "a = pre @ CHR ''#'' # g @ CHR ''-'' # post" "g \<noteq> []"
        "\<forall>c\<in>set g. isDigit c" by auto
      then show False using floorMatch_append_not_None[of g pre post] n by simp
    qed
  next
    assume h: "\<not> (\<exists>pre g post. a = pre @ ''#'' @ g @ ''-'' @ post \<and> g \<noteq> [] \<and> (\<forall>c\<in>set g. isDigit c))"
    show "floorMatch a = None"
    proof (cases "floorMatch a")
      case None
      then show ?thesis .
    next
      case (Some g)
      from floorMatch_Some_decomp[OF this] h show ?thesis by auto
    qed
  qed
  show ?thesis
    apply (intro conjI)
         apply (rule floor_field_extractRow)
        apply (rule dec)
       apply (rule none)
      apply (rule floorMatch_ex1)
     apply (rule floorMatch_ex3)
     apply (rule floorMatch_ex2)
    apply (rule floorMatch_ex4)
    done
qed

lemma trim_ex: "trim '' #07-12, Example Rd '' = ''#07-12, Example Rd''"
  by (simp add: trim_def isWhiteSpace_def)

text \<open>
  The claim at a row whose address cell reads \<open>#07-12, Example Rd\<close> between blanks.
\<close>

theorem floor_from_address_witness:
  "address (extractRow exampleAddressRow) = Some ''#07-12, Example Rd''
   \<and> floor_field (extractRow exampleAddressRow) = Some ''07''
   \<and> floorMatch ''#07-12, Example Rd'' = Some ''07''
   \<and> (\<exists>pre post. ''#07-12, Example Rd'' = pre @ ''#'' @ ''07'' @ ''-'' @ post
         \<and> floorMatch pre = None)"
proof -
  have a: "address (extractRow exampleAddressRow) = Some ''#07-12, Example Rd''"
    by (simp add: exampleAddressRow_def extractRow_def extractExpanded_def extractAddress_def
          extractLease_frame trimmedText_def Let_def trim_ex)
  have m: "floorMatch ''#07-12, Example Rd'' = Some ''07''"
    by (simp add: isDigit_def)
  from floor_from_address[of exampleAddressRow "''#07-12, Example Rd''" "''07''"] m
  have f: "floor_field (extractRow exampleAddressRow) =
          (case address (extractRow exampleAddressRow) of None \<Rightarrow> None | Some a \<Rightarrow> floorMatch a)"
    and e: "\<exists>pre post. ''#07-12, Example Rd'' = pre @ ''#'' @ ''07'' @ ''-'' @ post \<and> ''07'' \<noteq> []
               \<and> (\<forall>c\<in>set ''07''. isDigit c) \<and> floorMatch pre = None"
    by blast+
  from e obtain pre post where "''#07-12, Example Rd'' = pre @ ''#'' @ ''07'' @ ''-'' @ post"
    "floorMatch pre = None" by blast
  then have e': "\<exists>pre post. ''#07-12, Example Rd'' = pre @ ''#'' @ ''07'' @ ''-'' @ post
         \<and> floorMatch pre = None" by blast
  from f a m have "floor_field (extractRow exampleAddressRow) = Some ''07''"
    by (simp del: floorMatch.simps)
  with a m e' show ?thesis by blast
qed

section \<open>Missing cells\<close>

lemma extractRow_date_absent: "row_date r = None \<Longrightarrow> date (extractRow r) = None"
  by (simp add: extractRow_def extract_frame extractDate_def empty_transaction_def)

lemma extractRow_bedroom_absent:
  "row_bedroom r = None \<Longrightarrow> bedrooms (extractRow r) = None \<and> size_field (extractRow r) = None"
  by (simp add: extractRow_def extract_frame extractBedroom_def empty_transaction_def)

lemma extractRow_price_absent:
  "row_price r = None \<Longrightarrow> price (extractRow r) = None \<and> pricePerSqft (extractRow r) = None"
  by (simp add: extractRow_def extract_frame extractPrice_def empty_transaction_def)

lemma extractRow_floorLevel_absent:
  "row_floorLevel r = None \<Longrightarrow> floorLevel (extractRow r) = None"
  by (simp add: extractRow_def extract_frame extractFloorLevel_def empty_transaction_def)

lemma extractRow_completed_absent:
  "row_completed r = None \<Longrightarrow> buildStatus (extractRow r) = None"
  by (simp add: extractRow_def extract_frame extractBuildStatus_def empty_transaction_def)

lemma extractExpanded_lease_absent:
  "\<forall>e. nextElementSibling r = Some e \<and> table_row_expanded e \<longrightarrow> expanded_lease e = None \<Longrightarrow>
   lease (extractExpanded r t) = lease t"
  by (simp add: extractExpanded_def extractAddress_frame extractLease_def split: option.splits)

lemma extractExpanded_address_absent:
  "\<forall>e. nextElementSibling r = Some e \<and> table_row_expanded e \<longrightarrow> expanded_address e = None \<Longrightarrow>
   address (extractExpanded r t) = address t \<and> floor_field (extractExpanded r t) = floor_field t"
  by (simp add: extractExpanded_def extractAddress_def extractLease_frame split: option.splits)

lemma extractRow_lease_absent:
  "\<forall>e. nextElementSibling r = Some e \<and> table_row_expanded e \<longrightarrow> expanded_lease e = None \<Longrightarrow>
   lease (extractRow r) = None"
  unfolding extractRow_def by (simp add: extractExpanded_lease_absent basic_cells_no_address)

lemma extractRow_address_absent:
  "\<forall>e. nextElementSibling r = Some e \<and> table_row_expanded e \<longrightarrow> expanded_address e = None \<Longrightarrow>
   address (extractRow r) = None \<and> floor_field (extractRow r) = None"
  unfolding extractRow_def by (simp add: extractExpanded_address_absent basic_cells_no_address)

text \<open>
  Claim C8. The row extractor is a total function of the row. When the date, bedroom,
  price, floor-level or completed cell is missing from the row, or the lease or address
  item is missing from its expanded panel (there is no next sibling, the sibling is not an
  expanded row, or the panel lacks the item), the fields read from that cell are absent
  from the record: not an empty string, and nothing is thrown. Every row of the page
  yields its record, in order.
\<close>

theorem missing_cell_omits_field:
  "(row_date r = None \<longrightarrow> date (extractRow r) = None)
   \<and> (row_bedroom r = None \<longrightarrow>
        bedrooms (extractRow r) = None \<and> size_field (extractRow r) = None)
   \<and> (row_price r = None \<longrightarrow>
        price (extractRow r) = None \<and> pricePerSqft (extractRow r) = None)
   \<and> (row_floorLevel r = None \<longrightarrow> floorLevel (extractRow r) = None)
   \<and> (row_completed r = None \<longrightarrow> buildStatus (extractRow r) = None)
   \<and> ((\<forall>e. nextElementSibling r = Some e \<and> table_row_expanded e \<longrightarrow> expanded_lease e = None)
        \<longrightarrow> lease (extractRow r) = None)
   \<and> ((\<forall>e. nextElementSibling r = Some e \<and> table_row_expanded e \<longrightarrow> expanded_address e = None)
        \<longrightarrow> address (extractRow r) = None \<and> floor_field (extractRow r) = None)
   \<and> length (extractPage rows) = length rows
   \<and> (\<forall>i<length rows. extractPage rows ! i = extractRow (rows ! i))"
  using extractRow_date_absent[of r] extractRow_bedroom_absent[of r] extractRow_price_absent[of r]
    extractRow_floorLevel_absent[of r] extractRow_completed_absent[of r]
    extractRow_lease_absent[of r] extractRow_address_absent[of r]
  by (simp add: extractPage_def)

text \<open>The claim at a row with no cell at all: its record is the empty object.\<close>

theorem missing_cell_omits_field_witness:
  "row_date emptyRow = None \<and> row_bedroom emptyRow = None \<and> row_price emptyRow = None
   \<and> row_floorLevel emptyRow = None \<and> row_completed emptyRow = None
   \<and> nextElementSibling emptyRow = None
   \<and> extractRow emptyRow = empty_transaction
   \<and> extractPage [emptyRow, emptyRow] = [empty_transaction, empty_transaction]"
proof -
  have h: "row_date emptyRow = None" "row_bedroom emptyRow = None" "row_price emptyRow = None"
    "row_floorLevel emptyRow = None" "row_completed emptyRow = None"
    "nextElementSibling emptyRow = None"
    by (simp_all add: emptyRow_def)
  from missing_cell_omits_field[of emptyRow "[emptyRow, emptyRow]"] h
  have f: "date (extractRow emptyRow) = None" "bedrooms (extractRow emptyRow) = None"
    "size_field (extractRow emptyRow) = None" "price (extractRow emptyRow) = None"
    "pricePerSqft (extractRow emptyRow) = None" "floorLevel (extractRow emptyRow) = None"
    "buildStatus (extractRow emptyRow) = None" "lease (extractRow emptyRow) = None"
    "address (extractRow emptyRow) = None" "floor_field (extractRow emptyRow) = None"
    by simp_all
  have e: "extractRow emptyRow = empty_transaction"
    using f by (cases "extractRow emptyRow") (simp add: empty_transaction_def)
  then have "extractPage [emptyRow, emptyRow] = [empty_transaction, empty_transaction]"
    by (simp add: extractPage_def)
  with h e show ?thesis by simp
qed

section \<open>Emitting without a session\<close>

lemma emitProgress_absent: "activeCrawls sv sessionId = None \<Longrightarrow> emitProgress sv sessionId d = sv"
  by (simp add: emitProgress_def)

lemma emitAll_absent: "activeCrawls sv sessionId = None \<Longrightarrow> emitAll sv sessionId ds = sv"
  unfolding emitAll_def by (induction ds) (simp_all add: emitProgress_absent)

lemma activeCrawls_after_delete: "activeCrawls (activeCrawls_delete sv sessionId) sessionId = None"
  by (simp add: activeCrawls_delete_def)

text \<open>
  Claim C9. When the session is not in the registry, an emit call changes nothing
  (and there is nothing in it that can throw). This holds in particular once the session
  has been deleted: after the deletion, no sequence of emit calls for that session
  writes to any stream.
\<close>

theorem emit_without_session_is_noop:
  "(activeCrawls sv sessionId = None \<longrightarrow> emitProgress sv sessionId d = sv)
   \<and> emitProgress (activeCrawls_delete sv sessionId) sessionId d = activeCrawls_delete sv sessionId
   \<and> emitAll (activeCrawls_delete sv sessionId) sessionId ds = activeCrawls_delete sv sessionId
   \<and> streams (emitAll (activeCrawls_delete sv sessionId) sessionId ds) = streams sv"
proof -
  have "emitAll (activeCrawls_delete sv sessionId) sessionId ds = activeCrawls_delete sv sessionId"
    by (rule emitAll_absent) (rule activeCrawls_after_delete)
  moreover have "streams (activeCrawls_delete sv sessionId) = streams sv"
    by (simp add: activeCrawls_delete_def)
  ultimately show ?thesis
    by (simp add: emitProgress_absent activeCrawls_after_delete)
qed

text \<open>
  The claim on a registry that is empty, then holds one session whose event reaches
  stream 0, then has lost it: two more emit calls leave the stream as it was.
\<close>

theorem emit_without_session_is_noop_witness:
  "activeCrawls emptyServer ''1700000000000'' = None
   \<and> emitProgress emptyServer ''1700000000000'' exampleEvent = emptyServer
   \<and> streams (emitProgress (activeCrawls_set emptyServer ''1700000000000'' exampleSession)
        ''1700000000000'' exampleEvent) 0 = [exampleEvent]
   \<and> streams (emitAll
        (activeCrawls_delete
           (emitProgress (activeCrawls_set emptyServer ''1700000000000'' exampleSession)
              ''1700000000000'' exampleEvent) ''1700000000000'')
        ''1700000000000'' [exampleEvent, exampleEvent]) 0 = [exampleEvent]"
proof -
  have a: "activeCrawls emptyServer ''1700000000000'' = None"
    by (simp add: emptyServer_def)
  have b: "streams (emitProgress (activeCrawls_set emptyServer ''1700000000000'' exampleSession)
        ''1700000000000'' exampleEvent) 0 = [exampleEvent]"
    by (simp add: emitProgress_def activeCrawls_set_def emptyServer_def exampleSession_def)
  from emit_without_session_is_noop[of emptyServer "''1700000000000''" exampleEvent] a
  have c: "emitProgress emptyServer ''1700000000000'' exampleEvent = emptyServer" by blast
  from emit_without_session_is_noop[of
      "emitProgress (activeCrawls_set emptyServer ''1700000000000'' exampleSession)
              ''1700000000000'' exampleEvent" "''1700000000000''" exampleEvent
      "[exampleEvent, exampleEvent]"]
  have "streams (emitAll
        (activeCrawls_delete
           (emitProgress (activeCrawls_set emptyServer ''1700000000000'' exampleSession)
              ''1700000000000'' exampleEvent) ''1700000000000'')
        ''1700000000000'' [exampleEvent, exampleEvent]) =
       streams (emitProgress (activeCrawls_set emptyServer ''1700000000000'' exampleSession)
              ''1700000000000'' exampleEvent)"
    by blast
  with b have d: "streams (emitAll
        (activeCrawls_delete
           (emitProgress (activeCrawls_set emptyServer ''1700000000000'' exampleSession)
              ''1700000000000'' exampleEvent) ''1700000000000'')
        ''1700000000000'' [exampleEvent, exampleEvent]) 0 = [exampleEvent]"
    by simp
  from a b c d show ?thesis by blast
qed

section \<open>Turns of the pagination loop\<close>

lemma paginate_done:
  "paginate page idx tot u False allT k evs = Some (Inr (allT, k), evs)"
  by (subst paginate.simps) simp

lemma paginate_rows_timeout:
  "waitForRows (view page k) = Some err \<Longrightarrow>
   paginate page idx tot u True allT k evs = Some (Inr (allT, k), evs)"
  by (subst paginate.simps) simp

lemma nextButtonStatus_stop:
  "btn_exists (nextButtonStatus nb) \<and> btn_enabled (nextButtonStatus nb) \<longleftrightarrow>
     (case nb of None \<Rightarrow> False
      | Some b \<Rightarrow> (case closest_li b of None \<Rightarrow> True | Some classList \<Rightarrow> ''disabled'' \<notin> set classList))"
  by (simp add: nextButtonStatus_def Let_def split: option.splits)

lemma scriptsReturnE:
  assumes "scriptsReturn v"
  obtains nb where "expandRows v = None" "tableRows v = Inr (rowsOf v)" "nextButton v = Inr nb"
    "nextAbsentOrDisabled v \<longleftrightarrow> \<not> (btn_exists (nextButtonStatus nb) \<and> btn_enabled (nextButtonStatus nb))"
proof -
  from assms obtain rows nb where a: "expandRows v = None" "tableRows v = Inr rows" "nextButton v = Inr nb"
    unfolding scriptsReturn_def by (cases "tableRows v"; cases "nextButton v") auto
  have "nextAbsentOrDisabled v \<longleftrightarrow> \<not> (btn_exists (nextButtonStatus nb) \<and> btn_enabled (nextButtonStatus nb))"
    unfolding nextButtonStatus_stop using a(3)
    by (simp add: nextAbsentOrDisabled_def split: option.splits)
  with a show thesis using that[of nb] by (simp add: rowsOf_def)
qed

lemma paginate_turn_ends:
  assumes "waitForRows (view page k) = None" "turnEnds (view page k)"
  shows "paginate page idx tot u True allT k evs =
           Some (Inr (allT @ extractPage (rowsOf (view page k)), k),
                 evs @ [scrapedEvent idx tot u k (length (extractPage (rowsOf (view page k))))])"
proof -
  from assms(2) have s: "scriptsReturn (view page k)" and e: "nextAbsentOrDisabled (view page k)"
    by (simp_all add: turnEnds_def)
  from s obtain nb where "expandRows (view page k) = None"
    "tableRows (view page k) = Inr (rowsOf (view page k))" "nextButton (view page k) = Inr nb"
    "nextAbsentOrDisabled (view page k) \<longleftrightarrow>
       \<not> (btn_exists (nextButtonStatus nb) \<and> btn_enabled (nextButtonStatus nb))"
    by (rule scriptsReturnE)
  with e assms(1) show ?thesis
    by (subst paginate.simps) (auto simp: Let_def paginate_done)
qed

lemma paginate_click_throws:
  assumes "waitForRows (view page k) = None" "scriptsReturn (view page k)"
    "\<not> nextAbsentOrDisabled (view page k)" "clickNext (view page k) = Some err"
  shows "paginate page idx tot u True allT k evs =
           Some (Inr (allT @ extractPage (rowsOf (view page k)), k),
                 evs @ [scrapedEvent idx tot u k (length (extractPage (rowsOf (view page k))))])"
proof -
  from assms(2) obtain nb where "expandRows (view page k) = None"
    "tableRows (view page k) = Inr (rowsOf (view page k))" "nextButton (view page k) = Inr nb"
    "nextAbsentOrDisabled (view page k) \<longleftrightarrow>
       \<not> (btn_exists (nextButtonStatus nb) \<and> btn_enabled (nextButtonStatus nb))"
    by (rule scriptsReturnE)
  with assms(1,3,4) show ?thesis
    by (subst paginate.simps) (auto simp: Let_def paginate_done)
qed

lemma paginate_turn_advances:
  assumes "waitForRows (view page k) = None" "turnAdvances (view page k)"
  shows "paginate page idx tot u True allT k evs =
           paginate page idx tot u True (allT @ extractPage (rowsOf (view page k))) (Suc k)
             (evs @ [scrapedEvent idx tot u k (length (extractPage (rowsOf (view page k))))])"
proof -
  from assms(2) have s: "scriptsReturn (view page k)" and e: "\<not> nextAbsentOrDisabled (view page k)"
    and c: "clickNext (view page k) = None"
    by (simp_all add: turnAdvances_def)
  from s obtain nb where "expandRows (view page k) = None"
    "tableRows (view page k) = Inr (rowsOf (view page k))" "nextButton (view page k) = Inr nb"
    "nextAbsentOrDisabled (view page k) \<longleftrightarrow>
       \<not> (btn_exists (nextButtonStatus nb) \<and> btn_enabled (nextButtonStatus nb))"
    by (rule scriptsReturnE)
  with e c assms(1) show ?thesis
    by (subst paginate.simps) (auto simp: Let_def)
qed

lemma pagesData_0 [simp]: "pagesData page k 0 = []"
  by (simp add: pagesData_def)

lemma pagesEvents_0 [simp]: "pagesEvents page idx tot u k 0 = []"
  by (simp add: pagesEvents_def)

lemma pagesData_Suc:
  "pagesData page k (Suc n) = extractPage (rowsOf (view page k)) @ pagesData page (Suc k) n"
  by (simp add: pagesData_def upt_conv_Cons del: upt_Suc)

lemma pagesEvents_Suc:
  "pagesEvents page idx tot u k (Suc n) =
     scrapedEvent idx tot u k (length (extractPage (rowsOf (view page k))))
       # pagesEvents page idx tot u (Suc k) n"
  by (simp add: pagesEvents_def upt_conv_Cons del: upt_Suc)

lemma pagesData_snoc:
  "pagesData page k (Suc n) = pagesData page k n @ extractPage (rowsOf (view page (k + n)))"
  by (simp add: pagesData_def)

lemma pagesEvents_snoc:
  "pagesEvents page idx tot u k (Suc n) =
     pagesEvents page idx tot u k n
       @ [scrapedEvent idx tot u (k + n) (length (extractPage (rowsOf (view page (k + n)))))]"
  by (simp add: pagesEvents_def)

lemma paginate_advances_n:
  "\<forall>j. k \<le> j \<and> j < k + n \<longrightarrow> waitForRows (view page j) = None \<and> turnAdvances (view page j) \<Longrightarrow>
   paginate page idx tot u True allT k evs =
     paginate page idx tot u True (allT @ pagesData page k n) (k + n)
       (evs @ pagesEvents page idx tot u k n)"
proof (induction n arbitrary: k allT evs)
  case 0
  then show ?case by simp
next
  case (Suc n)
  have k: "waitForRows (view page k) = None" "turnAdvances (view page k)"
    using Suc.prems by simp_all
  have rest: "\<forall>j. Suc k \<le> j \<and> j < Suc k + n \<longrightarrow>
                waitForRows (view page j) = None \<and> turnAdvances (view page j)"
    using Suc.prems by simp
  show ?case
    by (simp add: paginate_turn_advances[OF k] Suc.IH[OF rest] pagesData_Suc pagesEvents_Suc)
qed

lemma paginate_stops_at_first_end:
  assumes "\<forall>j. 1 \<le> j \<and> j < n \<longrightarrow> waitForRows (view page j) = None \<and> turnAdvances (view page j)"
    and "1 \<le> n" "waitForRows (view page n) = None" "turnEnds (view page n)"
  shows "paginate page idx tot u True [] 1 evs =
           Some (Inr (pagesData page 1 n, n), evs @ pagesEvents page idx tot u 1 n)"
proof -
  obtain m where n: "n = Suc m" using assms(2) by (cases n) auto
  have "\<forall>j. 1 \<le> j \<and> j < 1 + m \<longrightarrow> waitForRows (view page j) = None \<and> turnAdvances (view page j)"
    using assms(1) n by simp
  from paginate_advances_n[OF this]
  have "paginate page idx tot u True [] 1 evs =
          paginate page idx tot u True (pagesData page 1 m) (Suc m) (evs @ pagesEvents page idx tot u 1 m)"
    by simp
  also have "\<dots> = Some (Inr (pagesData page 1 m @ extractPage (rowsOf (view page (Suc m))), Suc m),
        (evs @ pagesEvents page idx tot u 1 m)
          @ [scrapedEvent idx tot u (Suc m) (length (extractPage (rowsOf (view page (Suc m)))))])"
    using assms(3,4) unfolding n by (rule paginate_turn_ends)
  finally show ?thesis
    unfolding n by (simp add: pagesData_snoc pagesEvents_snoc)
qed

lemma paginate_never_returns:
  assumes run: "paginate page idx tot u h allT k evs = Some y"
  shows "h \<longrightarrow> (\<forall>j\<ge>k. waitForRows (view page j) = None \<and> turnAdvances (view page j)) \<longrightarrow> False"
proof (rule paginate.raw_induct[where P = "\<lambda>page idx tot u h allT k evs y.
          h \<longrightarrow> (\<forall>j\<ge>k. waitForRows (view page j) = None \<and> turnAdvances (view page j)) \<longrightarrow> False",
        OF _ run], goal_cases)
  case (1 f page idx tot u h allT k evs y)
  note IH = 1(1) and body = 1(2)
  show ?case
  proof (intro impI)
    assume h: h and all: "\<forall>j\<ge>k. waitForRows (view page j) = None \<and> turnAdvances (view page j)"
    from all have w: "waitForRows (view page k) = None" and t: "turnAdvances (view page k)"
      by simp_all
    from t have s: "scriptsReturn (view page k)" and e: "\<not> nextAbsentOrDisabled (view page k)"
      and c: "clickNext (view page k) = None"
      by (simp_all add: turnAdvances_def)
    from s obtain nb where g: "expandRows (view page k) = None"
      "tableRows (view page k) = Inr (rowsOf (view page k))"
      "nextButton (view page k) = Inr nb"
      "nextAbsentOrDisabled (view page k) \<longleftrightarrow>
         \<not> (btn_exists (nextButtonStatus nb) \<and> btn_enabled (nextButtonStatus nb))"
      by (rule scriptsReturnE)
    from body h w g e c
    have step: "f page idx tot u True (allT @ extractPage (rowsOf (view page k))) (k + 1)
          (evs @ [scrapedEvent idx tot u k (length (extractPage (rowsOf (view page k))))]) = Some y"
      by (auto simp: Let_def)
    have later: "\<forall>j\<ge>k + 1. waitForRows (view page j) = None \<and> turnAdvances (view page j)"
      using all by auto
    from IH[OF step] later show False by simp
  qed
qed

lemma paginate_loops_forever:
  "\<forall>j\<ge>k. waitForRows (view page j) = None \<and> turnAdvances (view page j) \<Longrightarrow>
   paginate page idx tot u True allT k evs = None"
  using paginate_never_returns[of page idx tot u True allT k evs]
  by (cases "paginate page idx tot u True allT k evs") auto

section \<open>Turns of the loop of the command-line tool\<close>

lemma paginateCli_done:
  "paginateCli page False allT k = Some (Inr (allT, k))"
  by (subst paginateCli.simps) simp

lemma paginateCli_turn_ends:
  assumes "turnEnds (view page k)"
  shows "paginateCli page True allT k = Some (Inr (allT @ extractPage (rowsOf (view page k)), k))"
proof -
  from assms have s: "scriptsReturn (view page k)" and e: "nextAbsentOrDisabled (view page k)"
    by (simp_all add: turnEnds_def)
  from s obtain nb where "expandRows (view page k) = None"
    "tableRows (view page k) = Inr (rowsOf (view page k))" "nextButton (view page k) = Inr nb"
    "nextAbsentOrDisabled (view page k) \<longleftrightarrow>
       \<not> (btn_exists (nextButtonStatus nb) \<and> btn_enabled (nextButtonStatus nb))"
    by (rule scriptsReturnE)
  with e show ?thesis
    by (subst paginateCli.simps) (auto simp: Let_def paginateCli_done)
qed

lemma paginateCli_turn_advances:
  assumes "turnAdvances (view page k)"
  shows "paginateCli page True allT k =
           paginateCli page True (allT @ extractPage (rowsOf (view page k))) (Suc k)"
proof -
  from assms have s: "scriptsReturn (view page k)" and e: "\<not> nextAbsentOrDisabled (view page k)"
    and c: "clickNext (view page k) = None"
    by (simp_all add: turnAdvances_def)
  from s obtain nb where "expandRows (view page k) = None"
    "tableRows (view page k) = Inr (rowsOf (view page k))" "nextButton (view page k) = Inr nb"
    "nextAbsentOrDisabled (view page k) \<longleftrightarrow>
       \<not> (btn_exists (nextButtonStatus nb) \<and> btn_enabled (nextButtonStatus nb))"
    by (rule scriptsReturnE)
  with e c show ?thesis
    by (subst paginateCli.simps) (auto simp: Let_def)
qed

lemma paginateCli_advances_n:
  "\<forall>j. k \<le> j \<and> j < k + n \<longrightarrow> turnAdvances (view page j) \<Longrightarrow>
   paginateCli page True allT k = paginateCli page True (allT @ pagesData page k n) (k + n)"
proof (induction n arbitrary: k allT)
  case 0
  then show ?case by simp
next
  case (Suc n)
  have k: "turnAdvances (view page k)" using Suc.prems by simp
  have rest: "\<forall>j. Suc k \<le> j \<and> j < Suc k + n \<longrightarrow> turnAdvances (view page j)"
    using Suc.prems by simp
  show ?case
    by (simp add: paginateCli_turn_advances[OF k] Suc.IH[OF rest] pagesData_Suc)
qed

lemma paginateCli_stops_at_first_end:
  assumes "\<forall>j. 1 \<le> j \<and> j < n \<longrightarrow> turnAdvances (view page j)"
    and "1 \<le> n" "turnEnds (view page n)"
  shows "paginateCli page True [] 1 = Some (Inr (pagesData page 1 n, n))"
proof -
  obtain m where n: "n = Suc m" using assms(2) by (cases n) auto
  have "\<forall>j. 1 \<le> j \<and> j < 1 + m \<longrightarrow> turnAdvances (view page j)"
    using assms(1) n by simp
  from paginateCli_advances_n[OF this]
  have "paginateCli page True [] 1 = paginateCli page True (pagesData page 1 m) (Suc m)"
    by simp
  also have "\<dots> = Some (Inr (pagesData page 1 m @ extractPage (rowsOf (view page (Suc m))), Suc m))"
    using assms(3) unfolding n by (rule paginateCli_turn_ends)
  finally show ?thesis
    unfolding n by (simp add: pagesData_snoc)
qed

lemma paginateCli_never_returns:
  assumes run: "paginateCli page h allT k = Some y"
  shows "h \<longrightarrow> (\<forall>j\<ge>k. turnAdvances (view page j)) \<longrightarrow> False"
proof (rule paginateCli.raw_induct[where P = "\<lambda>page h allT k y.
          h \<longrightarrow> (\<forall>j\<ge>k. turnAdvances (view page j)) \<longrightarrow> False", OF _ run], goal_cases)
  case (1 f page h allT k y)
  note IH = 1(1) and body = 1(2)
  show ?case
  proof (intro impI)
    assume h: h and all: "\<forall>j\<ge>k. turnAdvances (view page j)"
    from all have t: "turnAdvances (view page k)" by simp
    from t have s: "scriptsReturn (view page k)" and e: "\<not> nextAbsentOrDisabled (view page k)"
      and c: "clickNext (view page k) = None"
      by (simp_all add: turnAdvances_def)
    from s obtain nb where g: "expandRows (view page k) = None"
      "tableRows (view page k) = Inr (rowsOf (view page k))"
      "nextButton (view page k) = Inr nb"
      "nextAbsentOrDisabled (view page k) \<longleftrightarrow>
         \<not> (btn_exists (nextButtonStatus nb) \<and> btn_enabled (nextButtonStatus nb))"
      by (rule scriptsReturnE)
    from body h g e c
    have step: "f page True (allT @ extractPage (rowsOf (view page k))) (k + 1) = Some y"
      by (auto simp: Let_def)
    have later: "\<forall>j\<ge>k + 1. turnAdvances (view page j)"
      using all by auto
    from IH[OF step] later show False by simp
  qed
qed

lemma paginateCli_loops_forever:
  "\<forall>j\<ge>k. turnAdvances (view page j) \<Longrightarrow> paginateCli page True allT k = None"
  using paginateCli_never_returns[of page True allT k]
  by (cases "paginateCli page True allT k") auto

section \<open>From the loop to the result of a crawl\<close>

lemma tryCrawl_after_loop:
  assumes "pageLoads page u (timeout c)" "tableFound page"
    and "paginate page idx tot u True [] 1 (openingEvents idx tot u) = Some (Inr (allT, k), evs)"
  shows "tryCrawl c page u idx tot =
           Some (Inr (Scraped u (toISOString page) (length allT) k allT),
                 evs @ [completedEvent idx tot u (length allT)])"
  using assms
  by (simp add: tryCrawl_def pageLoads_def tableFound_def openingEvents_def completedEvent_def)

lemma tryCrawl_no_table:
  assumes "pageLoads page u (timeout c)" "waitForTableRoot page = Some err"
  shows "tryCrawl c page u idx tot =
           Some (Inr (NotScraped u ''No price history table found'' []),
             [progress idx tot Starting u ''Navigating to page...'' None,
              progress idx tot Loading u ''Waiting for content...'' None,
              progress idx tot Error u ''Price history table not found''
                (Some ''No price history data available'')])"
  using assms by (simp add: tryCrawl_def pageLoads_def)

lemma tryCrawl_goto_throws:
  assumes "setUserAgent page = None" "evaluateOnNewDocument page = None"
    "goto page u (timeout c) = Some err"
  shows "tryCrawl c page u idx tot =
           Some (Inl err, [progress idx tot Starting u ''Navigating to page...'' None])"
  using assms by (simp add: tryCrawl_def)

lemma crawlPropertyGuru_fulfilled:
  assumes "assignedBrowser c idx = Some b" "newPage w b idx = Inr page" "closePage page = None"
    and "tryCrawl c page u idx tot = Some (Inr v, evs)"
  shows "crawlPropertyGuru w c u idx tot = Some (Inr v, evs)"
  using assms by (simp add: crawlPropertyGuru_def catchCrawl_def finallyClose_def)

lemma crawlPropertyGuru_caught:
  assumes "assignedBrowser c idx = Some b" "newPage w b idx = Inr page" "closePage page = None"
    and "tryCrawl c page u idx tot = Some (Inl err, evs)"
  shows "crawlPropertyGuru w c u idx tot =
           Some (Inr (NotScraped u err []), evs @ [progress idx tot Error u err (Some err)])"
  using assms by (simp add: crawlPropertyGuru_def catchCrawl_def finallyClose_def)

lemma priceHistoryBody_after_loop:
  assumes "cli_newPage w b = Inr page" "pageLoads page u 60000" "tableFound page"
    "waitForRows (view page 1) = None"
    and "paginateCli page True [] 1 = Some (Inr (allT, k))"
  shows "priceHistoryBody w b u f =
           (case writeFile w f (Scraped u (toISOString page) (length allT) k allT) of
              Some err \<Rightarrow> Some (Inl err)
            | None \<Rightarrow> Some (Inr (Some (f, Scraped u (toISOString page) (length allT) k allT))))"
  using assms by (simp add: priceHistoryBody_def pageLoads_def tableFound_def)

lemma priceHistoryBody_no_table:
  assumes "cli_newPage w b = Inr page" "pageLoads page u 60000" "waitForTableRoot page = Some err"
  shows "priceHistoryBody w b u f = Some (Inr None)"
  using assms by (simp add: priceHistoryBody_def pageLoads_def)

text \<open>The run of \<open>crawlPriceHistory\<close>, without the log.\<close>

lemma crawlPriceHistory_unfold:
  "crawlPriceHistory w u outputFile headlessFlag =
     (case cli_launch w headlessFlag of
        Inl err \<Rightarrow> Some \<lparr>cli_thrown = Some err, written = None, cli_closed = []\<rparr>
      | Inr browser \<Rightarrow>
          (case priceHistoryBody w browser u outputFile of
             None \<Rightarrow> None
           | Some r \<Rightarrow>
               Some \<lparr>cli_thrown =
                       (case cli_closeBrowser w browser of
                          Some err \<Rightarrow> Some err
                        | None \<Rightarrow> (case r of Inl err \<Rightarrow> Some err | Inr _ \<Rightarrow> None)),
                     written = (case r of Inl err \<Rightarrow> None | Inr f \<Rightarrow> f),
                     cli_closed = [browser]\<rparr>))"
  by (simp add: crawlPriceHistory_def crawlPriceHistoryLogged_def puppeteerLaunch_def
        split: sum.splits)

text \<open>Unfolding the concrete table states.\<close>

lemmas view_defs =
  tabShowing_def openView_def lastView_def turnAdvances_def turnEnds_def scriptsReturn_def
  nextAbsentOrDisabled_def rowsOf_def pageLoads_def tableFound_def


section \<open>Pagination to the last page\<close>

lemma pagesData_three:
  "pagesData page 1 3 =
     extractPage (rowsOf (view page 1)) @ extractPage (rowsOf (view page 2))
       @ extractPage (rowsOf (view page 3))"
  by (simp add: pagesData_def upt_conv_Cons numeral_2_eq_2 numeral_3_eq_3 del: upt_Suc)

lemma crawlPriceHistory_written:
  assumes "cli_launch cw hl = Inr b" "cli_newPage cw b = Inr page" "pageLoads page u 60000"
    "tableFound page" "waitForRows (view page 1) = None"
    "paginateCli page True [] 1 = Some (Inr (allT, k))"
    "writeFile cw f (Scraped u (toISOString page) (length allT) k allT) = None"
  shows "map_option written (crawlPriceHistory cw u f hl) =
           Some (Some (f, Scraped u (toISOString page) (length allT) k allT))"
  using assms(1,7) priceHistoryBody_after_loop[OF assms(2-6), of f]
  by (simp add: crawlPriceHistory_unfold)

text \<open>
  Claim C5. Take a table whose first two states show 10 rows each and an enabled next
  button that can be clicked, and whose third state shows 4 rows and a next button that
  is absent or sits in a disabled \<open>li\<close>. Then the loop of either program returns the 24
  transactions of pages 1, 2 and 3 in page order and row order, with page counter 3, and
  the result object of either program carries \<open>totalTransactions = 24\<close> and
  \<open>totalPages = 3\<close>. In general, as long as the waits, scripts and clicks succeed, the loop
  stops exactly at the first page whose next control is absent or disabled: it returns
  there with the pages up to it, and if there is no such page it never returns. Within
  a turn whose wait and scripts succeed, the loop ends without clicking exactly when the
  next control is absent or disabled; otherwise it clicks, and goes on if the click
  succeeds.
\<close>

theorem three_pages_then_disabled_next:
  "(waitForRows (view page 1) = None \<and> turnAdvances (view page 1)
      \<and> length (rowsOf (view page 1)) = 10
    \<and> waitForRows (view page 2) = None \<and> turnAdvances (view page 2)
      \<and> length (rowsOf (view page 2)) = 10
    \<and> waitForRows (view page 3) = None \<and> turnEnds (view page 3)
      \<and> length (rowsOf (view page 3)) = 4
    \<longrightarrow>
      pagesData page 1 3 =
        extractPage (rowsOf (view page 1)) @ extractPage (rowsOf (view page 2))
          @ extractPage (rowsOf (view page 3))
      \<and> length (pagesData page 1 3) = 24
      \<and> paginate page idx tot u True [] 1 evs =
          Some (Inr (pagesData page 1 3, 3), evs @ pagesEvents page idx tot u 1 3)
      \<and> paginateCli page True [] 1 = Some (Inr (pagesData page 1 3, 3))
      \<and> (assignedBrowser c idx = Some b \<and> newPage w b idx = Inr page
            \<and> pageLoads page u (timeout c) \<and> tableFound page \<and> closePage page = None
          \<longrightarrow> map_option fst (crawlPropertyGuru w c u idx tot) =
                Some (Inr (Scraped u (toISOString page) 24 3 (pagesData page 1 3))))
      \<and> (cli_launch cw hl = Inr cb \<and> cli_newPage cw cb = Inr page
            \<and> pageLoads page u 60000 \<and> tableFound page
            \<and> writeFile cw f (Scraped u (toISOString page) 24 3 (pagesData page 1 3)) = None
          \<longrightarrow> map_option written (crawlPriceHistory cw u f hl) =
                Some (Some (f, Scraped u (toISOString page) 24 3 (pagesData page 1 3)))))
   \<and> ((\<forall>j. 1 \<le> j \<and> j < n \<longrightarrow> waitForRows (view page j) = None \<and> turnAdvances (view page j))
        \<and> 1 \<le> n \<and> waitForRows (view page n) = None \<and> turnEnds (view page n)
      \<longrightarrow> paginate page idx tot u True [] 1 evs =
            Some (Inr (pagesData page 1 n, n), evs @ pagesEvents page idx tot u 1 n)
          \<and> paginateCli page True [] 1 = Some (Inr (pagesData page 1 n, n)))
   \<and> ((\<forall>j\<ge>1. waitForRows (view page j) = None \<and> turnAdvances (view page j))
      \<longrightarrow> paginate page idx tot u True [] 1 evs = None \<and> paginateCli page True [] 1 = None)
   \<and> (waitForRows (view page k) = None \<and> scriptsReturn (view page k)
      \<longrightarrow> paginate page idx tot u True allT k evs =
            (if nextAbsentOrDisabled (view page k)
             then Some (Inr (allT @ extractPage (rowsOf (view page k)), k),
                        evs @ [scrapedEvent idx tot u k
                                 (length (extractPage (rowsOf (view page k))))])
             else (case clickNext (view page k) of
                     Some e \<Rightarrow>
                       Some (Inr (allT @ extractPage (rowsOf (view page k)), k),
                             evs @ [scrapedEvent idx tot u k
                                      (length (extractPage (rowsOf (view page k))))])
                   | None \<Rightarrow>
                       paginate page idx tot u True (allT @ extractPage (rowsOf (view page k)))
                         (Suc k)
                         (evs @ [scrapedEvent idx tot u k
                                   (length (extractPage (rowsOf (view page k))))]))))"
proof (intro conjI impI)
  assume three: "waitForRows (view page 1) = None \<and> turnAdvances (view page 1)
      \<and> length (rowsOf (view page 1)) = 10
    \<and> waitForRows (view page 2) = None \<and> turnAdvances (view page 2)
      \<and> length (rowsOf (view page 2)) = 10
    \<and> waitForRows (view page 3) = None \<and> turnEnds (view page 3)
      \<and> length (rowsOf (view page 3)) = 4"
  show data: "pagesData page 1 3 =
        extractPage (rowsOf (view page 1)) @ extractPage (rowsOf (view page 2))
          @ extractPage (rowsOf (view page 3))"
    by (rule pagesData_three)
  show len: "length (pagesData page 1 3) = 24"
    unfolding data using three by (simp add: extractPage_def)
  have adv: "\<forall>j. 1 \<le> j \<and> j < 3 \<longrightarrow> waitForRows (view page j) = None \<and> turnAdvances (view page j)"
  proof (intro allI impI)
    fix j :: nat assume "1 \<le> j \<and> j < 3"
    then have "j = 1 \<or> j = 2" by arith
    with three show "waitForRows (view page j) = None \<and> turnAdvances (view page j)" by auto
  qed
  have adv': "\<forall>j. 1 \<le> j \<and> j < 3 \<longrightarrow> turnAdvances (view page j)"
    using adv by blast
  show loop: "paginate page idx tot u True [] 1 evs =
          Some (Inr (pagesData page 1 3, 3), evs @ pagesEvents page idx tot u 1 3)" for evs
    using three by (intro paginate_stops_at_first_end adv) simp_all
  show cli: "paginateCli page True [] 1 = Some (Inr (pagesData page 1 3, 3))"
    using three by (intro paginateCli_stops_at_first_end adv') simp_all
  {
    assume h: "assignedBrowser c idx = Some b \<and> newPage w b idx = Inr page
            \<and> pageLoads page u (timeout c) \<and> tableFound page \<and> closePage page = None"
    have "tryCrawl c page u idx tot =
            Some (Inr (Scraped u (toISOString page) (length (pagesData page 1 3)) 3
                         (pagesData page 1 3)),
                  (openingEvents idx tot u @ pagesEvents page idx tot u 1 3)
                    @ [completedEvent idx tot u (length (pagesData page 1 3))])"
      using h loop[of "openingEvents idx tot u"] by (intro tryCrawl_after_loop) simp_all
    with h have "crawlPropertyGuru w c u idx tot =
            Some (Inr (Scraped u (toISOString page) (length (pagesData page 1 3)) 3
                         (pagesData page 1 3)),
                  (openingEvents idx tot u @ pagesEvents page idx tot u 1 3)
                    @ [completedEvent idx tot u (length (pagesData page 1 3))])"
      by (intro crawlPropertyGuru_fulfilled[of c idx b w page]) simp_all
    then show "map_option fst (crawlPropertyGuru w c u idx tot) =
                Some (Inr (Scraped u (toISOString page) 24 3 (pagesData page 1 3)))"
      by (simp add: len del: One_nat_def)
  }
  {
    assume h: "cli_launch cw hl = Inr cb \<and> cli_newPage cw cb = Inr page
            \<and> pageLoads page u 60000 \<and> tableFound page
            \<and> writeFile cw f (Scraped u (toISOString page) 24 3 (pagesData page 1 3)) = None"
    have "map_option written (crawlPriceHistory cw u f hl) =
           Some (Some (f, Scraped u (toISOString page) (length (pagesData page 1 3)) 3
                            (pagesData page 1 3)))"
      using h three cli by (intro crawlPriceHistory_written[of cw hl cb page]) (simp_all add: len del: One_nat_def)
    then show "map_option written (crawlPriceHistory cw u f hl) =
                Some (Some (f, Scraped u (toISOString page) 24 3 (pagesData page 1 3)))"
      by (simp add: len del: One_nat_def)
  }
next
  assume h: "(\<forall>j. 1 \<le> j \<and> j < n \<longrightarrow> waitForRows (view page j) = None \<and> turnAdvances (view page j))
        \<and> 1 \<le> n \<and> waitForRows (view page n) = None \<and> turnEnds (view page n)"
  then show "paginate page idx tot u True [] 1 evs =
            Some (Inr (pagesData page 1 n, n), evs @ pagesEvents page idx tot u 1 n)"
    by (intro paginate_stops_at_first_end) simp_all
  from h have "\<forall>j. 1 \<le> j \<and> j < n \<longrightarrow> turnAdvances (view page j)" by blast
  with h show "paginateCli page True [] 1 = Some (Inr (pagesData page 1 n, n))"
    by (intro paginateCli_stops_at_first_end) simp_all
next
  assume h: "\<forall>j\<ge>1. waitForRows (view page j) = None \<and> turnAdvances (view page j)"
  then show "paginate page idx tot u True [] 1 evs = None"
    by (rule paginate_loops_forever)
  from h have "\<forall>j\<ge>1. turnAdvances (view page j)" by blast
  then show "paginateCli page True [] 1 = None"
    by (rule paginateCli_loops_forever)
next
  assume h: "waitForRows (view page k) = None \<and> scriptsReturn (view page k)"
  show "paginate page idx tot u True allT k evs =
            (if nextAbsentOrDisabled (view page k)
             then Some (Inr (allT @ extractPage (rowsOf (view page k)), k),
                        evs @ [scrapedEvent idx tot u k
                                 (length (extractPage (rowsOf (view page k))))])
             else (case clickNext (view page k) of
                     Some e \<Rightarrow>
                       Some (Inr (allT @ extractPage (rowsOf (view page k)), k),
                             evs @ [scrapedEvent idx tot u k
                                      (length (extractPage (rowsOf (view page k))))])
                   | None \<Rightarrow>
                       paginate page idx tot u True (allT @ extractPage (rowsOf (view page k)))
                         (Suc k)
                         (evs @ [scrapedEvent idx tot u k
                                   (length (extractPage (rowsOf (view page k))))])))"
  proof (cases "nextAbsentOrDisabled (view page k)")
    case True
    with h have "turnEnds (view page k)" by (simp add: turnEnds_def)
    with h True show ?thesis by (simp add: paginate_turn_ends)
  next
    case False
    show ?thesis
    proof (cases "clickNext (view page k)")
      case None
      with h False have "turnAdvances (view page k)" by (simp add: turnAdvances_def)
      with h False None show ?thesis by (simp add: paginate_turn_advances)
    next
      case (Some e)
      with h False show ?thesis by (simp add: paginate_click_throws[where err = e])
    qed
  qed
qed

text \<open>
  The claim on a concrete site: three pages of 10, 10 and 4 rows crawled by the server
  and by the command-line tool, and a table whose next button stays enabled for ever.
\<close>

theorem three_pages_then_disabled_next_witness:
  "map_option fst
     (crawlPropertyGuru (worldWith (\<lambda>i. threePageTab)) oneBrowserCrawler
        ''https://example.com/listing'' 0 1) =
     Some (Inr (Scraped ''https://example.com/listing'' ''2026-01-01T00:00:00.000Z'' 24 3
                  (replicate 10 (extractRow plainRow) @ replicate 10 (extractRow plainRow)
                     @ replicate 4 (extractRow plainRow))))
   \<and> map_option written
       (crawlPriceHistory (cliWorldWith threePageTab) ''https://example.com/listing''
          ''price-history.json'' False) =
       Some (Some (''price-history.json'',
         Scraped ''https://example.com/listing'' ''2026-01-01T00:00:00.000Z'' 24 3
           (replicate 10 (extractRow plainRow) @ replicate 10 (extractRow plainRow)
              @ replicate 4 (extractRow plainRow))))
   \<and> map_option fst (paginate threePageTab 0 1 ''https://example.com/listing'' True [] 1 []) =
       Some (Inr (replicate 10 (extractRow plainRow) @ replicate 10 (extractRow plainRow)
                    @ replicate 4 (extractRow plainRow), 3))
   \<and> paginate endlessTab 0 1 ''https://example.com/listing'' True [] 1 [] = None
   \<and> paginateCli endlessTab True [] 1 = None
   \<and> map_option fst (paginate threePageTab 0 1 ''https://example.com/listing'' True [] 3 []) =
       Some (Inr (replicate 4 (extractRow plainRow), 3))"
proof -
  let ?u = "''https://example.com/listing''"
  let ?w = "worldWith (\<lambda>i. threePageTab)"
  let ?cw = "cliWorldWith threePageTab"
  have three: "waitForRows (view threePageTab 1) = None \<and> turnAdvances (view threePageTab 1)
      \<and> length (rowsOf (view threePageTab 1)) = 10
    \<and> waitForRows (view threePageTab 2) = None \<and> turnAdvances (view threePageTab 2)
      \<and> length (rowsOf (view threePageTab 2)) = 10
    \<and> waitForRows (view threePageTab 3) = None \<and> turnEnds (view threePageTab 3)
      \<and> length (rowsOf (view threePageTab 3)) = 4"
    by (simp add: threePageTab_def view_defs)
  have upto: "(\<forall>j. 1 \<le> j \<and> j < 3 \<longrightarrow>
                 waitForRows (view threePageTab j) = None \<and> turnAdvances (view threePageTab j))
        \<and> 1 \<le> (3::nat) \<and> waitForRows (view threePageTab 3) = None \<and> turnEnds (view threePageTab 3)"
    by (simp add: threePageTab_def view_defs)
  have server: "assignedBrowser oneBrowserCrawler 0 = Some 0 \<and> newPage ?w 0 0 = Inr threePageTab
      \<and> pageLoads threePageTab ?u (timeout oneBrowserCrawler) \<and> tableFound threePageTab
      \<and> closePage threePageTab = None"
    by (simp add: assignedBrowser_def oneBrowserCrawler_def worldWith_def threePageTab_def view_defs)
  have cli: "cli_launch ?cw False = Inr 0 \<and> cli_newPage ?cw 0 = Inr threePageTab
      \<and> pageLoads threePageTab ?u 60000 \<and> tableFound threePageTab
      \<and> writeFile ?cw ''price-history.json''
           (Scraped ?u (toISOString threePageTab) 24 3 (pagesData threePageTab 1 3)) = None"
    by (simp add: cliWorldWith_def threePageTab_def view_defs)
  have forever: "\<forall>j\<ge>1. waitForRows (view endlessTab j) = None \<and> turnAdvances (view endlessTab j)"
    by (simp add: endlessTab_def view_defs)
  have ts: "toISOString threePageTab = ''2026-01-01T00:00:00.000Z''"
    by (simp add: threePageTab_def tabShowing_def)
  note T = three_pages_then_disabled_next[where page = threePageTab and c = oneBrowserCrawler
      and idx = 0 and tot = 1 and u = ?u and evs = "[]" and w = ?w and b = 0 and cw = ?cw
      and hl = False and cb = 0 and f = "''price-history.json''" and n = 3]
  from T three have data: "pagesData threePageTab 1 3 =
      extractPage (rowsOf (view threePageTab 1)) @ extractPage (rowsOf (view threePageTab 2))
        @ extractPage (rowsOf (view threePageTab 3))"
    by blast
  have data': "pagesData threePageTab 1 3 =
      replicate 10 (extractRow plainRow) @ replicate 10 (extractRow plainRow)
        @ replicate 4 (extractRow plainRow)"
    unfolding data by (simp add: threePageTab_def view_defs extractPage_def)
  from T three server
  have a: "map_option fst (crawlPropertyGuru ?w oneBrowserCrawler ?u 0 1) =
             Some (Inr (Scraped ?u (toISOString threePageTab) 24 3 (pagesData threePageTab 1 3)))"
    by blast
  from T three cli
  have b: "map_option written (crawlPriceHistory ?cw ?u ''price-history.json'' False) =
             Some (Some (''price-history.json'',
               Scraped ?u (toISOString threePageTab) 24 3 (pagesData threePageTab 1 3)))"
    by blast
  from T upto
  have "paginate threePageTab 0 1 ?u True [] 1 [] =
          Some (Inr (pagesData threePageTab 1 3, 3), [] @ pagesEvents threePageTab 0 1 ?u 1 3)"
    by blast
  then have c: "map_option fst (paginate threePageTab 0 1 ?u True [] 1 []) =
          Some (Inr (pagesData threePageTab 1 3, 3))"
    by simp
  from three_pages_then_disabled_next[where page = endlessTab and idx = 0 and tot = 1
      and u = ?u and evs = "[]"] forever
  have d: "paginate endlessTab 0 1 ?u True [] 1 [] = None \<and> paginateCli endlessTab True [] 1 = None"
    by blast
  have last: "waitForRows (view threePageTab 3) = None \<and> scriptsReturn (view threePageTab 3)"
    "nextAbsentOrDisabled (view threePageTab 3)"
    "extractPage (rowsOf (view threePageTab 3)) = replicate 4 (extractRow plainRow)"
    by (simp_all add: threePageTab_def view_defs extractPage_def)
  from three_pages_then_disabled_next[where page = threePageTab and k = 3 and idx = 0
      and tot = 1 and u = ?u and evs = "[]" and allT = "[]"] last(1)
  have "paginate threePageTab 0 1 ?u True [] 3 [] =
            (if nextAbsentOrDisabled (view threePageTab 3)
             then Some (Inr ([] @ extractPage (rowsOf (view threePageTab 3)), 3),
                        [] @ [scrapedEvent 0 1 ?u 3
                                 (length (extractPage (rowsOf (view threePageTab 3))))])
             else (case clickNext (view threePageTab 3) of
                     Some e \<Rightarrow>
                       Some (Inr ([] @ extractPage (rowsOf (view threePageTab 3)), 3),
                             [] @ [scrapedEvent 0 1 ?u 3
                                      (length (extractPage (rowsOf (view threePageTab 3))))])
                   | None \<Rightarrow>
                       paginate threePageTab 0 1 ?u True
                         ([] @ extractPage (rowsOf (view threePageTab 3))) (Suc 3)
                         ([] @ [scrapedEvent 0 1 ?u 3
                                   (length (extractPage (rowsOf (view threePageTab 3))))])))"
    by blast
  then have e: "map_option fst (paginate threePageTab 0 1 ?u True [] 3 []) =
       Some (Inr (replicate 4 (extractRow plainRow), 3))"
    by (simp only: last if_True) simp
  from a b c d e show ?thesis
    unfolding data' ts by blast
qed

section \<open>A click or a wait that fails\<close>

lemma length_pagesEvents: "length (pagesEvents page idx tot u k n) = n"
  by (simp add: pagesEvents_def)

lemma paginate_click_fails_after:
  assumes "\<forall>j. 1 \<le> j \<and> j < n \<longrightarrow> waitForRows (view page j) = None \<and> turnAdvances (view page j)"
    and "1 \<le> n" "waitForRows (view page n) = None" "scriptsReturn (view page n)"
    "\<not> nextAbsentOrDisabled (view page n)" "clickNext (view page n) = Some err"
  shows "paginate page idx tot u True [] 1 evs =
           Some (Inr (pagesData page 1 n, n), evs @ pagesEvents page idx tot u 1 n)"
proof -
  obtain m where n: "n = Suc m" using assms(2) by (cases n) auto
  have "\<forall>j. 1 \<le> j \<and> j < 1 + m \<longrightarrow> waitForRows (view page j) = None \<and> turnAdvances (view page j)"
    using assms(1) n by simp
  from paginate_advances_n[OF this]
  have "paginate page idx tot u True [] 1 evs =
          paginate page idx tot u True (pagesData page 1 m) (Suc m) (evs @ pagesEvents page idx tot u 1 m)"
    by simp
  also have "\<dots> = Some (Inr (pagesData page 1 m @ extractPage (rowsOf (view page (Suc m))), Suc m),
        (evs @ pagesEvents page idx tot u 1 m)
          @ [scrapedEvent idx tot u (Suc m) (length (extractPage (rowsOf (view page (Suc m)))))])"
    using assms(3-6) unfolding n by (rule paginate_click_throws)
  finally show ?thesis
    unfolding n by (simp add: pagesData_snoc pagesEvents_snoc)
qed

lemma paginate_rows_vanish_after:
  assumes "\<forall>j. 1 \<le> j \<and> j \<le> n \<longrightarrow> waitForRows (view page j) = None \<and> turnAdvances (view page j)"
    and "waitForRows (view page (Suc n)) = Some err"
  shows "paginate page idx tot u True [] 1 evs =
           Some (Inr (pagesData page 1 n, Suc n), evs @ pagesEvents page idx tot u 1 n)"
proof -
  have "\<forall>j. 1 \<le> j \<and> j < 1 + n \<longrightarrow> waitForRows (view page j) = None \<and> turnAdvances (view page j)"
    using assms(1) by simp
  from paginate_advances_n[OF this]
  have "paginate page idx tot u True [] 1 evs =
          paginate page idx tot u True (pagesData page 1 n) (Suc n) (evs @ pagesEvents page idx tot u 1 n)"
    by simp
  also have "\<dots> = Some (Inr (pagesData page 1 n, Suc n), evs @ pagesEvents page idx tot u 1 n)"
    using assms(2) by (rule paginate_rows_timeout)
  finally show ?thesis .
qed

text \<open>
  Claim C6. When the click on the next button throws, the loop ends without an error:
  after \<open>n - 1\<close> pages that moved on and a click that throws on page \<open>n\<close>, it returns the
  records of pages 1 to \<open>n\<close> with page counter \<open>n\<close>. When the wait for rows that follows a
  successful click throws, the loop ends without an error as well: after \<open>n\<close> pages that
  moved on and a wait that throws on page \<open>n + 1\<close>, it returns the records of pages 1 to
  \<open>n\<close>, reported by \<open>n\<close> progress events, with page counter \<open>n + 1\<close>: one more than the
  pages rows were extracted from. Whatever the loop returns, the crawl fulfils with the
  success shape carrying those records and the page counter as \<open>totalPages\<close>.
\<close>

theorem click_or_wait_failure_ends_pagination:
  "((\<forall>j. 1 \<le> j \<and> j < n \<longrightarrow> waitForRows (view page j) = None \<and> turnAdvances (view page j))
      \<and> 1 \<le> n \<and> waitForRows (view page n) = None \<and> scriptsReturn (view page n)
      \<and> \<not> nextAbsentOrDisabled (view page n) \<and> clickNext (view page n) = Some err
    \<longrightarrow> paginate page idx tot u True [] 1 evs =
          Some (Inr (pagesData page 1 n, n), evs @ pagesEvents page idx tot u 1 n))
   \<and> ((\<forall>j. 1 \<le> j \<and> j \<le> n \<longrightarrow> waitForRows (view page j) = None \<and> turnAdvances (view page j))
        \<and> waitForRows (view page (Suc n)) = Some err
      \<longrightarrow> paginate page idx tot u True [] 1 evs =
            Some (Inr (pagesData page 1 n, Suc n), evs @ pagesEvents page idx tot u 1 n)
          \<and> length (pagesEvents page idx tot u 1 n) = n)
   \<and> (assignedBrowser c idx = Some b \<and> newPage w b idx = Inr page
        \<and> pageLoads page u (timeout c) \<and> tableFound page \<and> closePage page = None
        \<and> paginate page idx tot u True [] 1 (openingEvents idx tot u) = Some (Inr (allT, k), evs')
      \<longrightarrow> crawlPropertyGuru w c u idx tot =
            Some (Inr (Scraped u (toISOString page) (length allT) k allT),
                  evs' @ [completedEvent idx tot u (length allT)]))"
proof (intro conjI impI)
  assume "(\<forall>j. 1 \<le> j \<and> j < n \<longrightarrow> waitForRows (view page j) = None \<and> turnAdvances (view page j))
      \<and> 1 \<le> n \<and> waitForRows (view page n) = None \<and> scriptsReturn (view page n)
      \<and> \<not> nextAbsentOrDisabled (view page n) \<and> clickNext (view page n) = Some err"
  then show "paginate page idx tot u True [] 1 evs =
          Some (Inr (pagesData page 1 n, n), evs @ pagesEvents page idx tot u 1 n)"
    by (intro paginate_click_fails_after[where err = err]) simp_all
next
  assume "(\<forall>j. 1 \<le> j \<and> j \<le> n \<longrightarrow> waitForRows (view page j) = None \<and> turnAdvances (view page j))
        \<and> waitForRows (view page (Suc n)) = Some err"
  then show "paginate page idx tot u True [] 1 evs =
            Some (Inr (pagesData page 1 n, Suc n), evs @ pagesEvents page idx tot u 1 n)"
    by (intro paginate_rows_vanish_after[where err = err]) simp_all
  show "length (pagesEvents page idx tot u 1 n) = n"
    by (rule length_pagesEvents)
next
  assume h: "assignedBrowser c idx = Some b \<and> newPage w b idx = Inr page
        \<and> pageLoads page u (timeout c) \<and> tableFound page \<and> closePage page = None
        \<and> paginate page idx tot u True [] 1 (openingEvents idx tot u) = Some (Inr (allT, k), evs')"
  then have "tryCrawl c page u idx tot =
            Some (Inr (Scraped u (toISOString page) (length allT) k allT),
                  evs' @ [completedEvent idx tot u (length allT)])"
    by (intro tryCrawl_after_loop) simp_all
  with h show "crawlPropertyGuru w c u idx tot =
            Some (Inr (Scraped u (toISOString page) (length allT) k allT),
                  evs' @ [completedEvent idx tot u (length allT)])"
    by (intro crawlPropertyGuru_fulfilled[of c idx b w page]) simp_all
qed

text \<open>
  The claim on two sites with pages of 10 rows: one whose next button cannot be clicked
  (10 records, \<open>totalPages = 1\<close>), and one where, after the first click, the wait for
  network idle times out (which changes nothing) and the rows do not come back
  (10 records from one page, \<open>totalPages = 2\<close>).
\<close>

theorem click_or_wait_failure_ends_pagination_witness:
  "map_option fst (paginate clickFailsTab 0 1 ''https://example.com/listing'' True [] 1 []) =
     Some (Inr (replicate 10 (extractRow plainRow), 1))
   \<and> map_option fst
       (crawlPropertyGuru (worldWith (\<lambda>i. rowsVanishTab)) oneBrowserCrawler
          ''https://example.com/listing'' 0 1) =
       Some (Inr (Scraped ''https://example.com/listing'' ''2026-01-01T00:00:00.000Z'' 10 2
                    (replicate 10 (extractRow plainRow))))"
proof -
  let ?u = "''https://example.com/listing''"
  let ?w = "worldWith (\<lambda>i. rowsVanishTab)"
  have click: "(\<forall>j. 1 \<le> j \<and> j < 1 \<longrightarrow>
                   waitForRows (view clickFailsTab j) = None \<and> turnAdvances (view clickFailsTab j))
      \<and> 1 \<le> (1::nat) \<and> waitForRows (view clickFailsTab 1) = None
      \<and> scriptsReturn (view clickFailsTab 1)
      \<and> \<not> nextAbsentOrDisabled (view clickFailsTab 1)
      \<and> clickNext (view clickFailsTab 1) = Some ''Node is detached from document''"
    by (simp add: clickFailsTab_def view_defs)
  from click_or_wait_failure_ends_pagination[where page = clickFailsTab and n = 1
      and err = "''Node is detached from document''" and idx = 0 and tot = 1 and u = ?u
      and evs = "[]"] click
  have "paginate clickFailsTab 0 1 ?u True [] 1 [] =
          Some (Inr (pagesData clickFailsTab 1 1, 1), [] @ pagesEvents clickFailsTab 0 1 ?u 1 1)"
    by blast
  moreover have "pagesData clickFailsTab 1 1 = replicate 10 (extractRow plainRow)"
    by (simp add: pagesData_def clickFailsTab_def view_defs extractPage_def)
  ultimately have a: "map_option fst (paginate clickFailsTab 0 1 ?u True [] 1 []) =
      Some (Inr (replicate 10 (extractRow plainRow), 1))"
    by (simp del: One_nat_def)
  have wait: "(\<forall>j. 1 \<le> j \<and> j \<le> 1 \<longrightarrow>
                  waitForRows (view rowsVanishTab j) = None \<and> turnAdvances (view rowsVanishTab j))
      \<and> waitForRows (view rowsVanishTab (Suc 1)) = Some ''Waiting failed: 5000ms exceeded''"
    by (simp add: rowsVanishTab_def view_defs)
  note T = click_or_wait_failure_ends_pagination[where page = rowsVanishTab and n = 1
      and err = "''Waiting failed: 5000ms exceeded''" and idx = 0 and tot = 1 and u = ?u
      and evs = "openingEvents 0 1 ?u" and c = oneBrowserCrawler and b = 0 and w = ?w
      and allT = "pagesData rowsVanishTab 1 1" and k = "Suc 1"
      and evs' = "openingEvents 0 1 ?u @ pagesEvents rowsVanishTab 0 1 ?u 1 1"]
  from T wait
  have loop: "paginate rowsVanishTab 0 1 ?u True [] 1 (openingEvents 0 1 ?u) =
          Some (Inr (pagesData rowsVanishTab 1 1, Suc 1),
                openingEvents 0 1 ?u @ pagesEvents rowsVanishTab 0 1 ?u 1 1)"
    by blast
  have server: "assignedBrowser oneBrowserCrawler 0 = Some 0 \<and> newPage ?w 0 0 = Inr rowsVanishTab
      \<and> pageLoads rowsVanishTab ?u (timeout oneBrowserCrawler) \<and> tableFound rowsVanishTab
      \<and> closePage rowsVanishTab = None"
    by (simp add: assignedBrowser_def oneBrowserCrawler_def worldWith_def rowsVanishTab_def view_defs)
  from T server loop
  have "crawlPropertyGuru ?w oneBrowserCrawler ?u 0 1 =
          Some (Inr (Scraped ?u (toISOString rowsVanishTab) (length (pagesData rowsVanishTab 1 1))
                       (Suc 1) (pagesData rowsVanishTab 1 1)),
                (openingEvents 0 1 ?u @ pagesEvents rowsVanishTab 0 1 ?u 1 1)
                  @ [completedEvent 0 1 ?u (length (pagesData rowsVanishTab 1 1))])"
    by blast
  moreover have "pagesData rowsVanishTab 1 1 = replicate 10 (extractRow plainRow)"
    by (simp add: pagesData_def rowsVanishTab_def view_defs extractPage_def)
  moreover have "toISOString rowsVanishTab = ''2026-01-01T00:00:00.000Z''"
    by (simp add: rowsVanishTab_def tabShowing_def)
  ultimately have b: "map_option fst (crawlPropertyGuru ?w oneBrowserCrawler ?u 0 1) =
       Some (Inr (Scraped ?u ''2026-01-01T00:00:00.000Z'' 10 2 (replicate 10 (extractRow plainRow))))"
    by (simp del: One_nat_def)
  from a b show ?thesis by blast
qed

section \<open>A page without the table\<close>

lemma crawlPropertyGuru_no_table:
  assumes "assignedBrowser c idx = Some b" "newPage w b idx = Inr page"
    "pageLoads page u (timeout c)" "waitForTableRoot page = Some err" "closePage page = None"
  shows "crawlPropertyGuru w c u idx tot =
           Some (Inr (NotScraped u ''No price history table found'' []),
             [progress idx tot Starting u ''Navigating to page...'' None,
              progress idx tot Loading u ''Waiting for content...'' None,
              progress idx tot Error u ''Price history table not found''
                (Some ''No price history data available'')])"
  using assms(1,2,5) tryCrawl_no_table[OF assms(3,4), of idx tot]
  by (rule crawlPropertyGuru_fulfilled)

lemma crawlPriceHistory_no_table:
  assumes "cli_launch cw hl = Inr cb" "cli_newPage cw cb = Inr page" "pageLoads page u 60000"
    "waitForTableRoot page = Some err"
  shows "crawlPriceHistory cw u f hl =
           Some \<lparr>cli_thrown = cli_closeBrowser cw cb, written = None, cli_closed = [cb]\<rparr>"
  using assms(1) priceHistoryBody_no_table[OF assms(2-4), of f]
  by (simp add: crawlPriceHistory_unfold split: option.splits)

text \<open>
  Claim C2 as stated fails. On a page that loads but never shows the table root, the
  crawl of the server fulfils with the error shape
  \<open>{ url, error: "No price history table found", transactions: [] }\<close>, which has no
  \<open>totalPages\<close>, and not with the success shape with \<open>totalPages = 1\<close>; the
  command-line tool returns without writing a result at all.
\<close>

theorem missing_table_root_counterexample:
  "map_option fst (crawlPropertyGuru noTableWorld oneBrowserCrawler ''https://example.com/listing'' 0 1) =
     Some (Inr (NotScraped ''https://example.com/listing'' ''No price history table found'' []))
   \<and> map_option fst (crawlPropertyGuru noTableWorld oneBrowserCrawler ''https://example.com/listing'' 0 1) \<noteq>
     Some (Inr (Scraped ''https://example.com/listing'' ''2026-01-01T00:00:00.000Z'' 0 1 []))
   \<and> crawlPriceHistory noTableCliWorld ''https://example.com/listing'' ''price-history.json'' False =
     Some \<lparr>cli_thrown = None, written = None, cli_closed = [0]\<rparr>"
proof -
  have "crawlPropertyGuru noTableWorld oneBrowserCrawler ''https://example.com/listing'' 0 1 =
          Some (Inr (NotScraped ''https://example.com/listing'' ''No price history table found'' []),
             [progress 0 1 Starting ''https://example.com/listing'' ''Navigating to page...'' None,
              progress 0 1 Loading ''https://example.com/listing'' ''Waiting for content...'' None,
              progress 0 1 Error ''https://example.com/listing'' ''Price history table not found''
                (Some ''No price history data available'')])"
    by (rule crawlPropertyGuru_no_table[where b = 0 and page = noTableTab
          and err = "''Waiting failed: 10000ms exceeded''"])
       (simp_all add: assignedBrowser_def oneBrowserCrawler_def noTableWorld_def worldWith_def
          noTableTab_def view_defs)
  moreover have "crawlPriceHistory noTableCliWorld ''https://example.com/listing'' ''price-history.json'' False =
     Some \<lparr>cli_thrown = cli_closeBrowser noTableCliWorld 0, written = None, cli_closed = [0]\<rparr>"
    by (rule crawlPriceHistory_no_table[where page = noTableTab
          and err = "''Waiting failed: 10000ms exceeded''"])
       (simp_all add: noTableCliWorld_def cliWorldWith_def noTableTab_def view_defs)
  moreover have "cli_closeBrowser noTableCliWorld 0 = None"
    by (simp add: noTableCliWorld_def cliWorldWith_def)
  ultimately show ?thesis by simp
qed

text \<open>
  Claim C2, amended. When the page loads but the wait for the table root throws, the
  crawl of the server throws nothing: it emits the starting and loading events and an
  event of status \<open>error\<close>, and fulfils with
  \<open>{ url, error: "No price history table found", transactions: [] }\<close>, which carries
  no \<open>totalPages\<close>; the batch entry built from it is marked \<open>success = true\<close> with a null
  \<open>error\<close>. The command-line tool closes its browser and returns without writing a file.
\<close>

theorem missing_table_root_gives_error_shape:
  "(assignedBrowser c idx = Some b \<and> newPage w b idx = Inr page
      \<and> pageLoads page u (timeout c) \<and> waitForTableRoot page = Some err \<and> closePage page = None
    \<longrightarrow> crawlPropertyGuru w c u idx tot =
          Some (Inr (NotScraped u ''No price history table found'' []),
            [progress idx tot Starting u ''Navigating to page...'' None,
             progress idx tot Loading u ''Waiting for content...'' None,
             progress idx tot Error u ''Price history table not found''
               (Some ''No price history data available'')])
        \<and> toEntry u0 (Inr (NotScraped u ''No price history table found'' [])) =
            \<lparr>entry_url = u0, success = True,
             data = Some (NotScraped u ''No price history table found'' []),
             entry_error = None\<rparr>)
   \<and> (cli_launch cw hl = Inr cb \<and> cli_newPage cw cb = Inr page
        \<and> pageLoads page u 60000 \<and> waitForTableRoot page = Some err
      \<longrightarrow> crawlPriceHistory cw u f hl =
            Some \<lparr>cli_thrown = cli_closeBrowser cw cb, written = None, cli_closed = [cb]\<rparr>)"
proof (intro conjI impI)
  assume "assignedBrowser c idx = Some b \<and> newPage w b idx = Inr page
      \<and> pageLoads page u (timeout c) \<and> waitForTableRoot page = Some err \<and> closePage page = None"
  then show "crawlPropertyGuru w c u idx tot =
          Some (Inr (NotScraped u ''No price history table found'' []),
            [progress idx tot Starting u ''Navigating to page...'' None,
             progress idx tot Loading u ''Waiting for content...'' None,
             progress idx tot Error u ''Price history table not found''
               (Some ''No price history data available'')])"
    by (intro crawlPropertyGuru_no_table[where b = b and page = page and err = err]) simp_all
  show "toEntry u0 (Inr (NotScraped u ''No price history table found'' [])) =
            \<lparr>entry_url = u0, success = True,
             data = Some (NotScraped u ''No price history table found'' []),
             entry_error = None\<rparr>"
    by (simp add: toEntry_def)
next
  assume "cli_launch cw hl = Inr cb \<and> cli_newPage cw cb = Inr page
        \<and> pageLoads page u 60000 \<and> waitForTableRoot page = Some err"
  then show "crawlPriceHistory cw u f hl =
            Some \<lparr>cli_thrown = cli_closeBrowser cw cb, written = None, cli_closed = [cb]\<rparr>"
    by (intro crawlPriceHistory_no_table[where page = page and err = err]) simp_all
qed

text \<open>The amended claim on the page without the table.\<close>

theorem missing_table_root_gives_error_shape_witness:
  "crawlPropertyGuru (worldWith (\<lambda>i. noTableTab)) oneBrowserCrawler ''https://example.com/listing'' 0 1 =
     Some (Inr (NotScraped ''https://example.com/listing'' ''No price history table found'' []),
       [progress 0 1 Starting ''https://example.com/listing'' ''Navigating to page...'' None,
        progress 0 1 Loading ''https://example.com/listing'' ''Waiting for content...'' None,
        progress 0 1 Error ''https://example.com/listing'' ''Price history table not found''
          (Some ''No price history data available'')])
   \<and> crawlPriceHistory (cliWorldWith noTableTab) ''https://example.com/listing''
        ''price-history.json'' False =
       Some \<lparr>cli_thrown = None, written = None, cli_closed = [0]\<rparr>"
proof -
  let ?u = "''https://example.com/listing''"
  let ?w = "worldWith (\<lambda>i. noTableTab)"
  let ?cw = "cliWorldWith noTableTab"
  have server: "assignedBrowser oneBrowserCrawler 0 = Some 0 \<and> newPage ?w 0 0 = Inr noTableTab
      \<and> pageLoads noTableTab ?u (timeout oneBrowserCrawler)
      \<and> waitForTableRoot noTableTab = Some ''Waiting failed: 10000ms exceeded''
      \<and> closePage noTableTab = None"
    by (simp add: assignedBrowser_def oneBrowserCrawler_def worldWith_def noTableTab_def view_defs)
  have cli: "cli_launch ?cw False = Inr 0 \<and> cli_newPage ?cw 0 = Inr noTableTab
      \<and> pageLoads noTableTab ?u 60000
      \<and> waitForTableRoot noTableTab = Some ''Waiting failed: 10000ms exceeded''"
    by (simp add: cliWorldWith_def noTableTab_def view_defs)
  have close: "cli_closeBrowser ?cw 0 = None"
    by (simp add: cliWorldWith_def)
  note T = missing_table_root_gives_error_shape[where c = oneBrowserCrawler and idx = 0
      and b = 0 and w = ?w and page = noTableTab and u = ?u
      and err = "''Waiting failed: 10000ms exceeded''" and tot = 1 and cw = ?cw and hl = False
      and cb = 0 and f = "''price-history.json''"]
  from T server have a: "crawlPropertyGuru ?w oneBrowserCrawler ?u 0 1 =
     Some (Inr (NotScraped ?u ''No price history table found'' []),
       [progress 0 1 Starting ?u ''Navigating to page...'' None,
        progress 0 1 Loading ?u ''Waiting for content...'' None,
        progress 0 1 Error ?u ''Price history table not found''
          (Some ''No price history data available'')])"
    by blast
  from T cli have "crawlPriceHistory ?cw ?u ''price-history.json'' False =
       Some \<lparr>cli_thrown = cli_closeBrowser ?cw 0, written = None, cli_closed = [0]\<rparr>"
    by blast
  with close a show ?thesis by simp
qed

section \<open>Provisioning and aggregation\<close>

lemma launchOptionsFor_browsers [simp]:
  "launchOptionsFor w (c\<lparr>browsers := bs\<rparr>) = launchOptionsFor w c"
  by (simp add: launchOptionsFor_def)

lemma initBrowsersFrom_ok:
  "(\<forall>i. j \<le> i \<and> int i < concurrency c \<longrightarrow> \<not> isl (launch w i (launchOptionsFor w c))) \<Longrightarrow>
   initBrowsersFrom w j c =
     (None, c\<lparr>browsers := browsers c @ map (launched w c) [j..<nat (concurrency c)]\<rparr>)"
proof (induction w j c rule: initBrowsersFrom.induct)
  case (1 w i c)
  show ?case
  proof (cases "int i < concurrency c")
    case True
    with "1.prems" have "\<not> isl (launch w i (launchOptionsFor w c))" by simp
    then obtain b where b: "launch w i (launchOptionsFor w c) = Inr b"
      by (cases "launch w i (launchOptionsFor w c)") auto
    let ?c = "c\<lparr>browsers := browsers c @ [b]\<rparr>"
    have "\<forall>k. Suc i \<le> k \<and> int k < concurrency ?c \<longrightarrow> \<not> isl (launch w k (launchOptionsFor w ?c))"
      using "1.prems" by simp
    from "1.IH"[OF True b this]
    have "initBrowsersFrom w (Suc i) ?c =
            (None, ?c\<lparr>browsers := browsers ?c @ map (launched w ?c) [Suc i..<nat (concurrency ?c)]\<rparr>)" .
    moreover have "launched w ?c = launched w c"
      by (rule ext) (simp add: launched_def)
    moreover have "[i..<nat (concurrency c)] = i # [Suc i..<nat (concurrency c)]"
      using True by (simp add: upt_conv_Cons)
    moreover have "launched w c i = b" using b by (simp add: launched_def)
    ultimately show ?thesis
      using True b by (subst initBrowsersFrom.simps) simp
  next
    case False
    then have "[i..<nat (concurrency c)] = []" by simp
    with False show ?thesis by (subst initBrowsersFrom.simps) simp
  qed
qed

lemma initBrowsers_ok:
  assumes "launchesSucceed w c"
  shows "initBrowsers w c =
           (None, c\<lparr>browsers := browsers c @ map (launched w c) [0..<nat (concurrency c)]\<rparr>)"
  unfolding initBrowsers_def using assms
  by (intro initBrowsersFrom_ok) (simp add: launchesSucceed_def)

lemma initBrowsersFrom_none:
  "concurrency c \<le> int j \<Longrightarrow> initBrowsersFrom w j c = (None, c)"
  by (subst initBrowsersFrom.simps) simp

lemma those_map_Some: "those (map (\<lambda>x. Some (g x)) xs) = Some (map g xs)"
  by (induction xs) simp_all

lemma those_SomeD: "those xs = Some ys \<Longrightarrow> xs = map Some ys"
  by (induction xs arbitrary: ys) (auto split: option.splits)

lemma map_enumerate_nth:
  "map f (enumerate 0 xs) = map (\<lambda>j. f (j, xs ! j)) [0..<length xs]"
  by (rule nth_equalityI) (simp_all add: nth_enumerate_eq)

lemma map_zip_nth:
  "length ys = length xs \<Longrightarrow>
   map f (zip xs ys) = map (\<lambda>j. f (xs ! j, ys ! j)) [0..<length xs]"
  by (rule nth_equalityI) simp_all

lemma crawlMultipleUrls_init_fails:
  "initBrowsers w c = (Some err, c') \<Longrightarrow>
   crawlMultipleUrls w c urls =
     Some \<lparr>returned = Inl err, provisioned = browsers c', closed = [], emitted = []\<rparr>"
  by (simp add: crawlMultipleUrls_def)

lemma crawlMultipleUrls_settled:
  assumes init: "initBrowsers w c = (None, c')"
    and rs: "\<forall>j<length urls. crawlPropertyGuru w c' (trim (urls ! j)) j (length urls) = Some (rs j)"
  shows "crawlMultipleUrls w c urls =
           Some \<lparr>returned =
                   (case closeAll w (browsers c') of
                      Some err \<Rightarrow> Inl err
                    | None \<Rightarrow> Inr (map (\<lambda>j. toEntry (urls ! j) (fst (rs j))) [0..<length urls])),
                 provisioned = browsers c', closed = browsers c',
                 emitted = map (\<lambda>j. snd (rs j)) [0..<length urls]\<rparr>"
proof -
  have "map (\<lambda>(index, u). crawlPropertyGuru w c' (trim u) index (length urls)) (enumerate 0 urls)
          = map (\<lambda>j. Some (rs j)) [0..<length urls]"
    unfolding map_enumerate_nth using rs by simp
  then have t: "those (map (\<lambda>(index, u). crawlPropertyGuru w c' (trim u) index (length urls))
                  (enumerate 0 urls)) = Some (map rs [0..<length urls])"
    by (simp add: those_map_Some)
  have z: "map (\<lambda>(u, r). toEntry u (fst r)) (zip urls (map rs [0..<length urls]))
             = map (\<lambda>j. toEntry (urls ! j) (fst (rs j))) [0..<length urls]"
    by (subst map_zip_nth) simp_all
  show ?thesis
    unfolding crawlMultipleUrls_def init
    by (cases "closeAll w (browsers c')") (simp_all only: t z prod.case option.case map_map comp_def)
qed

lemma crawlMultipleUrls_SomeD:
  assumes init: "initBrowsers w c = (None, c')"
    and run: "crawlMultipleUrls w c urls = Some run"
  shows "\<exists>rs. (\<forall>j<length urls.
             crawlPropertyGuru w c' (trim (urls ! j)) j (length urls) = Some (rs j))"
proof -
  have "those (map (\<lambda>(index, u). crawlPropertyGuru w c' (trim u) index (length urls))
                  (enumerate 0 urls)) \<noteq> None"
  proof
    assume "those (map (\<lambda>(index, u). crawlPropertyGuru w c' (trim u) index (length urls))
                  (enumerate 0 urls)) = None"
    then have "crawlMultipleUrls w c urls = None"
      unfolding crawlMultipleUrls_def init by (simp only: prod.case option.case)
    with run show False by simp
  qed
  then obtain results where
    t: "those (map (\<lambda>(index, u). crawlPropertyGuru w c' (trim u) index (length urls))
                  (enumerate 0 urls)) = Some results"
    by blast
  from those_SomeD[OF t]
  have m: "map (\<lambda>j. crawlPropertyGuru w c' (trim (urls ! j)) j (length urls)) [0..<length urls]
          = map Some results"
    unfolding map_enumerate_nth by simp
  from arg_cong[OF m, of length] have len: "length results = length urls"
    by simp
  have "\<forall>j<length urls. crawlPropertyGuru w c' (trim (urls ! j)) j (length urls) = Some (results ! j)"
  proof (intro allI impI)
    fix j assume j: "j < length urls"
    from m have "map (\<lambda>j. crawlPropertyGuru w c' (trim (urls ! j)) j (length urls)) [0..<length urls] ! j
          = map Some results ! j" by simp
    with j len show "crawlPropertyGuru w c' (trim (urls ! j)) j (length urls) = Some (results ! j)"
      by simp
  qed
  then show ?thesis by blast
qed

section \<open>Tearing the browsers down\<close>

lemma crawlMultipleUrls_closes_all:
  assumes "initBrowsers w c = (None, c')" "crawlMultipleUrls w c urls = Some run"
  shows "provisioned run = browsers c' \<and> closed run = browsers c'"
proof -
  from crawlMultipleUrls_SomeD[OF assms] obtain rs where
    "\<forall>j<length urls. crawlPropertyGuru w c' (trim (urls ! j)) j (length urls) = Some (rs j)"
    by blast
  from crawlMultipleUrls_settled[OF assms(1) this] assms(2) show ?thesis by auto
qed

text \<open>
  Claim C3 holds when provisioning succeeds and fails when it does not: \<open>initBrowsers\<close> is
  awaited before the \<open>try\<close> whose \<open>finally\<close> closes the browsers. With the default
  concurrency of 3 and a third launch that throws, the batch rejects with the launch
  error, browsers 0 and 1 are left in \<open>this.browsers\<close>, and \<open>close\<close> is called on neither.
\<close>

theorem provisioning_failure_leaves_browsers_open:
  "crawlMultipleUrls thirdLaunchFailsWorld (FastCrawler noOptions) threeUrls =
     Some \<lparr>returned = Inl ''Failed to launch the browser process!'',
           provisioned = [0, 1], closed = [], emitted = []\<rparr>"
proof -
  have "initBrowsers thirdLaunchFailsWorld (FastCrawler noOptions) =
          (Some ''Failed to launch the browser process!'', (FastCrawler noOptions)\<lparr>browsers := [0, 1]\<rparr>)"
    by (simp add: initBrowsers_def initBrowsersFrom.simps FastCrawler_def noOptions_def
          orDefault_def thirdLaunchFailsWorld_def onePageWorld_def worldWith_def launchOptionsFor_def)
  from crawlMultipleUrls_init_fails[OF this] show ?thesis by simp
qed

section \<open>Outcomes of single crawls in a batch\<close>

lemma crawl_onePageTab:
  assumes "assignedBrowser c idx = Some b" "newPage w b idx = Inr onePageTab"
  shows "crawlPropertyGuru w c u idx tot =
           Some (Inr (Scraped u ''2026-01-01T00:00:00.000Z'' 1 1 [extractRow plainRow]),
                 openingEvents idx tot u @ [scrapedEvent idx tot u 1 1, completedEvent idx tot u 1])"
proof -
  have "paginate onePageTab idx tot u True [] 1 (openingEvents idx tot u) =
          Some (Inr (pagesData onePageTab 1 1, 1),
                openingEvents idx tot u @ pagesEvents onePageTab idx tot u 1 1)"
    by (rule paginate_stops_at_first_end) (simp_all add: onePageTab_def view_defs)
  moreover have "pagesData onePageTab 1 1 = [extractRow plainRow]"
    by (simp add: pagesData_def onePageTab_def view_defs extractPage_def)
  moreover have "pagesEvents onePageTab idx tot u 1 1 = [scrapedEvent idx tot u 1 1]"
    by (simp add: pagesEvents_def onePageTab_def view_defs extractPage_def)
  ultimately have "paginate onePageTab idx tot u True [] 1 (openingEvents idx tot u) =
          Some (Inr ([extractRow plainRow], 1), openingEvents idx tot u @ [scrapedEvent idx tot u 1 1])"
    by (simp del: One_nat_def)
  then have "tryCrawl c onePageTab u idx tot =
          Some (Inr (Scraped u (toISOString onePageTab) (length [extractRow plainRow]) 1
                       [extractRow plainRow]),
                (openingEvents idx tot u @ [scrapedEvent idx tot u 1 1])
                  @ [completedEvent idx tot u (length [extractRow plainRow])])"
    by (intro tryCrawl_after_loop) (simp_all add: onePageTab_def view_defs)
  moreover have "toISOString onePageTab = ''2026-01-01T00:00:00.000Z''" "closePage onePageTab = None"
    by (simp_all add: onePageTab_def tabShowing_def)
  ultimately show ?thesis
    using assms by (intro crawlPropertyGuru_fulfilled[where b = b and page = onePageTab]) simp_all
qed

lemma crawlPropertyGuru_goto_throws:
  assumes "assignedBrowser c idx = Some b" "newPage w b idx = Inr page"
    "setUserAgent page = None" "evaluateOnNewDocument page = None"
    "goto page u (timeout c) = Some err" "closePage page = None"
  shows "crawlPropertyGuru w c u idx tot =
           Some (Inr (NotScraped u err []),
                 [progress idx tot Starting u ''Navigating to page...'' None,
                  progress idx tot Error u err (Some err)])"
  using crawlPropertyGuru_caught[OF assms(1,2,6) tryCrawl_goto_throws[OF assms(3-5), of idx tot]]
  by simp

lemma crawlPropertyGuru_no_browser:
  "browsers c = [] \<Longrightarrow> crawlPropertyGuru w c u idx tot = Some (Inl ''Browser not available'', [])"
  by (simp add: crawlPropertyGuru_def assignedBrowser_def)

subsection \<open>The concrete batch\<close>

lemma threeUrls_length: "length threeUrls = 3"
  by (simp add: threeUrls_def)

lemma threeUrls_trim:
  "trim (threeUrls ! 0) = ''https://example.com/a''"
  "trim (threeUrls ! 1) = ''https://example.com/b''"
  "trim (threeUrls ! 2) = ''https://example.com/c''"
  by (simp_all add: threeUrls_def trim_def isWhiteSpace_def)

lemma upt_three: "[0..<3] = [0, 1, 2]"
  by (simp add: upt_conv_Cons numeral_3_eq_3 numeral_2_eq_2 del: upt_Suc)

lemma initBrowsers_three:
  assumes "launch w = (\<lambda>i opts. Inr i)" "concurrency c = 3" "browsers c = []"
  shows "initBrowsers w c = (None, c\<lparr>browsers := [0, 1, 2]\<rparr>)"
  using assms by (simp add: initBrowsers_def initBrowsersFrom.simps)

lemma initBrowsers_two:
  assumes "launch w = (\<lambda>i opts. Inr i)" "concurrency c = 2" "browsers c = []"
  shows "initBrowsers w c = (None, c\<lparr>browsers := [0, 1]\<rparr>)"
  using assms by (simp add: initBrowsers_def initBrowsersFrom.simps)

lemma assignedBrowser_of_three:
  assumes "browsers c = [0, 1, 2]" "j < 3"
  shows "assignedBrowser c j = Some (j mod 3)"
proof -
  from assms(2) have "j = 0 \<or> j = 1 \<or> j = 2" by arith
  then show ?thesis using assms(1) by (elim disjE) (simp_all add: assignedBrowser_def)
qed

lemma assignedBrowser_of_two:
  assumes "browsers c = [0, 1]" "j < 3"
  shows "assignedBrowser c j = Some (j mod 2)"
proof -
  from assms(2) have "j = 0 \<or> j = 1 \<or> j = 2" by arith
  then show ?thesis using assms(1)
    by (elim disjE) (simp_all add: assignedBrowser_def numeral_2_eq_2)
qed

lemma closeAll_none: "closeBrowser w = (\<lambda>b. None) \<Longrightarrow> closeAll w bs = None"
  by (simp add: closeAll_def List.map_filter_def)

lemma FastCrawler_noOptions:
  "concurrency (FastCrawler noOptions) = 3" "browsers (FastCrawler noOptions) = []"
  "timeout (FastCrawler noOptions) = 30000" "headless (FastCrawler noOptions)"
  by (simp_all add: FastCrawler_def noOptions_def orDefault_def)

lemma secondUnreachableWorld_simps:
  "launch secondUnreachableWorld = (\<lambda>i opts. Inr i)"
  "closeBrowser secondUnreachableWorld = (\<lambda>b. None)"
  "newPage secondUnreachableWorld b (Suc 0) = Inr unreachableTab"
  "j \<noteq> Suc 0 \<Longrightarrow> newPage secondUnreachableWorld b j = Inr onePageTab"
  by (simp_all add: secondUnreachableWorld_def worldWith_def)

lemma secondUnreachable_init:
  "initBrowsers secondUnreachableWorld (FastCrawler noOptions) =
     (None, (FastCrawler noOptions)\<lparr>browsers := [0, 1, 2]\<rparr>)"
  by (rule initBrowsers_three) (simp_all add: secondUnreachableWorld_simps FastCrawler_noOptions)

lemma secondUnreachable_others:
  assumes "j < 3" "j \<noteq> 1"
  shows "crawlPropertyGuru secondUnreachableWorld ((FastCrawler noOptions)\<lparr>browsers := [0, 1, 2]\<rparr>)
           (trim (threeUrls ! j)) j 3 =
         Some (Inr (Scraped (trim (threeUrls ! j)) ''2026-01-01T00:00:00.000Z'' 1 1 [extractRow plainRow]),
               openingEvents j 3 (trim (threeUrls ! j))
                 @ [scrapedEvent j 3 (trim (threeUrls ! j)) 1 1,
                    completedEvent j 3 (trim (threeUrls ! j)) 1])"
  using assms
  by (intro crawl_onePageTab[where b = "j mod 3"])
     (simp_all add: assignedBrowser_of_three secondUnreachableWorld_simps)

lemma secondUnreachable_second:
  "crawlPropertyGuru secondUnreachableWorld ((FastCrawler noOptions)\<lparr>browsers := [0, 1, 2]\<rparr>)
     (trim (threeUrls ! 1)) 1 3 =
   Some (Inr (NotScraped ''https://example.com/b'' ''net::ERR_NAME_NOT_RESOLVED'' []),
         [progress 1 3 Starting ''https://example.com/b'' ''Navigating to page...'' None,
          progress 1 3 Error ''https://example.com/b'' ''net::ERR_NAME_NOT_RESOLVED''
            (Some ''net::ERR_NAME_NOT_RESOLVED'')])"
proof -
  have ab: "assignedBrowser ((FastCrawler noOptions)\<lparr>browsers := [0, 1, 2]\<rparr>) 1 = Some 1"
    using assignedBrowser_of_three[of "(FastCrawler noOptions)\<lparr>browsers := [0, 1, 2]\<rparr>" 1] by simp
  show ?thesis
    unfolding threeUrls_trim
    by (rule crawlPropertyGuru_goto_throws[where page = unreachableTab, OF ab])
       (simp_all add: secondUnreachableWorld_simps unreachableTab_def tabShowing_def)
qed

section \<open>A URL that cannot be reached\<close>

text \<open>
  Claim C1 as stated fails in its last part. With three URLs of which the second cannot
  be reached, the batch returns three entries, and the entry of the second URL has
  \<open>success = true\<close> and \<open>error = null\<close>: the crawl caught the navigation error itself and
  fulfilled with the error shape, which is stored under \<open>data\<close>.
\<close>

theorem navigation_failure_counterexample:
  "map_option returned (crawlMultipleUrls secondUnreachableWorld (FastCrawler noOptions) threeUrls) =
     Some (Inr
       [\<lparr>entry_url = ''https://example.com/a'', success = True,
         data = Some (Scraped ''https://example.com/a'' ''2026-01-01T00:00:00.000Z'' 1 1
                        [extractRow plainRow]),
         entry_error = None\<rparr>,
        \<lparr>entry_url = '' https://example.com/b '', success = True,
         data = Some (NotScraped ''https://example.com/b'' ''net::ERR_NAME_NOT_RESOLVED'' []),
         entry_error = None\<rparr>,
        \<lparr>entry_url = ''https://example.com/c'', success = True,
         data = Some (Scraped ''https://example.com/c'' ''2026-01-01T00:00:00.000Z'' 1 1
                        [extractRow plainRow]),
         entry_error = None\<rparr>])"
proof -
  let ?w = secondUnreachableWorld
  let ?c = "FastCrawler noOptions"
  let ?c' = "?c\<lparr>browsers := [0, 1, 2]\<rparr>"
  let ?rs = "\<lambda>j::nat. if j = 1
       then (Inr (NotScraped ''https://example.com/b'' ''net::ERR_NAME_NOT_RESOLVED'' []),
             [progress 1 3 Starting ''https://example.com/b'' ''Navigating to page...'' None,
              progress 1 3 Error ''https://example.com/b'' ''net::ERR_NAME_NOT_RESOLVED''
                (Some ''net::ERR_NAME_NOT_RESOLVED'')])
       else (Inr (Scraped (trim (threeUrls ! j)) ''2026-01-01T00:00:00.000Z'' 1 1 [extractRow plainRow]),
             openingEvents j 3 (trim (threeUrls ! j))
               @ [scrapedEvent j 3 (trim (threeUrls ! j)) 1 1, completedEvent j 3 (trim (threeUrls ! j)) 1])"
  have rs: "\<forall>j<length threeUrls.
              crawlPropertyGuru ?w ?c' (trim (threeUrls ! j)) j (length threeUrls) = Some (?rs j)"
    unfolding threeUrls_length
  proof (intro allI impI)
    fix j :: nat assume j: "j < 3"
    show "crawlPropertyGuru ?w ?c' (trim (threeUrls ! j)) j 3 = Some (?rs j)"
    proof (cases "j = 1")
      case True
      with secondUnreachable_second show ?thesis by (simp del: One_nat_def)
    next
      case False
      with secondUnreachable_others[OF j] show ?thesis by simp
    qed
  qed
  have close: "closeAll ?w (browsers ?c') = None"
    by (rule closeAll_none) (simp add: secondUnreachableWorld_simps)
  have "map_option returned (crawlMultipleUrls ?w ?c threeUrls) =
          Some (Inr (map (\<lambda>j. toEntry (threeUrls ! j) (fst (?rs j))) [0..<length threeUrls]))"
    unfolding crawlMultipleUrls_settled[OF secondUnreachable_init rs] close by simp
  also have "[0..<length threeUrls] = [0, 1, 2]"
    unfolding threeUrls_length by (rule upt_three)
  finally show ?thesis
    by (simp add: toEntry_def threeUrls_trim del: One_nat_def) (simp add: threeUrls_def)
qed

text \<open>
  Claim C1, amended. Let provisioning and teardown succeed, let the navigation of the
  URL at index \<open>i\<close> throw \<open>err\<close>, and let the crawl of every other URL settle with its own
  outcome \<open>rs j\<close>. Then the batch returns one entry per URL; every other URL's entry is
  built from that URL's own outcome; and the entry of the failing URL carries the
  captured message inside \<open>data\<close>, as
  \<open>{ url, error: err, transactions: [] }\<close>, while the entry itself is marked
  \<open>success = true\<close> with \<open>error = null\<close>.
\<close>

theorem navigation_failure_is_isolated:
  "initBrowsers w c = (None, c') \<and> closeAll w (browsers c') = None
   \<and> i < length urls
   \<and> (\<forall>j<length urls. j \<noteq> i \<longrightarrow>
         crawlPropertyGuru w c' (trim (urls ! j)) j (length urls) = Some (rs j))
   \<and> assignedBrowser c' i = Some b \<and> newPage w b i = Inr page
   \<and> setUserAgent page = None \<and> evaluateOnNewDocument page = None
   \<and> goto page (trim (urls ! i)) (timeout c') = Some err \<and> closePage page = None
   \<longrightarrow> (\<exists>entries.
          map_option returned (crawlMultipleUrls w c urls) = Some (Inr entries)
          \<and> length entries = length urls
          \<and> entries ! i =
              \<lparr>entry_url = urls ! i, success = True,
               data = Some (NotScraped (trim (urls ! i)) err []), entry_error = None\<rparr>
          \<and> (\<forall>j<length urls. j \<noteq> i \<longrightarrow> entries ! j = toEntry (urls ! j) (fst (rs j))))"
proof
  assume h: "initBrowsers w c = (None, c') \<and> closeAll w (browsers c') = None
   \<and> i < length urls
   \<and> (\<forall>j<length urls. j \<noteq> i \<longrightarrow>
         crawlPropertyGuru w c' (trim (urls ! j)) j (length urls) = Some (rs j))
   \<and> assignedBrowser c' i = Some b \<and> newPage w b i = Inr page
   \<and> setUserAgent page = None \<and> evaluateOnNewDocument page = None
   \<and> goto page (trim (urls ! i)) (timeout c') = Some err \<and> closePage page = None"
  let ?u = "trim (urls ! i)"
  let ?n = "length urls"
  let ?failed = "(Inr (NotScraped ?u err []),
                  [progress i ?n Starting ?u ''Navigating to page...'' None,
                   progress i ?n Error ?u err (Some err)])"
  let ?rs = "rs(i := ?failed)"
  let ?entries = "map (\<lambda>j. toEntry (urls ! j) (fst (?rs j))) [0..<?n]"
  from h have "crawlPropertyGuru w c' ?u i ?n = Some ?failed"
    by (intro crawlPropertyGuru_goto_throws[where b = b and page = page]) simp_all
  with h have all: "\<forall>j<?n. crawlPropertyGuru w c' (trim (urls ! j)) j ?n = Some (?rs j)"
    by simp
  from h have init: "initBrowsers w c = (None, c')" and close: "closeAll w (browsers c') = None"
    and i: "i < ?n"
    by simp_all
  have "map_option returned (crawlMultipleUrls w c urls) = Some (Inr ?entries)"
    unfolding crawlMultipleUrls_settled[OF init all] close by simp
  moreover have "length ?entries = ?n" by simp
  moreover have "?entries ! i =
              \<lparr>entry_url = urls ! i, success = True,
               data = Some (NotScraped ?u err []), entry_error = None\<rparr>"
    using i by (simp add: toEntry_def)
  moreover have "\<forall>j<?n. j \<noteq> i \<longrightarrow> ?entries ! j = toEntry (urls ! j) (fst (rs j))"
    by simp
  ultimately show "\<exists>entries.
          map_option returned (crawlMultipleUrls w c urls) = Some (Inr entries)
          \<and> length entries = length urls
          \<and> entries ! i =
              \<lparr>entry_url = urls ! i, success = True,
               data = Some (NotScraped (trim (urls ! i)) err []), entry_error = None\<rparr>
          \<and> (\<forall>j<length urls. j \<noteq> i \<longrightarrow> entries ! j = toEntry (urls ! j) (fst (rs j)))"
    by blast
qed

text \<open>
  The amended claim on the batch of three URLs whose second one cannot be reached.
\<close>

theorem navigation_failure_is_isolated_witness:
  "\<exists>entries.
     map_option returned (crawlMultipleUrls secondUnreachableWorld (FastCrawler noOptions) threeUrls) =
       Some (Inr entries)
     \<and> length entries = 3
     \<and> entries ! 1 =
         \<lparr>entry_url = '' https://example.com/b '', success = True,
          data = Some (NotScraped ''https://example.com/b'' ''net::ERR_NAME_NOT_RESOLVED'' []),
          entry_error = None\<rparr>
     \<and> entries ! 0 =
         \<lparr>entry_url = ''https://example.com/a'', success = True,
          data = Some (Scraped ''https://example.com/a'' ''2026-01-01T00:00:00.000Z'' 1 1
                         [extractRow plainRow]),
          entry_error = None\<rparr>
     \<and> entries ! 2 =
         \<lparr>entry_url = ''https://example.com/c'', success = True,
          data = Some (Scraped ''https://example.com/c'' ''2026-01-01T00:00:00.000Z'' 1 1
                         [extractRow plainRow]),
          entry_error = None\<rparr>"
proof -
  let ?w = secondUnreachableWorld
  let ?c = "FastCrawler noOptions"
  let ?c' = "?c\<lparr>browsers := [0, 1, 2]\<rparr>"
  let ?rs = "\<lambda>j::nat.
        (Inr (Scraped (trim (threeUrls ! j)) ''2026-01-01T00:00:00.000Z'' 1 1 [extractRow plainRow])
           :: string + crawl_result,
         openingEvents j 3 (trim (threeUrls ! j))
           @ [scrapedEvent j 3 (trim (threeUrls ! j)) 1 1, completedEvent j 3 (trim (threeUrls ! j)) 1])"
  have others: "\<forall>j<length threeUrls. j \<noteq> 1 \<longrightarrow>
         crawlPropertyGuru ?w ?c' (trim (threeUrls ! j)) j (length threeUrls) = Some (?rs j)"
    unfolding threeUrls_length using secondUnreachable_others by blast
  have close: "closeAll ?w (browsers ?c') = None"
    by (rule closeAll_none) (simp add: secondUnreachableWorld_simps)
  have ab: "assignedBrowser ?c' 1 = Some 1"
    using assignedBrowser_of_three[of ?c' 1] by simp
  have page: "newPage ?w 1 1 = Inr unreachableTab"
    by (simp add: secondUnreachableWorld_simps)
  have tab: "setUserAgent unreachableTab = None" "evaluateOnNewDocument unreachableTab = None"
    "goto unreachableTab (trim (threeUrls ! 1)) (timeout ?c') = Some ''net::ERR_NAME_NOT_RESOLVED''"
    "closePage unreachableTab = None"
    by (simp_all add: unreachableTab_def tabShowing_def)
  have i: "1 < length threeUrls" by (simp add: threeUrls_length)
  from navigation_failure_is_isolated[where w = ?w and c = ?c and c' = ?c' and i = 1
      and urls = threeUrls and rs = ?rs and b = 1 and page = unreachableTab
      and err = "''net::ERR_NAME_NOT_RESOLVED''"]
    secondUnreachable_init close i others ab page tab
  obtain entries where
    e: "map_option returned (crawlMultipleUrls ?w ?c threeUrls) = Some (Inr entries)"
    "length entries = length threeUrls"
    "entries ! 1 =
       \<lparr>entry_url = threeUrls ! 1, success = True,
        data = Some (NotScraped (trim (threeUrls ! 1)) ''net::ERR_NAME_NOT_RESOLVED'' []),
        entry_error = None\<rparr>"
    "\<forall>j<length threeUrls. j \<noteq> 1 \<longrightarrow> entries ! j = toEntry (threeUrls ! j) (fst (?rs j))"
    by blast
  from e(4) have "entries ! 0 = toEntry (threeUrls ! 0) (fst (?rs 0))"
    "entries ! 2 = toEntry (threeUrls ! 2) (fst (?rs 2))"
    by (simp_all add: threeUrls_length)
  then have e0: "entries ! 0 =
         \<lparr>entry_url = ''https://example.com/a'', success = True,
          data = Some (Scraped ''https://example.com/a'' ''2026-01-01T00:00:00.000Z'' 1 1
                         [extractRow plainRow]),
          entry_error = None\<rparr>"
    and e2: "entries ! 2 =
         \<lparr>entry_url = ''https://example.com/c'', success = True,
          data = Some (Scraped ''https://example.com/c'' ''2026-01-01T00:00:00.000Z'' 1 1
                         [extractRow plainRow]),
          entry_error = None\<rparr>"
    unfolding threeUrls_trim by (simp_all add: toEntry_def threeUrls_def)
  from e(3) have e1: "entries ! 1 =
         \<lparr>entry_url = '' https://example.com/b '', success = True,
          data = Some (NotScraped ''https://example.com/b'' ''net::ERR_NAME_NOT_RESOLVED'' []),
          entry_error = None\<rparr>"
    unfolding threeUrls_trim by (simp add: threeUrls_def)
  from e(1) e(2) e0 e1 e2 show ?thesis
    unfolding threeUrls_length by blast
qed

section \<open>Round-robin assignment and ordered results\<close>

lemma onePageWorld_simps:
  "launch onePageWorld = (\<lambda>i opts. Inr i)"
  "closeBrowser onePageWorld = (\<lambda>b. None)"
  "newPage onePageWorld b j = Inr onePageTab"
  by (simp_all add: onePageWorld_def worldWith_def)

lemma FastCrawler_fresh:
  "concurrency (FastCrawler options) = orDefault (opt_concurrency options) 3"
  "browsers (FastCrawler options) = []"
  by (simp_all add: FastCrawler_def)

lemma initBrowsers_not_positive:
  "concurrency c \<le> 0 \<Longrightarrow> initBrowsers w c = (None, c)"
  unfolding initBrowsers_def by (rule initBrowsersFrom_none) simp

lemma assignedBrowser_round_robin:
  assumes "bs \<noteq> []" "browsers c = bs"
  shows "assignedBrowser c i = Some (bs ! (i mod length bs))"
  using assms by (simp add: assignedBrowser_def)

text \<open>
  Claim C4 as stated fails for a concurrency that is not positive. With
  \<open>concurrency: -1\<close> the crawler keeps \<open>-1\<close>, the provisioning loop does not run, no browser
  is provisioned, and every URL's crawl rejects with \<open>Browser not available\<close>; with
  \<open>concurrency: 0\<close> the default takes over and three browsers are provisioned.
\<close>

theorem concurrency_not_positive_counterexample:
  "concurrency (FastCrawler minusOneBrowsers) = - 1
   \<and> crawlMultipleUrls onePageWorld (FastCrawler minusOneBrowsers) threeUrls =
       Some \<lparr>returned = Inr
               [\<lparr>entry_url = ''https://example.com/a'', success = False, data = None,
                 entry_error = Some ''Browser not available''\<rparr>,
                \<lparr>entry_url = '' https://example.com/b '', success = False, data = None,
                 entry_error = Some ''Browser not available''\<rparr>,
                \<lparr>entry_url = ''https://example.com/c'', success = False, data = None,
                 entry_error = Some ''Browser not available''\<rparr>],
             provisioned = [], closed = [], emitted = [ [], [], [] ]\<rparr>
   \<and> concurrency (FastCrawler zeroBrowsers) = 3
   \<and> initBrowsers onePageWorld (FastCrawler zeroBrowsers) =
       (None, (FastCrawler zeroBrowsers)\<lparr>browsers := [0, 1, 2]\<rparr>)"
proof -
  let ?c = "FastCrawler minusOneBrowsers"
  have c: "concurrency ?c = - 1" "browsers ?c = []"
    by (simp_all add: FastCrawler_def minusOneBrowsers_def orDefault_def)
  have init: "initBrowsers onePageWorld ?c = (None, ?c)"
    by (rule initBrowsers_not_positive) (simp add: c)
  have rs: "\<forall>j<length threeUrls.
              crawlPropertyGuru onePageWorld ?c (trim (threeUrls ! j)) j (length threeUrls) =
                Some (Inl ''Browser not available'', [])"
    by (simp add: crawlPropertyGuru_no_browser c)
  have close: "closeAll onePageWorld (browsers ?c) = None"
    by (rule closeAll_none) (simp add: onePageWorld_simps)
  have run: "crawlMultipleUrls onePageWorld ?c threeUrls =
       Some \<lparr>returned = Inr
               [\<lparr>entry_url = ''https://example.com/a'', success = False, data = None,
                 entry_error = Some ''Browser not available''\<rparr>,
                \<lparr>entry_url = '' https://example.com/b '', success = False, data = None,
                 entry_error = Some ''Browser not available''\<rparr>,
                \<lparr>entry_url = ''https://example.com/c'', success = False, data = None,
                 entry_error = Some ''Browser not available''\<rparr>],
             provisioned = [], closed = [], emitted = [ [], [], [] ]\<rparr>"
    unfolding crawlMultipleUrls_settled[OF init rs] close threeUrls_length upt_three
    by (simp add: c toEntry_def threeUrls_def)
  have z: "concurrency (FastCrawler zeroBrowsers) = 3" "browsers (FastCrawler zeroBrowsers) = []"
    by (simp_all add: FastCrawler_def zeroBrowsers_def orDefault_def)
  have "initBrowsers onePageWorld (FastCrawler zeroBrowsers) =
       (None, (FastCrawler zeroBrowsers)\<lparr>browsers := [0, 1, 2]\<rparr>)"
    by (rule initBrowsers_three) (simp_all add: onePageWorld_simps z)
  with c(1) run z(1) show ?thesis by simp
qed

lemma those_None_iff: "those xs = None \<longleftrightarrow> None \<in> set xs"
  by (induction xs) (auto split: option.splits)

lemma crawlMultipleUrls_None_iff:
  assumes init: "initBrowsers w c = (None, c')"
  shows "crawlMultipleUrls w c urls = None \<longleftrightarrow>
           (\<exists>j<length urls. crawlPropertyGuru w c' (trim (urls ! j)) j (length urls) = None)"
proof
  assume n: "crawlMultipleUrls w c urls = None"
  show "\<exists>j<length urls. crawlPropertyGuru w c' (trim (urls ! j)) j (length urls) = None"
  proof (rule ccontr)
    assume "\<not> (\<exists>j<length urls. crawlPropertyGuru w c' (trim (urls ! j)) j (length urls) = None)"
    then have "\<forall>j<length urls. crawlPropertyGuru w c' (trim (urls ! j)) j (length urls) =
                 Some (the (crawlPropertyGuru w c' (trim (urls ! j)) j (length urls)))"
      by auto
    from crawlMultipleUrls_settled[OF init this] n show False by simp
  qed
next
  assume "\<exists>j<length urls. crawlPropertyGuru w c' (trim (urls ! j)) j (length urls) = None"
  then obtain j where j: "j < length urls"
    "crawlPropertyGuru w c' (trim (urls ! j)) j (length urls) = None" by blast
  have "map (\<lambda>(index, u). crawlPropertyGuru w c' (trim u) index (length urls)) (enumerate 0 urls) ! j
          = None"
    unfolding map_enumerate_nth using j by simp
  moreover have "j < length (map (\<lambda>(index, u). crawlPropertyGuru w c' (trim u) index (length urls))
                     (enumerate 0 urls))"
    using j by simp
  ultimately have "None \<in> set (map (\<lambda>(index, u). crawlPropertyGuru w c' (trim u) index (length urls))
                     (enumerate 0 urls))"
    by (metis nth_mem)
  then have "those (map (\<lambda>(index, u). crawlPropertyGuru w c' (trim u) index (length urls))
                     (enumerate 0 urls)) = None"
    by (simp only: those_None_iff)
  then show "crawlMultipleUrls w c urls = None"
    unfolding crawlMultipleUrls_def init by (simp only: prod.case option.case)
qed

lemma entry_url_toEntry: "entry_url (toEntry x y) = x"
  by (cases y) (simp_all add: toEntry_def)

lemma crawl_endlessTab:
  assumes "assignedBrowser c idx = Some b" "newPage w b idx = Inr endlessTab"
  shows "crawlPropertyGuru w c u idx tot = None"
proof -
  have "paginate endlessTab idx tot u True [] 1 (openingEvents idx tot u) = None"
    by (rule paginate_loops_forever) (simp add: endlessTab_def view_defs)
  then have "tryCrawl c endlessTab u idx tot = None"
    by (simp add: tryCrawl_def openingEvents_def endlessTab_def tabShowing_def)
  with assms show ?thesis by (simp add: crawlPropertyGuru_def)
qed

text \<open>
  Claim C4, amended. Take a fresh crawler whose concurrency \<open>C\<close> is at least 1
  (\<open>C\<close> is \<open>options.concurrency\<close>, or 3 when that is missing or 0), and let every launch
  succeed. Then provisioning returns with exactly \<open>C\<close> browsers, whatever the URLs and
  whatever their crawls do afterwards, and the crawl of the URL at index \<open>i\<close> opens its
  tab in browser \<open>i mod C\<close>. The batch settles exactly when every crawl settles. Once
  every crawl has settled, the batch does return: all \<open>C\<close> browsers have been closed,
  and, when teardown does not throw, the result has one entry per URL in input order,
  each carrying its own URL and built from the outcome of that URL's crawl. With a
  concurrency below 1 nothing is provisioned and every crawl rejects with
  \<open>Browser not available\<close>.
\<close>

theorem round_robin_over_C_browsers:
  "(browsers c = [] \<and> 1 \<le> concurrency c \<and> launchesSucceed w c
    \<longrightarrow> initBrowsers w c =
          (None, c\<lparr>browsers := map (launched w c) [0..<nat (concurrency c)]\<rparr>)
        \<and> int (length (browsers (snd (initBrowsers w c)))) = concurrency c
        \<and> (\<forall>i. assignedBrowser (snd (initBrowsers w c)) i =
                  Some (browsers (snd (initBrowsers w c)) ! (i mod nat (concurrency c))))
        \<and> (\<forall>i v t. crawlPropertyGuru w (snd (initBrowsers w c)) v i t =
                  (case newPage w (browsers (snd (initBrowsers w c)) ! (i mod nat (concurrency c))) i of
                     Inl err \<Rightarrow> Some (Inl err, [])
                   | Inr page \<Rightarrow>
                       map_option (\<lambda>r. finallyClose page (catchCrawl v i t r))
                         (tryCrawl (snd (initBrowsers w c)) page v i t)))
        \<and> (crawlMultipleUrls w c urls = None \<longleftrightarrow>
             (\<exists>j<length urls.
                crawlPropertyGuru w (snd (initBrowsers w c)) (trim (urls ! j)) j (length urls)
                  = None))
        \<and> ((\<forall>j<length urls.
               crawlPropertyGuru w (snd (initBrowsers w c)) (trim (urls ! j)) j (length urls)
                 = Some (rs j))
            \<longrightarrow> crawlMultipleUrls w c urls =
                  Some \<lparr>returned =
                          (case closeAll w (browsers (snd (initBrowsers w c))) of
                             Some err \<Rightarrow> Inl err
                           | None \<Rightarrow>
                               Inr (map (\<lambda>j. toEntry (urls ! j) (fst (rs j))) [0..<length urls])),
                        provisioned = browsers (snd (initBrowsers w c)),
                        closed = browsers (snd (initBrowsers w c)),
                        emitted = map (\<lambda>j. snd (rs j)) [0..<length urls]\<rparr>
                \<and> length (map (\<lambda>j. toEntry (urls ! j) (fst (rs j))) [0..<length urls])
                    = length urls
                \<and> map entry_url (map (\<lambda>j. toEntry (urls ! j) (fst (rs j))) [0..<length urls])
                    = urls)
        \<and> (\<forall>run. crawlMultipleUrls w c urls = Some run \<longrightarrow>
              int (length (provisioned run)) = concurrency c
              \<and> provisioned run = map (launched w c) [0..<nat (concurrency c)]
              \<and> closed run = provisioned run
              \<and> (\<forall>entries. returned run = Inr entries \<longrightarrow>
                    length entries = length urls \<and> map entry_url entries = urls
                    \<and> (\<forall>j<length urls. \<exists>r.
                          crawlPropertyGuru w (snd (initBrowsers w c)) (trim (urls ! j)) j
                            (length urls) = Some r
                          \<and> entries ! j = toEntry (urls ! j) (fst r)))))
   \<and> concurrency (FastCrawler options) = orDefault (opt_concurrency options) 3
   \<and> browsers (FastCrawler options) = []
   \<and> orDefault None 3 = 3 \<and> orDefault (Some 0) 3 = 3
   \<and> (browsers c = [] \<and> concurrency c < 1
        \<longrightarrow> initBrowsers w c = (None, c)
            \<and> crawlPropertyGuru w c u i n = Some (Inl ''Browser not available'', []))"
proof (intro conjI impI)
  assume h: "browsers c = [] \<and> 1 \<le> concurrency c \<and> launchesSucceed w c"
  let ?bs = "map (launched w c) [0..<nat (concurrency c)]"
  let ?c' = "c\<lparr>browsers := ?bs\<rparr>"
  from h show init: "initBrowsers w c = (None, ?c')"
    using initBrowsers_ok[of w c] by simp
  then have c': "snd (initBrowsers w c) = ?c'" by simp
  show "int (length (browsers (snd (initBrowsers w c)))) = concurrency c"
    using h by (simp add: c')
  have ne: "?bs \<noteq> []" using h by simp
  have len: "length ?bs = nat (concurrency c)" by simp
  show ab: "\<forall>i. assignedBrowser (snd (initBrowsers w c)) i =
                  Some (browsers (snd (initBrowsers w c)) ! (i mod nat (concurrency c)))"
    unfolding c' using assignedBrowser_round_robin[OF ne, of ?c'] by (simp only: len) simp
  show "\<forall>i v t. crawlPropertyGuru w (snd (initBrowsers w c)) v i t =
                  (case newPage w (browsers (snd (initBrowsers w c)) ! (i mod nat (concurrency c))) i of
                     Inl err \<Rightarrow> Some (Inl err, [])
                   | Inr page \<Rightarrow>
                       map_option (\<lambda>r. finallyClose page (catchCrawl v i t r))
                         (tryCrawl (snd (initBrowsers w c)) page v i t))"
    using ab by (simp add: crawlPropertyGuru_def)
  show "crawlMultipleUrls w c urls = None \<longleftrightarrow>
             (\<exists>j<length urls.
                crawlPropertyGuru w (snd (initBrowsers w c)) (trim (urls ! j)) j (length urls)
                  = None)"
    unfolding c' by (rule crawlMultipleUrls_None_iff[OF init])
  {
    assume rs: "\<forall>j<length urls.
               crawlPropertyGuru w (snd (initBrowsers w c)) (trim (urls ! j)) j (length urls)
                 = Some (rs j)"
    then have rs': "\<forall>j<length urls.
               crawlPropertyGuru w ?c' (trim (urls ! j)) j (length urls) = Some (rs j)"
      by (simp only: c')
    show "crawlMultipleUrls w c urls =
                  Some \<lparr>returned =
                          (case closeAll w (browsers (snd (initBrowsers w c))) of
                             Some err \<Rightarrow> Inl err
                           | None \<Rightarrow>
                               Inr (map (\<lambda>j. toEntry (urls ! j) (fst (rs j))) [0..<length urls])),
                        provisioned = browsers (snd (initBrowsers w c)),
                        closed = browsers (snd (initBrowsers w c)),
                        emitted = map (\<lambda>j. snd (rs j)) [0..<length urls]\<rparr>"
      unfolding c' by (rule crawlMultipleUrls_settled[OF init rs'])
    show "length (map (\<lambda>j. toEntry (urls ! j) (fst (rs j))) [0..<length urls]) = length urls"
      by simp
    show "map entry_url (map (\<lambda>j. toEntry (urls ! j) (fst (rs j))) [0..<length urls]) = urls"
      by (rule nth_equalityI) (simp_all add: entry_url_toEntry)
  }
  show "\<forall>run. crawlMultipleUrls w c urls = Some run \<longrightarrow>
              int (length (provisioned run)) = concurrency c
              \<and> provisioned run = map (launched w c) [0..<nat (concurrency c)]
              \<and> closed run = provisioned run
              \<and> (\<forall>entries. returned run = Inr entries \<longrightarrow>
                    length entries = length urls \<and> map entry_url entries = urls
                    \<and> (\<forall>j<length urls. \<exists>r.
                          crawlPropertyGuru w (snd (initBrowsers w c)) (trim (urls ! j)) j
                            (length urls) = Some r
                          \<and> entries ! j = toEntry (urls ! j) (fst r)))"
  proof (intro allI impI)
    fix run assume run: "crawlMultipleUrls w c urls = Some run"
    from crawlMultipleUrls_closes_all[OF init run]
    have p: "provisioned run = ?bs" and cl: "closed run = ?bs" by simp_all
    from crawlMultipleUrls_SomeD[OF init run] obtain rs where
      rs: "\<forall>j<length urls. crawlPropertyGuru w ?c' (trim (urls ! j)) j (length urls) = Some (rs j)"
      by blast
    have en: "\<forall>entries. returned run = Inr entries \<longrightarrow>
                    length entries = length urls \<and> map entry_url entries = urls
                    \<and> (\<forall>j<length urls. \<exists>r.
                          crawlPropertyGuru w (snd (initBrowsers w c)) (trim (urls ! j)) j
                            (length urls) = Some r
                          \<and> entries ! j = toEntry (urls ! j) (fst r))"
    proof (intro allI impI)
      fix entries assume r: "returned run = Inr entries"
      from crawlMultipleUrls_settled[OF init rs] run r
      have e: "entries = map (\<lambda>j. toEntry (urls ! j) (fst (rs j))) [0..<length urls]"
        by (cases "closeAll w (browsers ?c')") auto
      have "map entry_url entries = urls"
        unfolding e by (rule nth_equalityI) (simp_all add: entry_url_toEntry)
      moreover have "length entries = length urls" by (simp add: e)
      moreover have "\<forall>j<length urls. \<exists>r.
            crawlPropertyGuru w (snd (initBrowsers w c)) (trim (urls ! j)) j (length urls) = Some r
            \<and> entries ! j = toEntry (urls ! j) (fst r)"
        using rs by (simp add: c' e)
      ultimately show "length entries = length urls \<and> map entry_url entries = urls
                \<and> (\<forall>j<length urls. \<exists>r.
                      crawlPropertyGuru w (snd (initBrowsers w c)) (trim (urls ! j)) j (length urls)
                        = Some r
                      \<and> entries ! j = toEntry (urls ! j) (fst r))"
        by blast
    qed
    from h have "int (length (provisioned run)) = concurrency c" by (simp add: p)
    with p cl en show "int (length (provisioned run)) = concurrency c
              \<and> provisioned run = map (launched w c) [0..<nat (concurrency c)]
              \<and> closed run = provisioned run
              \<and> (\<forall>entries. returned run = Inr entries \<longrightarrow>
                    length entries = length urls \<and> map entry_url entries = urls
                    \<and> (\<forall>j<length urls. \<exists>r.
                          crawlPropertyGuru w (snd (initBrowsers w c)) (trim (urls ! j)) j
                            (length urls) = Some r
                          \<and> entries ! j = toEntry (urls ! j) (fst r)))"
      by simp
  qed
next
  show "concurrency (FastCrawler options) = orDefault (opt_concurrency options) 3"
    by (rule FastCrawler_fresh)
  show "browsers (FastCrawler options) = []" by (rule FastCrawler_fresh)
  show "orDefault None 3 = 3" "orDefault (Some 0) 3 = 3" by (simp_all add: orDefault_def)
next
  assume h: "browsers c = [] \<and> concurrency c < 1"
  then show "initBrowsers w c = (None, c)" by (intro initBrowsers_not_positive) simp
  from h show "crawlPropertyGuru w c u i n = Some (Inl ''Browser not available'', [])"
    by (intro crawlPropertyGuru_no_browser) simp
qed

text \<open>
  The amended claim on a batch of three URLs with a concurrency of 2: browsers 0 and 1
  are provisioned, the third URL goes to browser 0, the batch returns with both
  browsers closed and three entries carrying the three URLs in input order. On the
  site whose second URL paginates for ever the same two browsers are provisioned and
  the batch never settles. On a crawler with a concurrency of -1 nothing is provisioned.
\<close>

theorem round_robin_over_C_browsers_witness:
  "concurrency (FastCrawler twoBrowsers) = 2
   \<and> initBrowsers onePageWorld (FastCrawler twoBrowsers) =
       (None, (FastCrawler twoBrowsers)\<lparr>browsers := [0, 1]\<rparr>)
   \<and> map_option provisioned (crawlMultipleUrls onePageWorld (FastCrawler twoBrowsers) threeUrls) =
       Some [0, 1]
   \<and> map_option closed (crawlMultipleUrls onePageWorld (FastCrawler twoBrowsers) threeUrls) =
       Some [0, 1]
   \<and> assignedBrowser (snd (initBrowsers onePageWorld (FastCrawler twoBrowsers))) 2 = Some 0
   \<and> (\<exists>entries.
         map_option returned (crawlMultipleUrls onePageWorld (FastCrawler twoBrowsers) threeUrls) =
           Some (Inr entries)
         \<and> length entries = 3 \<and> map entry_url entries = threeUrls)
   \<and> initBrowsers secondEndlessWorld (FastCrawler twoBrowsers) =
       (None, (FastCrawler twoBrowsers)\<lparr>browsers := [0, 1]\<rparr>)
   \<and> crawlMultipleUrls secondEndlessWorld (FastCrawler twoBrowsers) threeUrls = None
   \<and> initBrowsers onePageWorld (FastCrawler minusOneBrowsers) =
       (None, FastCrawler minusOneBrowsers)
   \<and> crawlPropertyGuru onePageWorld (FastCrawler minusOneBrowsers) ''https://example.com/a'' 0 3 =
       Some (Inl ''Browser not available'', [])"
proof -
  let ?w = onePageWorld
  let ?c = "FastCrawler twoBrowsers"
  let ?c' = "?c\<lparr>browsers := [0, 1]\<rparr>"
  let ?rs = "\<lambda>j::nat.
        (Inr (Scraped (trim (threeUrls ! j)) ''2026-01-01T00:00:00.000Z'' 1 1 [extractRow plainRow])
           :: string + crawl_result,
         openingEvents j 3 (trim (threeUrls ! j))
           @ [scrapedEvent j 3 (trim (threeUrls ! j)) 1 1, completedEvent j 3 (trim (threeUrls ! j)) 1])"
  have c: "concurrency ?c = 2" "browsers ?c = []"
    by (simp_all add: FastCrawler_def twoBrowsers_def orDefault_def)
  have two: "map (launched w ?c) [0..<nat (concurrency ?c)] = [0, 1]"
    if "launch w = (\<lambda>i opts. Inr i)" for w
    using that by (simp add: c launched_def upt_conv_Cons numeral_2_eq_2 del: upt_Suc)
  have pre: "browsers ?c = [] \<and> 1 \<le> concurrency ?c \<and> launchesSucceed ?w ?c"
    by (simp add: c launchesSucceed_def onePageWorld_simps)
  note T = round_robin_over_C_browsers[where c = ?c and w = ?w and urls = threeUrls
      and rs = ?rs and options = twoBrowsers]
  from T pre have "initBrowsers ?w ?c =
      (None, ?c\<lparr>browsers := map (launched ?w ?c) [0..<nat (concurrency ?c)]\<rparr>)"
    by blast
  then have init: "initBrowsers ?w ?c = (None, ?c')"
    by (simp only: two[OF onePageWorld_simps(1)])
  then have c': "snd (initBrowsers ?w ?c) = ?c'" by simp
  from T pre have "\<forall>i. assignedBrowser (snd (initBrowsers ?w ?c)) i =
                  Some (browsers (snd (initBrowsers ?w ?c)) ! (i mod nat (concurrency ?c)))"
    by blast
  then have "assignedBrowser (snd (initBrowsers ?w ?c)) 2 =
                  Some (browsers (snd (initBrowsers ?w ?c)) ! (2 mod nat (concurrency ?c)))"
    by blast
  then have a2: "assignedBrowser (snd (initBrowsers ?w ?c)) 2 = Some 0"
    by (simp add: c c')
  have rs: "\<forall>j<length threeUrls.
              crawlPropertyGuru ?w (snd (initBrowsers ?w ?c)) (trim (threeUrls ! j)) j
                (length threeUrls) = Some (?rs j)"
    unfolding threeUrls_length c'
  proof (intro allI impI)
    fix j :: nat assume j: "j < 3"
    show "crawlPropertyGuru ?w ?c' (trim (threeUrls ! j)) j 3 = Some (?rs j)"
      by (rule crawl_onePageTab[where b = "j mod 2"])
         (simp_all add: assignedBrowser_of_two j onePageWorld_simps)
  qed
  have close: "closeAll ?w (browsers (snd (initBrowsers ?w ?c))) = None"
    by (rule closeAll_none) (simp add: onePageWorld_simps)
  let ?entries = "map (\<lambda>j. toEntry (threeUrls ! j) (fst (?rs j))) [0..<length threeUrls]"
  from T pre rs
  have run: "crawlMultipleUrls ?w ?c threeUrls =
                  Some \<lparr>returned =
                          (case closeAll ?w (browsers (snd (initBrowsers ?w ?c))) of
                             Some err \<Rightarrow> Inl err
                           | None \<Rightarrow> Inr ?entries),
                        provisioned = browsers (snd (initBrowsers ?w ?c)),
                        closed = browsers (snd (initBrowsers ?w ?c)),
                        emitted = map (\<lambda>j. snd (?rs j)) [0..<length threeUrls]\<rparr>"
    and en: "length ?entries = length threeUrls" "map entry_url ?entries = threeUrls"
    by blast+
  from run have p: "map_option provisioned (crawlMultipleUrls ?w ?c threeUrls) = Some [0, 1]"
    "map_option closed (crawlMultipleUrls ?w ?c threeUrls) = Some [0, 1]"
    by (simp_all add: c')
  from run close have "map_option returned (crawlMultipleUrls ?w ?c threeUrls) = Some (Inr ?entries)"
    by simp
  with en have ex: "\<exists>entries.
         map_option returned (crawlMultipleUrls ?w ?c threeUrls) = Some (Inr entries)
         \<and> length entries = 3 \<and> map entry_url entries = threeUrls"
    unfolding threeUrls_length by blast
  let ?e = secondEndlessWorld
  have es: "launch ?e = (\<lambda>i opts. Inr i)" "newPage ?e b (Suc 0) = Inr endlessTab" for b
    by (simp_all add: secondEndlessWorld_def worldWith_def)
  have pre': "browsers ?c = [] \<and> 1 \<le> concurrency ?c \<and> launchesSucceed ?e ?c"
    by (simp add: c launchesSucceed_def es)
  note E = round_robin_over_C_browsers[where c = ?c and w = ?e and urls = threeUrls]
  from E pre' have "initBrowsers ?e ?c =
      (None, ?c\<lparr>browsers := map (launched ?e ?c) [0..<nat (concurrency ?c)]\<rparr>)"
    by blast
  then have init': "initBrowsers ?e ?c = (None, ?c')"
    by (simp only: two[OF es(1)])
  have "crawlPropertyGuru ?e (snd (initBrowsers ?e ?c)) (trim (threeUrls ! 1)) 1 (length threeUrls)
          = None"
    unfolding init' snd_conv
    by (rule crawl_endlessTab[where b = 1])
       (simp_all add: assignedBrowser_of_two[where j = 1, simplified] es)
  then have "\<exists>j<length threeUrls.
      crawlPropertyGuru ?e (snd (initBrowsers ?e ?c)) (trim (threeUrls ! j)) j (length threeUrls)
        = None"
    using threeUrls_length by (intro exI[of _ 1]) simp
  with E pre' have endless: "crawlMultipleUrls ?e ?c threeUrls = None"
    by blast
  have m: "browsers (FastCrawler minusOneBrowsers) = []
      \<and> concurrency (FastCrawler minusOneBrowsers) < 1"
    by (simp add: FastCrawler_def minusOneBrowsers_def orDefault_def)
  from round_robin_over_C_browsers[where c = "FastCrawler minusOneBrowsers" and w = ?w
      and u = "''https://example.com/a''" and i = 0 and n = 3] m
  have neg: "initBrowsers ?w (FastCrawler minusOneBrowsers) = (None, FastCrawler minusOneBrowsers)
      \<and> crawlPropertyGuru ?w (FastCrawler minusOneBrowsers) ''https://example.com/a'' 0 3 =
          Some (Inl ''Browser not available'', [])"
    by blast
  from c(1) init p a2 ex init' endless neg show ?thesis by blast
qed

section \<open>The headless option of the command-line tool\<close>

lemma noDisplayCliWorld_headless:
  "crawlPriceHistory noDisplayCliWorld u f True =
     Some \<lparr>cli_thrown = None, written = None, cli_closed = [0]\<rparr>"
proof -
  have "crawlPriceHistory noDisplayCliWorld u f True =
          Some \<lparr>cli_thrown = cli_closeBrowser noDisplayCliWorld 0, written = None,
                cli_closed = [0]\<rparr>"
    by (rule crawlPriceHistory_no_table[where page = noTableTab and err = "''Waiting failed: 10000ms exceeded''"])
      (simp_all add: noDisplayCliWorld_def noTableTab_def view_defs)
  then show ?thesis by (simp add: noDisplayCliWorld_def)
qed

lemma noDisplayClassWorld_headless:
  "crawlByClass noDisplayClassWorld u ''title'' f True =
     \<lparr>cls_thrown = None,
      cls_written = Some (f,
        \<lparr>cr_url = u, cr_className = ''title'', cr_timestamp = ''2024-01-01T00:00:00.000Z'',
         cr_count = 1,
         cr_elements =
           [\<lparr>el_index = 0, el_text = ''Price history'', el_html = ''Price history'',
             el_tagName = ''h2'', el_attributes = [(''class'', ''title'')]\<rparr>]\<rparr>),
      cls_closed = [0]\<rparr>"
  by (simp add: crawlByClass_def crawlByClassLogged_def puppeteerLaunch_def crawlByClassBody_def
        noDisplayClassWorld_def headingTab_def headingElement_def scrapeElements_def
        scrapeElement_def toLowerCase_def toLowerChar_def enumerate_eq_zip)

text \<open>
  Claim C10. Either command calls \<open>puppeteer.launch\<close> exactly once, and the \<open>headless\<close>
  option of that call is off exactly when the value of the \<open>--headless\<close> option is the
  string \<open>false\<close>. The value is the default \<open>false\<close> when the option is not given, so both
  commands launch a visible browser by default; any other value, \<open>0\<close> and \<open>no\<close> among
  them, launches a headless one. What the command then does is what \<open>crawlPriceHistory\<close>,
  or \<open>crawlByClass\<close>, does with that flag and the output file of the command line: when
  the launch with that flag fails, the command fails with the error of that launch,
  closes nothing and exits with code 1; when it succeeds, the browser the command
  closes at the end is the one that launch returned.
\<close>

theorem headless_only_when_false:
  "launchCalls (priceHistoryCommand w u outputGiven given) =
      [optionValue given ''false'' \<noteq> ''false'']
   \<and> launchCalls (crawlCommand cw u cls outputGiven given) =
      [optionValue given ''false'' \<noteq> ''false'']
   \<and> launchCalls (priceHistoryCommand w u outputGiven None) = [False]
   \<and> launchCalls (crawlCommand cw u cls outputGiven None) = [False]
   \<and> launchCalls (priceHistoryCommand w u outputGiven (Some ''false'')) = [False]
   \<and> launchCalls (crawlCommand cw u cls outputGiven (Some ''false'')) = [False]
   \<and> launchCalls (priceHistoryCommand w u outputGiven (Some ''0'')) = [True]
   \<and> launchCalls (crawlCommand cw u cls outputGiven (Some ''0'')) = [True]
   \<and> launchCalls (priceHistoryCommand w u outputGiven (Some ''no'')) = [True]
   \<and> launchCalls (crawlCommand cw u cls outputGiven (Some ''no'')) = [True]
   \<and> crawlRun (priceHistoryCommand w u outputGiven given) =
      crawlPriceHistory w u (optionValue outputGiven ''price-history.json'')
        (optionValue given ''false'' \<noteq> ''false'')
   \<and> crawlRun (crawlCommand cw u cls outputGiven given) =
      Some (crawlByClass cw u cls (optionValue outputGiven ''output.json'')
        (optionValue given ''false'' \<noteq> ''false''))
   \<and> (\<forall>e. cli_launch w (optionValue given ''false'' \<noteq> ''false'') = Inl e \<longrightarrow>
          priceHistoryCommand w u outputGiven given =
            \<lparr>launchCalls = [optionValue given ''false'' \<noteq> ''false''],
             crawlRun = Some \<lparr>cli_thrown = Some e, written = None, cli_closed = []\<rparr>,
             exitCode = Some 1\<rparr>)
   \<and> (\<forall>e. cls_launch cw (optionValue given ''false'' \<noteq> ''false'') = Inl e \<longrightarrow>
          crawlCommand cw u cls outputGiven given =
            \<lparr>launchCalls = [optionValue given ''false'' \<noteq> ''false''],
             crawlRun = Some \<lparr>cls_thrown = Some e, cls_written = None, cls_closed = []\<rparr>,
             exitCode = Some 1\<rparr>)
   \<and> (\<forall>b r. cli_launch w (optionValue given ''false'' \<noteq> ''false'') = Inr b
          \<and> crawlRun (priceHistoryCommand w u outputGiven given) = Some r
        \<longrightarrow> cli_closed r = [b])
   \<and> (\<forall>b. cls_launch cw (optionValue given ''false'' \<noteq> ''false'') = Inr b
        \<longrightarrow> crawlRun (crawlCommand cw u cls outputGiven given) \<noteq> None
          \<and> map_option cls_closed (crawlRun (crawlCommand cw u cls outputGiven given)) =
              Some [b])
   \<and> (priceHistoryHeadlessMode given \<longleftrightarrow> optionValue given ''false'' \<noteq> ''false'')
   \<and> (crawlHeadlessMode given \<longleftrightarrow> optionValue given ''false'' \<noteq> ''false'')
   \<and> optionValue None ''false'' = ''false''
   \<and> optionValue (Some v) ''false'' = v
   \<and> \<not> priceHistoryHeadlessMode None \<and> \<not> crawlHeadlessMode None
   \<and> \<not> priceHistoryHeadlessMode (Some ''false'') \<and> \<not> crawlHeadlessMode (Some ''false'')
   \<and> priceHistoryHeadlessMode (Some ''0'') \<and> crawlHeadlessMode (Some ''0'')
   \<and> priceHistoryHeadlessMode (Some ''no'') \<and> crawlHeadlessMode (Some ''no'')"
proof -
  have ph: "priceHistoryHeadlessMode g \<longleftrightarrow> optionValue g ''false'' \<noteq> ''false''" for g
    by (simp add: priceHistoryHeadlessMode_def)
  have ch: "crawlHeadlessMode g \<longleftrightarrow> optionValue g ''false'' \<noteq> ''false''" for g
    by (simp add: crawlHeadlessMode_def)
  have pc: "launchCalls (priceHistoryCommand w u outputGiven g) = [optionValue g ''false'' \<noteq> ''false'']"
    for g
    by (simp add: priceHistoryCommand_def crawlPriceHistoryLogged_def puppeteerLaunch_def ph
          split: sum.splits prod.splits)
  have cc: "launchCalls (crawlCommand cw u cls outputGiven g) = [optionValue g ''false'' \<noteq> ''false'']"
    for g
    by (simp add: crawlCommand_def crawlByClassLogged_def puppeteerLaunch_def ch
          split: sum.splits prod.splits)
  have pr: "crawlRun (priceHistoryCommand w u outputGiven given) =
      crawlPriceHistory w u (optionValue outputGiven ''price-history.json'')
        (optionValue given ''false'' \<noteq> ''false'')"
    by (simp add: priceHistoryCommand_def crawlPriceHistory_def ph split: prod.splits)
  have cr: "crawlRun (crawlCommand cw u cls outputGiven given) =
      Some (crawlByClass cw u cls (optionValue outputGiven ''output.json'')
        (optionValue given ''false'' \<noteq> ''false''))"
    by (simp add: crawlCommand_def crawlByClass_def ch split: prod.splits)
  have pf: "priceHistoryCommand w u outputGiven given =
            \<lparr>launchCalls = [optionValue given ''false'' \<noteq> ''false''],
             crawlRun = Some \<lparr>cli_thrown = Some e, written = None, cli_closed = []\<rparr>,
             exitCode = Some 1\<rparr>"
    if "cli_launch w (optionValue given ''false'' \<noteq> ''false'') = Inl e" for e
    using that
    by (simp add: priceHistoryCommand_def crawlPriceHistoryLogged_def puppeteerLaunch_def ph)
  have cf: "crawlCommand cw u cls outputGiven given =
            \<lparr>launchCalls = [optionValue given ''false'' \<noteq> ''false''],
             crawlRun = Some \<lparr>cls_thrown = Some e, cls_written = None, cls_closed = []\<rparr>,
             exitCode = Some 1\<rparr>"
    if "cls_launch cw (optionValue given ''false'' \<noteq> ''false'') = Inl e" for e
    using that
    by (simp add: crawlCommand_def crawlByClassLogged_def puppeteerLaunch_def ch)
  have ps: "cli_closed r = [b]"
    if "cli_launch w (optionValue given ''false'' \<noteq> ''false'') = Inr b"
      "crawlRun (priceHistoryCommand w u outputGiven given) = Some r" for b r
    using that unfolding pr
    by (auto simp add: crawlPriceHistory_unfold split: option.splits)
  have cs: "crawlRun (crawlCommand cw u cls outputGiven given) \<noteq> None
          \<and> map_option cls_closed (crawlRun (crawlCommand cw u cls outputGiven given)) =
              Some [b]"
    if "cls_launch cw (optionValue given ''false'' \<noteq> ''false'') = Inr b" for b
    using that unfolding cr
    by (simp add: crawlByClass_def crawlByClassLogged_def puppeteerLaunch_def)
  have ov: "optionValue None ''false'' = ''false''" "optionValue (Some v) ''false'' = v"
    by (simp_all add: optionValue_def)
  have m1: "launchCalls (priceHistoryCommand w u outputGiven None) = [False]"
    "launchCalls (priceHistoryCommand w u outputGiven (Some ''false'')) = [False]"
    "launchCalls (priceHistoryCommand w u outputGiven (Some ''0'')) = [True]"
    "launchCalls (priceHistoryCommand w u outputGiven (Some ''no'')) = [True]"
    unfolding pc by (simp_all add: optionValue_def)
  have m2: "launchCalls (crawlCommand cw u cls outputGiven None) = [False]"
    "launchCalls (crawlCommand cw u cls outputGiven (Some ''false'')) = [False]"
    "launchCalls (crawlCommand cw u cls outputGiven (Some ''0'')) = [True]"
    "launchCalls (crawlCommand cw u cls outputGiven (Some ''no'')) = [True]"
    unfolding cc by (simp_all add: optionValue_def)
  have m3: "\<not> priceHistoryHeadlessMode None" "\<not> crawlHeadlessMode None"
    "\<not> priceHistoryHeadlessMode (Some ''false'')" "\<not> crawlHeadlessMode (Some ''false'')"
    "priceHistoryHeadlessMode (Some ''0'')" "crawlHeadlessMode (Some ''0'')"
    "priceHistoryHeadlessMode (Some ''no'')" "crawlHeadlessMode (Some ''no'')"
    unfolding ph ch by (simp_all add: optionValue_def)
  show ?thesis
    using pc[of given] cc[of given] m1 m2 pr cr pf cf ps cs ph[of given] ch[of given] ov m3
    by blast
qed

theorem headless_only_when_false_witness:
  "priceHistoryCommand noDisplayCliWorld ''https://example.com/a'' None None =
      \<lparr>launchCalls = [False],
       crawlRun = Some \<lparr>cli_thrown = Some ''Missing X server'', written = None, cli_closed = []\<rparr>,
       exitCode = Some 1\<rparr>
   \<and> crawlCommand noDisplayClassWorld ''https://example.com/a'' ''title'' None None =
      \<lparr>launchCalls = [False],
       crawlRun = Some \<lparr>cls_thrown = Some ''Missing X server'', cls_written = None,
                        cls_closed = []\<rparr>,
       exitCode = Some 1\<rparr>
   \<and> launchCalls (priceHistoryCommand noDisplayCliWorld ''https://example.com/a'' None
        (Some ''true'')) = [True]
   \<and> crawlRun (priceHistoryCommand noDisplayCliWorld ''https://example.com/a'' None
        (Some ''true'')) = Some \<lparr>cli_thrown = None, written = None, cli_closed = [0]\<rparr>
   \<and> launchCalls (crawlCommand noDisplayClassWorld ''https://example.com/a'' ''title'' None
        (Some ''0'')) = [True]
   \<and> map_option cls_closed (crawlRun (crawlCommand noDisplayClassWorld
        ''https://example.com/a'' ''title'' None (Some ''0''))) = Some [0]
   \<and> map_option cls_written (crawlRun (crawlCommand noDisplayClassWorld
        ''https://example.com/a'' ''title'' None (Some ''0''))) =
      Some (Some (''output.json'',
        \<lparr>cr_url = ''https://example.com/a'', cr_className = ''title'',
         cr_timestamp = ''2024-01-01T00:00:00.000Z'', cr_count = 1,
         cr_elements =
           [\<lparr>el_index = 0, el_text = ''Price history'', el_html = ''Price history'',
             el_tagName = ''h2'', el_attributes = [(''class'', ''title'')]\<rparr>]\<rparr>))"
  using headless_only_when_false[where w = noDisplayCliWorld and cw = noDisplayClassWorld
      and u = "''https://example.com/a''" and cls = "''title''" and outputGiven = None
      and given = None]
    headless_only_when_false[where w = noDisplayCliWorld and cw = noDisplayClassWorld
      and u = "''https://example.com/a''" and cls = "''title''" and outputGiven = None
      and given = "Some ''true''"]
    headless_only_when_false[where w = noDisplayCliWorld and cw = noDisplayClassWorld
      and u = "''https://example.com/a''" and cls = "''title''" and outputGiven = None
      and given = "Some ''0''"]
    noDisplayCliWorld_headless[of "''https://example.com/a''" "''price-history.json''"]
    noDisplayClassWorld_headless[of "''https://example.com/a''" "''output.json''"]
  by (simp add: optionValue_def noDisplayCliWorld_def noDisplayClassWorld_def)

end
